(* ===== verification/Prelude.thy ===== *)
theory Prelude
  imports Main "HOL-Library.Sublist"
begin

text \<open>
  Shared vocabulary of the okg.me development: the exceptions the handlers can
  meet, as values; the JavaScript string operations the handlers call
  (\<open>toLowerCase\<close>, \<open>includes\<close>, the \<open>||\<close> default on a nullable string), over
  ASCII strings; and the list lemmas the store and cache proofs share.
  Strings are \<^typ>\<open>string\<close>: one \<^typ>\<open>char\<close> per UTF-16 code unit, which is exact
  for the ASCII slugs, header names and URLs the code handles.
\<close>

section \<open>Fact collections\<close>

named_theorems okg_defs \<open>definitions of library calls that handler proofs unfold\<close>
named_theorems okg_frame \<open>frame facts: fields an operation leaves unchanged\<close>

lemmas okg_splits = if_splits option.splits sum.splits prod.splits list.splits

section \<open>Exceptions as values\<close>

text \<open>
  Every \<open>throw\<close> the handlers can observe. A computation that may throw returns
  \<open>exn + 'a\<close>, with \<open>Inl\<close> the exception; a \<open>try\<close>/\<open>catch\<close> is a case split on it.
\<close>

datatype exn =
    GenerationExhausted    \<comment> \<open>\<open>new Error('Failed to generate a unique slug.')\<close>\<close>
  | StoreUnavailable       \<comment> \<open>the database cannot be reached\<close>
  | StoreValidation        \<comment> \<open>a query argument has the wrong type\<close>
  | UniqueViolation        \<comment> \<open>a row with this slug exists\<close>
  | RecordNotFound         \<comment> \<open>a write names a row that does not exist\<close>
  | CacheUnavailable       \<comment> \<open>the Redis REST call failed\<close>
  | BodyUnreadable         \<comment> \<open>\<open>req.json()\<close> rejected\<close>
  | TypeError              \<comment> \<open>destructuring \<open>null\<close>\<close>
  | MalformedUrl           \<comment> \<open>\<open>NextResponse.redirect\<close> refused its target\<close>

type_synonym 'a result = "exn + 'a"

definition is_ok :: "'a result \<Rightarrow> bool" where
  "is_ok r = (case r of Inl _ \<Rightarrow> False | Inr _ \<Rightarrow> True)"

lemma is_ok_simps [simp]: "is_ok (Inr v)" "\<not> is_ok (Inl e)"
  by (simp_all add: is_ok_def)

lemma is_ok_iff: "is_ok r \<longleftrightarrow> (\<exists>v. r = Inr v)"
  by (cases r) simp_all

section \<open>JavaScript strings\<close>

subsection \<open>\<open>String.prototype.toLowerCase\<close>\<close>

definition lower_char :: "char \<Rightarrow> char" where
  "lower_char c =
     (case map_of (zip ''ABCDEFGHIJKLMNOPQRSTUVWXYZ'' ''abcdefghijklmnopqrstuvwxyz'') c of
        None \<Rightarrow> c | Some d \<Rightarrow> d)"

definition toLowerCase :: "string \<Rightarrow> string" where
  "toLowerCase s = map lower_char s"

lemma lower_char_idem [simp]: "lower_char (lower_char c) = lower_char c"
  by (simp add: lower_char_def split: option.splits)

lemma toLowerCase_simps [simp]:
  "toLowerCase [] = []"
  "toLowerCase (c # cs) = lower_char c # toLowerCase cs"
  "toLowerCase (xs @ ys) = toLowerCase xs @ toLowerCase ys"
  by (simp_all add: toLowerCase_def)

lemma length_toLowerCase [simp]: "length (toLowerCase s) = length s"
  by (simp add: toLowerCase_def)

lemma toLowerCase_idem [simp]: "toLowerCase (toLowerCase s) = toLowerCase s"
  by (induction s) simp_all

subsection \<open>\<open>String.prototype.startsWith\<close> and \<open>includes\<close>\<close>

fun startsWith :: "string \<Rightarrow> string \<Rightarrow> bool" where
  "startsWith s [] = True"
| "startsWith [] (p # ps) = False"
| "startsWith (c # cs) (p # ps) = (c = p \<and> startsWith cs ps)"

fun str_includes :: "string \<Rightarrow> string \<Rightarrow> bool" where
  "str_includes [] sub = (sub = [])"
| "str_includes (c # cs) sub = (startsWith (c # cs) sub \<or> str_includes cs sub)"

lemma startsWith_prefix: "startsWith s p = prefix p s"
  by (induction s p rule: startsWith.induct) auto

lemma includes_sublist: "str_includes s sub = sublist sub s"
  by (induction s) (auto simp: startsWith_prefix sublist_Cons_right)

lemma includes_empty [simp]: "str_includes s []"
  by (simp add: includes_sublist)

lemma includes_appendI:
  "str_includes s sub \<or> str_includes t sub \<Longrightarrow> str_includes (s @ t) sub"
  by (auto simp: includes_sublist sublist_append)

lemma includes_middle [simp]: "str_includes (pre @ sub @ post) sub"
  by (simp add: includes_sublist)

lemma includes_lower_middle:
  "toLowerCase w = sub \<Longrightarrow> str_includes (toLowerCase (pre @ w @ post)) sub"
  by (auto simp: includes_sublist)

subsection \<open>The \<open>||\<close> default on a nullable string\<close>

text \<open>
  \<open>h || d\<close> for \<open>h : string | null\<close>: \<open>null\<close> and the empty string are both falsy.
\<close>

definition or_else :: "string option \<Rightarrow> string \<Rightarrow> string" where
  "or_else h d = (case h of None \<Rightarrow> d | Some s \<Rightarrow> if s = [] then d else s)"

lemma or_else_simps [simp]:
  "or_else None d = d"
  "or_else (Some []) d = d"
  "s \<noteq> [] \<Longrightarrow> or_else (Some s) d = s"
  by (simp_all add: or_else_def)

lemma or_else_nonempty: "d \<noteq> [] \<Longrightarrow> or_else h d \<noteq> []"
  by (simp add: or_else_def split: option.splits)

section \<open>Lists\<close>

lemma find_None_iff_set: "find P xs = None \<longleftrightarrow> (\<forall>x \<in> set xs. \<not> P x)"
  by (induction xs) auto

lemma find_Some_set: "find P xs = Some x \<Longrightarrow> x \<in> set xs \<and> P x"
  by (induction xs) (auto split: if_splits)

lemma find_key_distinct:
  "distinct (map f xs) \<Longrightarrow> x \<in> set xs \<Longrightarrow> find (\<lambda>y. f y = f x) xs = Some x"
  by (induction xs) (auto simp: image_iff)

lemma find_append_snoc:
  "find P (xs @ [x]) = (case find P xs of Some y \<Rightarrow> Some y | None \<Rightarrow> if P x then Some x else None)"
  by (induction xs) auto

lemma length_filter_map_upd:
  "length (filter P (map f xs)) = length (filter (P \<circ> f) xs)"
  by (induction xs) auto

end
