(* ===== verification/JsValue.thy ===== *)
theory JsValue
  imports Prelude
begin

text \<open>
  The values a parsed JSON request body can hold, and the JavaScript operations
  the shorten handler applies to them before any type is known: truthiness
  (\<open>!originalUrl\<close>, \<open>if (customSlug)\<close>), property reads (the destructuring of
  the body, \<open>customSlug.length\<close>), the comparison of a value with a number
  literal, and the conversion to a string that \<open>new URL\<close> performs on its
  argument. Numbers are integers: the handlers observe of a number only whether
  it is zero and how it compares with 3 and 30.
\<close>

section \<open>Values\<close>

datatype jsval =
    JUndefined
  | JNull
  | JBool bool
  | JNum int
  | JStr string
  | JArr "jsval list"
  | JObj "(string \<times> jsval) list"

fun truthy :: "jsval \<Rightarrow> bool" where
  "truthy JUndefined = False"
| "truthy JNull = False"
| "truthy (JBool b) = b"
| "truthy (JNum n) = (n \<noteq> 0)"
| "truthy (JStr s) = (s \<noteq> [])"
| "truthy (JArr xs) = True"
| "truthy (JObj kvs) = True"

fun nullish :: "jsval \<Rightarrow> bool" where
  "nullish JUndefined = True"
| "nullish JNull = True"
| "nullish v = False"

lemma nullish_not_truthy: "nullish v \<Longrightarrow> \<not> truthy v"
  by (cases v) simp_all

section \<open>Property reads\<close>

text \<open>
  \<open>v.k\<close> for a value that is not nullish and a key that is no array index.
  \<open>JSON.parse\<close> keeps the last of two members with one key, hence the \<open>rev\<close>.
  A string and an array have a \<open>length\<close>; a number and a boolean have no
  property of their own.
\<close>

fun get_prop :: "jsval \<Rightarrow> string \<Rightarrow> jsval" where
  "get_prop (JObj kvs) k = (case map_of (rev kvs) k of None \<Rightarrow> JUndefined | Some v \<Rightarrow> v)"
| "get_prop (JStr s) k = (if k = ''length'' then JNum (int (length s)) else JUndefined)"
| "get_prop (JArr xs) k = (if k = ''length'' then JNum (int (length xs)) else JUndefined)"
| "get_prop v k = JUndefined"

definition js_length :: "jsval \<Rightarrow> jsval" where
  "js_length v = get_prop v ''length''"

lemma js_length_simps [simp]:
  "js_length (JStr s) = JNum (int (length s))"
  "js_length (JArr xs) = JNum (int (length xs))"
  "js_length (JNum n) = JUndefined"
  "js_length (JBool b) = JUndefined"
  by (simp_all add: js_length_def)

section \<open>Conversion to a string\<close>

fun show_nat :: "nat \<Rightarrow> string" where
  "show_nat n =
     (if n < 10 then [''0123456789'' ! n]
      else show_nat (n div 10) @ [''0123456789'' ! (n mod 10)])"

declare show_nat.simps [simp del]

definition show_int :: "int \<Rightarrow> string" where
  "show_int i = (if i < 0 then CHR ''-'' # show_nat (nat (- i)) else show_nat (nat i))"

fun join_comma :: "string list \<Rightarrow> string" where
  "join_comma [] = []"
| "join_comma [s] = s"
| "join_comma (s # t # ts) = s @ '','' @ join_comma (t # ts)"

text \<open>\<open>String(v)\<close>. An array joins its elements with commas, a nullish element as the empty string.\<close>

fun js_to_string :: "jsval \<Rightarrow> string" where
  "js_to_string JUndefined = ''undefined''"
| "js_to_string JNull = ''null''"
| "js_to_string (JBool b) = (if b then ''true'' else ''false'')"
| "js_to_string (JNum n) = show_int n"
| "js_to_string (JStr s) = s"
| "js_to_string (JArr xs) = join_comma (map (\<lambda>x. if nullish x then [] else js_to_string x) xs)"
| "js_to_string (JObj kvs) = ''[object Object]''"

lemma show_nat_nonempty: "show_nat n \<noteq> []"
  by (subst show_nat.simps) simp

lemma js_to_string_singleton [simp]: "js_to_string (JArr [JStr s]) = s"
  by simp

section \<open>Comparison with a number literal\<close>

text \<open>
  \<open>v < k\<close> and \<open>v > k\<close> convert \<open>v\<close> to a number; \<open>NaN\<close> (here \<open>None\<close>) makes
  both false. Of strings, the empty one is 0 and a string of decimal digits is
  its value; any other string is read as \<open>NaN\<close>, which leaves out signs,
  fractions, exponents, radix prefixes and surrounding blanks. The handlers
  compare \<open>customSlug.length\<close> only, which is a number for every string and
  array, so the restriction touches only an object that carries a string-valued
  \<open>length\<close> member.
\<close>

definition digit_val :: "char \<Rightarrow> nat option" where
  "digit_val c = map_of (zip ''0123456789'' [0 ..< 10]) c"

fun digits_val :: "nat \<Rightarrow> string \<Rightarrow> nat option" where
  "digits_val acc [] = Some acc"
| "digits_val acc (c # cs) =
     (case digit_val c of None \<Rightarrow> None | Some d \<Rightarrow> digits_val (10 * acc + d) cs)"

definition str_to_number :: "string \<Rightarrow> int option" where
  "str_to_number s = map_option int (digits_val 0 s)"

fun to_number :: "jsval \<Rightarrow> int option" where
  "to_number JUndefined = None"
| "to_number JNull = Some 0"
| "to_number (JBool b) = Some (if b then 1 else 0)"
| "to_number (JNum n) = Some n"
| "to_number (JStr s) = str_to_number s"
| "to_number (JArr xs) = str_to_number (js_to_string (JArr xs))"
| "to_number (JObj kvs) = None"

definition js_lt :: "jsval \<Rightarrow> int \<Rightarrow> bool" where
  "js_lt v k = (case to_number v of None \<Rightarrow> False | Some n \<Rightarrow> n < k)"

definition js_gt :: "jsval \<Rightarrow> int \<Rightarrow> bool" where
  "js_gt v k = (case to_number v of None \<Rightarrow> False | Some n \<Rightarrow> n > k)"

lemma js_cmp_simps [simp]:
  "js_lt (JNum n) k = (n < k)"
  "js_gt (JNum n) k = (n > k)"
  "js_lt JUndefined k = False"
  "js_gt JUndefined k = False"
  by (simp_all add: js_lt_def js_gt_def)

lemma js_lt_gt_exclusive: "js_lt v a \<Longrightarrow> a \<le> b \<Longrightarrow> \<not> js_gt v b"
  by (auto simp: js_lt_def js_gt_def split: option.splits)

section \<open>Strings among the values\<close>

definition is_string :: "jsval \<Rightarrow> bool" where
  "is_string v = (case v of JStr _ \<Rightarrow> True | _ \<Rightarrow> False)"

lemma is_string_simps [simp]:
  "is_string (JStr s)" "\<not> is_string JUndefined" "\<not> is_string JNull"
  "\<not> is_string (JBool b)" "\<not> is_string (JNum n)" "\<not> is_string (JArr xs)"
  "\<not> is_string (JObj kvs)"
  by (simp_all add: is_string_def)

lemma is_string_iff: "is_string v \<longleftrightarrow> (\<exists>s. v = JStr s)"
  by (cases v) simp_all

lemma truthy_string: "truthy v \<Longrightarrow> is_string v \<Longrightarrow> \<exists>s. v = JStr s \<and> s \<noteq> []"
  by (cases v) simp_all

end
