(* ===== verification/Store.thy ===== *)
theory Store
  imports JsValue
begin

text \<open>
  The persistent store behind \<open>prisma.link\<close> and \<open>prisma.clickLog\<close>. The Prisma
  client and its schema are not among the sources, so this theory is written
  from the specification's data model (Link, ClickLog) and persistence
  contract: slugs are unique, a write of an existing slug is refused, the click
  transaction inserts its row and increments the counter together or not at
  all. The three operations are the three queries the handlers issue. The
  handlers pass values of the request body through unchanged, so a query takes
  \<^typ>\<open>jsval\<close> arguments and refuses one that is no string, as the client does.
\<close>

section \<open>Rows and tables\<close>

record link =
  link_id :: nat
  slug :: string
  originalUrl :: string
  totalClicks :: nat
  createdAt :: nat

record clickLog =
  linkId :: nat
  ipHash :: string
  userAgent :: string
  timestamp :: nat

record store =
  links :: "link list"
  clicks :: "clickLog list"
  next_id :: nat
  db_up :: bool

definition empty_store :: store where
  "empty_store = \<lparr>links = [], clicks = [], next_id = 0, db_up = True\<rparr>"

section \<open>Queries\<close>

definition link_by_slug :: "store \<Rightarrow> string \<Rightarrow> link option" where
  "link_by_slug st s = find (\<lambda>l. slug l = s) (links st)"

definition link_by_id :: "store \<Rightarrow> nat \<Rightarrow> link option" where
  "link_by_id st i = find (\<lambda>l. link_id l = i) (links st)"

text \<open>\<open>prisma.link.findUnique({ where: { slug } })\<close>\<close>

definition findUnique :: "store \<Rightarrow> jsval \<Rightarrow> link option result" where
  "findUnique st v =
     (case v of
        JStr s \<Rightarrow> if db_up st then Inr (link_by_slug st s) else Inl StoreUnavailable
      | _ \<Rightarrow> Inl StoreValidation)"

text \<open>\<open>prisma.link.create({ data: { originalUrl, slug } })\<close>\<close>

definition link_create :: "store \<Rightarrow> nat \<Rightarrow> jsval \<Rightarrow> jsval \<Rightarrow> (link \<times> store) result" where
  "link_create st now u v =
     (case (u, v) of
        (JStr url, JStr s) \<Rightarrow>
          if \<not> db_up st then Inl StoreUnavailable
          else if link_by_slug st s \<noteq> None then Inl UniqueViolation
          else
            let l = \<lparr>link_id = next_id st, slug = s, originalUrl = url,
                     totalClicks = 0, createdAt = now\<rparr>
            in Inr (l, st\<lparr>links := links st @ [l], next_id := Suc (next_id st)\<rparr>)
      | _ \<Rightarrow> Inl StoreValidation)"

text \<open>
  \<open>prisma.$transaction([clickLog.create(...), link.update({ where: { id },
  data: { totalClicks: { increment: 1 } } })])\<close>: both writes or neither.
\<close>

definition bump_clicks :: "nat \<Rightarrow> link \<Rightarrow> link" where
  "bump_clicks i l = (if link_id l = i then l\<lparr>totalClicks := Suc (totalClicks l)\<rparr> else l)"

definition click_transaction :: "store \<Rightarrow> nat \<Rightarrow> nat \<Rightarrow> string \<Rightarrow> string \<Rightarrow> store result" where
  "click_transaction st now i h ua =
     (if \<not> db_up st then Inl StoreUnavailable
      else if link_by_id st i = None then Inl RecordNotFound
      else Inr (st\<lparr>clicks := clicks st @ [\<lparr>linkId = i, ipHash = h, userAgent = ua, timestamp = now\<rparr>],
                   links := map (bump_clicks i) (links st)\<rparr>))"

lemmas store_defs [okg_defs] =
  findUnique_def link_create_def click_transaction_def link_by_slug_def link_by_id_def

section \<open>What the store promises: a map from slugs to destinations\<close>

definition resolve :: "store \<Rightarrow> string \<Rightarrow> string option" where
  "resolve st s = map_option originalUrl (link_by_slug st s)"

definition click_count :: "store \<Rightarrow> nat \<Rightarrow> nat" where
  "click_count st i = length (filter (\<lambda>c. linkId c = i) (clicks st))"

definition slugs :: "store \<Rightarrow> string set" where
  "slugs st = slug ` set (links st)"

lemma link_by_slug_None: "link_by_slug st s = None \<longleftrightarrow> s \<notin> slugs st"
  by (auto simp: link_by_slug_def slugs_def find_None_iff_set)

lemma in_slugs_iff: "s \<in> slugs st \<longleftrightarrow> link_by_slug st s \<noteq> None"
  by (simp add: link_by_slug_None)

lemma link_by_slug_Some: "link_by_slug st s = Some l \<Longrightarrow> l \<in> set (links st) \<and> slug l = s"
  by (auto simp: link_by_slug_def dest: find_Some_set)

lemma link_by_id_Some: "link_by_id st i = Some l \<Longrightarrow> l \<in> set (links st) \<and> link_id l = i"
  by (auto simp: link_by_id_def dest: find_Some_set)

lemma resolve_None: "resolve st s = None \<longleftrightarrow> s \<notin> slugs st"
  by (simp add: resolve_def link_by_slug_None)

lemma dom_resolve: "dom (resolve st) = slugs st"
  by (auto simp: dom_def resolve_None)

lemma findUnique_string:
  "findUnique st (JStr s) = (if db_up st then Inr (link_by_slug st s) else Inl StoreUnavailable)"
  by (simp add: findUnique_def)

lemma findUnique_not_string: "\<not> is_string v \<Longrightarrow> findUnique st v = Inl StoreValidation"
  by (cases v) (simp_all add: findUnique_def)

lemma findUnique_Inr: "findUnique st v = Inr r \<Longrightarrow> \<exists>s. v = JStr s \<and> db_up st \<and> r = link_by_slug st s"
  by (cases v) (auto simp: findUnique_def split: if_splits)

lemma empty_store_simps [simp]:
  "links empty_store = []" "clicks empty_store = []" "next_id empty_store = 0"
  "db_up empty_store" "slugs empty_store = {}"
  by (simp_all add: empty_store_def slugs_def)

lemma db_up_irrelevant [simp]:
  "link_by_slug (st\<lparr>db_up := b\<rparr>) = link_by_slug st"
  "link_by_id (st\<lparr>db_up := b\<rparr>) = link_by_id st"
  "resolve (st\<lparr>db_up := b\<rparr>) = resolve st"
  "slugs (st\<lparr>db_up := b\<rparr>) = slugs st"
  "click_count (st\<lparr>db_up := b\<rparr>) = click_count st"
  by (simp_all add: link_by_slug_def link_by_id_def resolve_def slugs_def click_count_def
      fun_eq_iff)

section \<open>The invariant of the tables\<close>

definition slugs_unique :: "store \<Rightarrow> bool" where
  "slugs_unique st = distinct (map slug (links st))"

definition ids_unique :: "store \<Rightarrow> bool" where
  "ids_unique st = distinct (map link_id (links st))"

definition ids_fresh :: "store \<Rightarrow> bool" where
  "ids_fresh st = list_all (\<lambda>l. link_id l < next_id st) (links st)"

definition clicks_attached :: "store \<Rightarrow> bool" where
  "clicks_attached st = list_all (\<lambda>c. link_by_id st (linkId c) \<noteq> None) (clicks st)"

definition counters_exact :: "store \<Rightarrow> bool" where
  "counters_exact st = list_all (\<lambda>l. totalClicks l = click_count st (link_id l)) (links st)"

definition store_inv :: "store \<Rightarrow> bool" where
  "store_inv st \<longleftrightarrow>
     slugs_unique st \<and> ids_unique st \<and> ids_fresh st \<and> clicks_attached st \<and> counters_exact st"

lemmas store_inv_defs =
  store_inv_def slugs_unique_def ids_unique_def ids_fresh_def clicks_attached_def
  counters_exact_def

lemma store_inv_empty: "store_inv empty_store"
  by (simp add: store_inv_defs empty_store_def)

lemma store_inv_db_up [simp]: "store_inv (st\<lparr>db_up := b\<rparr>) = store_inv st"
  by (simp add: store_inv_defs click_count_def link_by_id_def)

subsection \<open>Creating a link\<close>

lemma link_create_Inr:
  assumes "link_create st now u v = Inr (l, st')"
  shows "\<exists>url s. u = JStr url \<and> v = JStr s \<and> db_up st \<and> s \<notin> slugs st
           \<and> l = \<lparr>link_id = next_id st, slug = s, originalUrl = url, totalClicks = 0, createdAt = now\<rparr>
           \<and> st' = st\<lparr>links := links st @ [l], next_id := Suc (next_id st)\<rparr>"
  using assms
  by (cases u; cases v) (auto simp: link_create_def Let_def link_by_slug_None split: if_splits)

lemma link_create_ok:
  "db_up st \<Longrightarrow> s \<notin> slugs st \<Longrightarrow> \<exists>l st'. link_create st now (JStr url) (JStr s) = Inr (l, st')"
  by (simp add: link_create_def Let_def link_by_slug_None)

lemma link_create_taken:
  "db_up st \<Longrightarrow> s \<in> slugs st \<Longrightarrow> link_create st now (JStr url) (JStr s) = Inl UniqueViolation"
  by (simp add: link_create_def link_by_slug_None)

lemma link_by_id_fresh: "ids_fresh st \<Longrightarrow> link_by_id st (next_id st) = None"
  by (auto simp: ids_fresh_def link_by_id_def find_None_iff_set list_all_iff)

lemma click_count_fresh:
  "ids_fresh st \<Longrightarrow> clicks_attached st \<Longrightarrow> click_count st (next_id st) = 0"
  using link_by_id_fresh [of st]
  by (fastforce simp: click_count_def clicks_attached_def list_all_iff filter_empty_conv)

lemma link_by_id_append:
  "link_by_id (st\<lparr>links := links st @ [l], next_id := n\<rparr>) i =
     (case link_by_id st i of Some k \<Rightarrow> Some k | None \<Rightarrow> if link_id l = i then Some l else None)"
  by (simp add: link_by_id_def find_append_snoc)

lemma link_create_inv:
  assumes "link_create st now u v = Inr (l, st')" and "store_inv st"
  shows "store_inv st'"
proof -
  from assms(1) obtain url s where
    fresh: "s \<notin> slugs st"
    and l: "l = \<lparr>link_id = next_id st, slug = s, originalUrl = url, totalClicks = 0, createdAt = now\<rparr>"
    and st': "st' = st\<lparr>links := links st @ [l], next_id := Suc (next_id st)\<rparr>"
    by (blast dest: link_create_Inr)
  from assms(2) have inv: "slugs_unique st" "ids_unique st" "ids_fresh st"
    "clicks_attached st" "counters_exact st"
    by (simp_all add: store_inv_def)
  have "slugs_unique st'"
    using inv(1) fresh by (simp add: st' l slugs_unique_def slugs_def)
  moreover have "ids_unique st'"
    using inv(2,3) by (auto simp: st' l ids_unique_def ids_fresh_def list_all_iff)
  moreover have "ids_fresh st'"
    using inv(3) by (auto simp: st' l ids_fresh_def list_all_iff)
  moreover have "clicks_attached st'"
    using inv(4) unfolding st' clicks_attached_def
    by (auto simp: list_all_iff link_by_id_append split: option.splits)
  moreover have "counters_exact st'"
    using inv(5) click_count_fresh [OF inv(3,4)]
    by (simp add: st' l counters_exact_def click_count_def)
  ultimately show ?thesis by (simp add: store_inv_def)
qed

lemma link_create_resolve:
  assumes "link_create st now u v = Inr (l, st')"
  shows "\<exists>url s. u = JStr url \<and> v = JStr s \<and> resolve st' = (resolve st)(s \<mapsto> url)"
proof -
  from assms obtain url s where u: "u = JStr url" "v = JStr s" and fresh: "s \<notin> slugs st"
    and l: "l = \<lparr>link_id = next_id st, slug = s, originalUrl = url, totalClicks = 0, createdAt = now\<rparr>"
    and st': "st' = st\<lparr>links := links st @ [l], next_id := Suc (next_id st)\<rparr>"
    by (blast dest: link_create_Inr)
  have "resolve st' t = ((resolve st)(s \<mapsto> url)) t" for t
    using fresh
    by (auto simp: st' l resolve_def link_by_slug_def find_append_snoc slugs_def
        find_None_iff_set split: option.splits dest: find_Some_set)
  with u show ?thesis by blast
qed

subsection \<open>Recording a click\<close>

lemma slug_bump [simp]: "slug (bump_clicks i l) = slug l"
  and link_id_bump [simp]: "link_id (bump_clicks i l) = link_id l"
  and originalUrl_bump [simp]: "originalUrl (bump_clicks i l) = originalUrl l"
  and createdAt_bump [simp]: "createdAt (bump_clicks i l) = createdAt l"
  by (simp_all add: bump_clicks_def)

lemma totalClicks_bump:
  "totalClicks (bump_clicks i l) = (if link_id l = i then Suc (totalClicks l) else totalClicks l)"
  by (simp add: bump_clicks_def)

lemma find_map_bump:
  "find (\<lambda>l. f l = k) (map (bump_clicks i) ls) = map_option (bump_clicks i) (find (\<lambda>l. f (bump_clicks i l) = k) ls)"
  by (induction ls) auto

lemma click_transaction_Inr:
  assumes "click_transaction st now i h ua = Inr st'"
  shows "db_up st \<and> link_by_id st i \<noteq> None
           \<and> st' = st\<lparr>clicks := clicks st @ [\<lparr>linkId = i, ipHash = h, userAgent = ua, timestamp = now\<rparr>],
                      links := map (bump_clicks i) (links st)\<rparr>"
  using assms by (auto simp: click_transaction_def split: if_splits)

lemma click_transaction_resolve:
  "click_transaction st now i h ua = Inr st' \<Longrightarrow> resolve st' = resolve st"
  by (auto simp: resolve_def link_by_slug_def find_map_bump option.map_comp comp_def
      dest!: click_transaction_Inr intro!: ext)

lemma click_transaction_link_by_id:
  "click_transaction st now i h ua = Inr st' \<Longrightarrow>
     link_by_id st' j = map_option (bump_clicks i) (link_by_id st j)"
  by (auto simp: link_by_id_def find_map_bump dest!: click_transaction_Inr)

lemma click_transaction_count:
  "click_transaction st now i h ua = Inr st' \<Longrightarrow>
     click_count st' j = (if j = i then Suc (click_count st j) else click_count st j)"
  by (auto simp: click_count_def dest!: click_transaction_Inr)

lemma click_transaction_inv:
  assumes tx: "click_transaction st now i h ua = Inr st'" and "store_inv st"
  shows "store_inv st'"
proof -
  note eq = click_transaction_Inr [OF tx]
  from assms(2) have inv: "slugs_unique st" "ids_unique st" "ids_fresh st"
    "clicks_attached st" "counters_exact st"
    by (simp_all add: store_inv_def)
  from eq have ls: "links st' = map (bump_clicks i) (links st)"
    and cs: "clicks st' = clicks st @ [\<lparr>linkId = i, ipHash = h, userAgent = ua, timestamp = now\<rparr>]"
    and nx: "next_id st' = next_id st"
    by simp_all
  have "slugs_unique st'" "ids_unique st'" "ids_fresh st'"
    using inv(1-3) by (simp_all add: slugs_unique_def ids_unique_def ids_fresh_def ls nx
        comp_def list_all_iff)
  moreover have "link_by_id st' j \<noteq> None \<longleftrightarrow> link_by_id st j \<noteq> None" for j
    by (simp add: click_transaction_link_by_id [OF tx])
  then have "clicks_attached st'"
    using inv(4) eq by (simp add: clicks_attached_def cs list_all_iff)
  moreover have "counters_exact st'"
    using inv(5)
    by (auto simp: counters_exact_def ls list_all_iff click_transaction_count [OF tx]
        totalClicks_bump)
  ultimately show ?thesis by (simp add: store_inv_def)
qed

lemma click_transaction_fails_unchanged:
  "click_transaction st now i h ua = Inl e \<Longrightarrow>
     e \<in> {StoreUnavailable, RecordNotFound} \<and> (e = StoreUnavailable \<longleftrightarrow> \<not> db_up st)"
  by (auto simp: click_transaction_def split: if_splits)

section \<open>A store for the examples\<close>

definition abc_store :: store where
  "abc_store =
     \<lparr>links = [\<lparr>link_id = 0, slug = ''abc'', originalUrl = ''https://example.com'',
                 totalClicks = 0, createdAt = 7\<rparr>],
      clicks = [], next_id = 1, db_up = True\<rparr>"

lemma store_inv_abc_store: "store_inv abc_store"
  by (simp add: store_inv_defs abc_store_def click_count_def link_by_id_def)

lemma link_by_id_member:
  "l \<in> set (links st) \<Longrightarrow> link_by_id st (link_id l) \<noteq> None"
  by (auto simp: link_by_id_def find_None_iff_set)

end
