(* ===== verification/Url.thy ===== *)
theory Url
  imports Store
begin

text \<open>
  \<open>src/lib/utils/url.ts\<close>: the slug generator \<open>generateUniqueSlug\<close> with its random
  source \<open>generateSlugAlphabet\<close>, and the validator \<open>isValidUrl\<close>.
  Two library calls are parameters of the model. \<open>new URL\<close> is a function from a
  string to an optional parsed URL (\<open>None\<close>: it throws). The random bytes behind
  nanoid are an entropy tape \<open>nat \<Rightarrow> nat\<close> read at a position that every draw
  advances, so a run of the generator is a function of the tape and the store.
\<close>

section \<open>\<open>isValidUrl\<close>\<close>

record parsed_url =
  protocol :: string
  href :: string

type_synonym url_parser = "string \<Rightarrow> parsed_url option"

definition isValidUrl :: "url_parser \<Rightarrow> jsval \<Rightarrow> bool" where
  "isValidUrl parse u =
     (case parse (js_to_string u) of
        None \<Rightarrow> False
      | Some parsed \<Rightarrow> List.member [''http:'', ''https:''] (protocol parsed))"

lemma isValidUrl_iff:
  "isValidUrl parse u \<longleftrightarrow>
     (\<exists>p. parse (js_to_string u) = Some p \<and> (protocol p = ''http:'' \<or> protocol p = ''https:''))"
  by (auto simp: isValidUrl_def split: option.splits)

lemma isValidUrl_parses: "isValidUrl parse u \<Longrightarrow> parse (js_to_string u) \<noteq> None"
  by (auto simp: isValidUrl_iff)

section \<open>The random slug source\<close>

definition slug_alphabet :: string where
  "slug_alphabet = ''0123456789ABCDEFGHIJKLMNOPQRSTUVWXYZabcdefghijklmnopqrstuvwxyz''"

type_synonym entropy = "nat \<Rightarrow> nat"

text \<open>
  \<open>customAlphabet(alphabet, 6)\<close> applied to a size: that many characters of the
  alphabet, each chosen by the next value of the tape. The model is nanoid's
  contract for a positive size (the requested length, the given alphabet); how
  nanoid maps bytes to indices is not part of it.
\<close>

definition generateSlugAlphabet :: "entropy \<Rightarrow> nat \<Rightarrow> nat \<Rightarrow> string" where
  "generateSlugAlphabet ent pos n =
     map (\<lambda>k. slug_alphabet ! (ent (pos + k) mod length slug_alphabet)) [0 ..< n]"

lemma length_slug_alphabet [simp]: "length slug_alphabet = 62"
  by (simp add: slug_alphabet_def)

lemma distinct_slug_alphabet: "distinct slug_alphabet"
  by (simp add: slug_alphabet_def)

lemma length_generateSlugAlphabet [simp]: "length (generateSlugAlphabet ent pos n) = n"
  by (simp add: generateSlugAlphabet_def)

lemma set_generateSlugAlphabet: "set (generateSlugAlphabet ent pos n) \<subseteq> set slug_alphabet"
  by (auto simp: generateSlugAlphabet_def intro!: nth_mem)

section \<open>\<open>generateUniqueSlug\<close>\<close>

text \<open>
  The \<open>for\<close> loop from its index \<open>i\<close>: draw a candidate of length
  \<open>length + floor(i / 2)\<close>, look it up, return it when no row has it, go on
  otherwise; after \<open>retries\<close> rounds, throw. A failing lookup throws out of the
  loop. The result comes with the position the tape has reached.
\<close>

function generateUniqueSlug_from ::
  "entropy \<Rightarrow> store \<Rightarrow> nat \<Rightarrow> nat \<Rightarrow> nat \<Rightarrow> nat \<Rightarrow> string result \<times> nat" where
  "generateUniqueSlug_from ent st len retries i pos =
     (if i < retries then
        (case findUnique st (JStr (generateSlugAlphabet ent pos (len + i div 2))) of
           Inl e \<Rightarrow> (Inl e, pos + (len + i div 2))
         | Inr (Some existing) \<Rightarrow>
             generateUniqueSlug_from ent st len retries (Suc i) (pos + (len + i div 2))
         | Inr None \<Rightarrow>
             (Inr (generateSlugAlphabet ent pos (len + i div 2)), pos + (len + i div 2)))
      else (Inl GenerationExhausted, pos))"
  by pat_completeness auto
termination
  by (relation "measure (\<lambda>(ent, st, len, retries, i, pos). retries - i)") auto

declare generateUniqueSlug_from.simps [simp del]

text \<open>The exported function, with its default arguments \<open>length = 6\<close> and \<open>retries = 5\<close>.\<close>

definition generateUniqueSlug ::
  "entropy \<Rightarrow> store \<Rightarrow> nat option \<Rightarrow> nat option \<Rightarrow> nat \<Rightarrow> string result \<times> nat" where
  "generateUniqueSlug ent st len retries pos =
     generateUniqueSlug_from ent st (case len of None \<Rightarrow> 6 | Some n \<Rightarrow> n)
       (case retries of None \<Rightarrow> 5 | Some n \<Rightarrow> n) 0 pos"

section \<open>The candidates of a run, as a list\<close>

text \<open>
  The reference the loop is compared with: the candidates of rounds \<open>i\<close>,
  \<open>i + 1\<close>, ... in the order the loop draws them, \<open>n\<close> of them.
\<close>

fun candidates_from :: "entropy \<Rightarrow> nat \<Rightarrow> nat \<Rightarrow> nat \<Rightarrow> nat \<Rightarrow> string list" where
  "candidates_from ent len 0 i pos = []"
| "candidates_from ent len (Suc n) i pos =
     generateSlugAlphabet ent pos (len + i div 2)
       # candidates_from ent len n (Suc i) (pos + (len + i div 2))"

definition slug_free :: "store \<Rightarrow> string \<Rightarrow> bool" where
  "slug_free st s = (link_by_slug st s = None)"

lemma slug_free_iff: "slug_free st s \<longleftrightarrow> s \<notin> slugs st"
  by (simp add: slug_free_def link_by_slug_None)

lemma length_candidates_from [simp]: "length (candidates_from ent len n i pos) = n"
  by (induction n arbitrary: i pos) simp_all

lemma candidates_from_lengths:
  "map length (candidates_from ent len n i pos) = map (\<lambda>j. len + j div 2) [i ..< i + n]"
proof (induction n arbitrary: i pos)
  case 0
  show ?case by simp
next
  case (Suc n)
  have "[i ..< i + Suc n] = i # [Suc i ..< Suc i + n]"
    by (simp add: upt_conv_Cons)
  with Suc [of "Suc i"] show ?case by simp
qed

lemma candidates_from_alphabet:
  "s \<in> set (candidates_from ent len n i pos) \<Longrightarrow> set s \<subseteq> set slug_alphabet"
  by (induction n arbitrary: i pos) (auto dest: set_generateSlugAlphabet [THEN subsetD])

lemma candidates_from_length_bounds:
  assumes "s \<in> set (candidates_from ent len n i pos)"
  shows "len + i div 2 \<le> length s \<and> length s \<le> len + (i + n - 1) div 2"
proof -
  from assms have "length s \<in> set (map length (candidates_from ent len n i pos))"
    by simp
  then obtain j where "i \<le> j" "j < i + n" "length s = len + j div 2"
    by (auto simp: candidates_from_lengths)
  then show ?thesis
    by (auto intro: div_le_mono)
qed

section \<open>The loop against the reference\<close>

lemma generateUniqueSlug_from_unfold:
  "db_up st \<Longrightarrow> i < retries \<Longrightarrow>
     generateUniqueSlug_from ent st len retries i pos =
       (if slug_free st (generateSlugAlphabet ent pos (len + i div 2))
        then (Inr (generateSlugAlphabet ent pos (len + i div 2)), pos + (len + i div 2))
        else generateUniqueSlug_from ent st len retries (Suc i) (pos + (len + i div 2)))"
  by (subst generateUniqueSlug_from.simps)
    (auto simp: findUnique_string slug_free_def split: option.splits)

lemma generateUniqueSlug_from_done:
  "\<not> i < retries \<Longrightarrow> generateUniqueSlug_from ent st len retries i pos = (Inl GenerationExhausted, pos)"
  by (subst generateUniqueSlug_from.simps) simp

lemma generateUniqueSlug_from_down:
  "\<not> db_up st \<Longrightarrow> i < retries \<Longrightarrow>
     generateUniqueSlug_from ent st len retries i pos = (Inl StoreUnavailable, pos + (len + i div 2))"
  by (subst generateUniqueSlug_from.simps) (simp add: findUnique_string)

lemma generateUniqueSlug_from_first_free:
  assumes "db_up st"
  shows "fst (generateUniqueSlug_from ent st len retries i pos) =
     (case find (slug_free st) (candidates_from ent len (retries - i) i pos) of
        Some s \<Rightarrow> Inr s | None \<Rightarrow> Inl GenerationExhausted)"
  using assms
proof (induction ent st len retries i pos rule: generateUniqueSlug_from.induct)
  case (1 ent st len retries i pos)
  note up = \<open>db_up st\<close>
  show ?case
  proof (cases "i < retries")
    case False
    then show ?thesis by (simp add: generateUniqueSlug_from_done)
  next
    case True
    then have n: "retries - i = Suc (retries - Suc i)" by simp
    show ?thesis
    proof (cases "slug_free st (generateSlugAlphabet ent pos (len + i div 2))")
      case free: True
      with True up show ?thesis
        by (simp add: generateUniqueSlug_from_unfold n)
    next
      case taken: False
      then obtain l where
        "findUnique st (JStr (generateSlugAlphabet ent pos (len + i div 2))) = Inr (Some l)"
        using up by (auto simp: findUnique_string slug_free_def)
      from "1.IH" [OF True this refl up] True taken up show ?thesis
        by (simp add: generateUniqueSlug_from_unfold n)
    qed
  qed
qed

lemma generateUniqueSlug_from_Inr:
  assumes "fst (generateUniqueSlug_from ent st len retries i pos) = Inr s"
  shows "db_up st \<and> slug_free st s \<and> s \<in> set (candidates_from ent len (retries - i) i pos)"
proof -
  have up: "db_up st"
  proof (rule ccontr)
    assume "\<not> db_up st"
    with assms show False
      by (cases "i < retries")
        (simp_all add: generateUniqueSlug_from_down generateUniqueSlug_from_done)
  qed
  with assms have "find (slug_free st) (candidates_from ent len (retries - i) i pos) = Some s"
    by (simp add: generateUniqueSlug_from_first_free split: option.splits)
  with up show ?thesis by (auto dest: find_Some_set)
qed

lemma generateUniqueSlug_from_pos:
  "pos \<le> snd (generateUniqueSlug_from ent st len retries i pos)"
proof (induction ent st len retries i pos rule: generateUniqueSlug_from.induct)
  case (1 ent st len retries i pos)
  show ?case
    using "1.IH"
    by (subst generateUniqueSlug_from.simps) (fastforce split: sum.splits option.splits)
qed

lemma generateUniqueSlug_Inr:
  assumes "fst (generateUniqueSlug ent st len retries pos) = Inr s"
  shows "db_up st \<and> slug_free st s
    \<and> s \<in> set (candidates_from ent (case len of None \<Rightarrow> 6 | Some n \<Rightarrow> n)
                  (case retries of None \<Rightarrow> 5 | Some n \<Rightarrow> n) 0 pos)"
  using generateUniqueSlug_from_Inr [of ent st _ _ 0 pos s] assms
  by (simp add: generateUniqueSlug_def)

lemma generateUniqueSlug_Inl:
  assumes "fst (generateUniqueSlug ent st len retries pos) = Inl e"
  shows "e = (if db_up st then GenerationExhausted else StoreUnavailable)
    \<or> (e = GenerationExhausted \<and> retries = Some 0)"
proof (cases "db_up st")
  case True
  with assms show ?thesis
    by (simp add: generateUniqueSlug_def generateUniqueSlug_from_first_free split: option.splits)
next
  case False
  with assms show ?thesis
    by (cases "0 < (case retries of None \<Rightarrow> 5 | Some n \<Rightarrow> n)")
      (auto simp: generateUniqueSlug_def generateUniqueSlug_from_down
        generateUniqueSlug_from_done split: option.splits)
qed

section \<open>The loop ends\<close>

text \<open>
  The number of rounds the loop makes from index \<open>i\<close>, which is the number of
  lookups it sends to the store: one per round, until a lookup fails, a
  candidate is free or the index reaches \<open>retries\<close>.
\<close>

function lookups_from :: "entropy \<Rightarrow> store \<Rightarrow> nat \<Rightarrow> nat \<Rightarrow> nat \<Rightarrow> nat \<Rightarrow> nat" where
  "lookups_from ent st len retries i pos =
     (if i < retries then
        (case findUnique st (JStr (generateSlugAlphabet ent pos (len + i div 2))) of
           Inl e \<Rightarrow> 1
         | Inr (Some existing) \<Rightarrow>
             Suc (lookups_from ent st len retries (Suc i) (pos + (len + i div 2)))
         | Inr None \<Rightarrow> 1)
      else 0)"
  by pat_completeness auto
termination
  by (relation "measure (\<lambda>(ent, st, len, retries, i, pos). retries - i)") auto

declare lookups_from.simps [simp del]

definition lookups :: "entropy \<Rightarrow> store \<Rightarrow> nat option \<Rightarrow> nat option \<Rightarrow> nat \<Rightarrow> nat" where
  "lookups ent st len retries pos =
     lookups_from ent st (case len of None \<Rightarrow> 6 | Some n \<Rightarrow> n)
       (case retries of None \<Rightarrow> 5 | Some n \<Rightarrow> n) 0 pos"

lemma lookups_from_le: "lookups_from ent st len retries i pos \<le> retries - i"
proof (induction ent st len retries i pos rule: lookups_from.induct)
  case (1 ent st len retries i pos)
  show ?case
    using "1.IH"
    by (subst lookups_from.simps) (fastforce split: sum.splits option.splits)
qed

lemma lookups_from_tape:
  "snd (generateUniqueSlug_from ent st len retries i pos) =
     pos + sum_list (map length
       (take (lookups_from ent st len retries i pos) (candidates_from ent len (retries - i) i pos)))"
proof (induction ent st len retries i pos rule: generateUniqueSlug_from.induct)
  case (1 ent st len retries i pos)
  show ?case
  proof (cases "i < retries")
    case False
    then show ?thesis
      by (simp add: generateUniqueSlug_from_done lookups_from.simps [of _ _ _ retries i])
  next
    case True
    then have n: "retries - i = Suc (retries - Suc i)" by simp
    from True "1.IH" show ?thesis
      by (subst generateUniqueSlug_from.simps, subst lookups_from.simps)
        (simp add: n split: sum.splits option.splits)
  qed
qed

lemma lookups_from_pos:
  "0 < lookups_from ent st len retries i pos \<longleftrightarrow> i < retries"
  by (subst lookups_from.simps) (simp split: sum.splits option.splits)

lemma lookups_from_first_free:
  assumes "db_up st"
  shows "lookups_from ent st len retries i pos =
     min (retries - i)
       (Suc (length (takeWhile (\<lambda>s. \<not> slug_free st s)
          (candidates_from ent len (retries - i) i pos))))"
  using assms
proof (induction ent st len retries i pos rule: lookups_from.induct)
  case (1 ent st len retries i pos)
  show ?case
  proof (cases "i < retries")
    case False
    then show ?thesis by (simp add: lookups_from.simps [of _ _ _ retries i])
  next
    case True
    then have n: "retries - i = Suc (retries - Suc i)" by simp
    from True "1.IH" "1.prems" show ?thesis
      by (subst lookups_from.simps)
        (auto simp: n findUnique_string slug_free_def split: option.splits)
  qed
qed


section \<open>Concrete inputs\<close>

text \<open>
  A tape of zeros draws \<open>000000\<close>, \<open>000000\<close>, \<open>0000000\<close>, ...; the store holds one
  link, whose slug is the first candidate.
\<close>

definition zero_tape :: entropy where
  "zero_tape k = 0"

definition one_link_store :: store where
  "one_link_store =
     \<lparr>links = [\<lparr>link_id = 0, slug = ''000000'', originalUrl = ''https://example.com'',
                 totalClicks = 0, createdAt = 0\<rparr>],
      clicks = [], next_id = 1, db_up = True\<rparr>"

lemma generateSlugAlphabet_zero_tape [simp]:
  "generateSlugAlphabet zero_tape pos n = replicate n CHR ''0''"
  by (simp add: generateSlugAlphabet_def zero_tape_def slug_alphabet_def map_replicate_const)

lemma store_inv_one_link_store: "store_inv one_link_store"
  by (simp add: store_inv_defs one_link_store_def click_count_def link_by_id_def)

lemma generateUniqueSlug_one_link_store:
  "generateUniqueSlug zero_tape one_link_store None None 0 = (Inr ''0000000'', 19)"
  by (simp add: generateUniqueSlug_def generateUniqueSlug_from_unfold slug_free_def
      link_by_slug_def one_link_store_def eval_nat_numeral)

lemmas one_link_store_simps =
  one_link_store_def slug_free_def link_by_slug_def slugs_def eval_nat_numeral

lemma lookups_one_link_store: "lookups zero_tape one_link_store None None 0 = 3"
  by (simp add: lookups_def lookups_from_first_free one_link_store_simps)

section \<open>Properties of the generator\<close>

text \<open>
  C1. While the store answers, \<open>generateUniqueSlug\<close> returns the first
  candidate of its run that no link has, and throws \<open>GenerationExhausted\<close>
  exactly when each of the \<open>retries\<close> candidates is taken.
\<close>

theorem generateUniqueSlug_first_free:
  assumes "db_up st"
  shows "fst (generateUniqueSlug ent st len retries pos) =
     (case find (slug_free st)
        (candidates_from ent (case len of None \<Rightarrow> 6 | Some n \<Rightarrow> n)
           (case retries of None \<Rightarrow> 5 | Some n \<Rightarrow> n) 0 pos) of
        Some s \<Rightarrow> Inr s | None \<Rightarrow> Inl GenerationExhausted)"
  using generateUniqueSlug_from_first_free [OF assms, of ent _ _ 0 pos]
  by (simp add: generateUniqueSlug_def)

theorem generateUniqueSlug_first_free_witness:
  "db_up one_link_store
   \<and> fst (generateUniqueSlug zero_tape one_link_store None None 0) = Inr ''0000000''"
  using generateUniqueSlug_first_free [of one_link_store zero_tape None None 0]
  by (simp add: one_link_store_simps)

text \<open>
  A slug that \<open>generateUniqueSlug\<close> returns was looked up while the store
  answered and is the slug of no link of that store.
\<close>

theorem generateUniqueSlug_fresh:
  assumes "fst (generateUniqueSlug ent st len retries pos) = Inr s"
  shows "db_up st \<and> s \<notin> slugs st"
  using generateUniqueSlug_Inr [OF assms] by (simp add: slug_free_iff)

theorem generateUniqueSlug_fresh_witness:
  "fst (generateUniqueSlug zero_tape one_link_store None None 0) = Inr ''0000000''
   \<and> db_up one_link_store \<and> ''0000000'' \<notin> slugs one_link_store"
  using generateUniqueSlug_fresh [of zero_tape one_link_store None None 0 "''0000000''"]
  by (simp add: generateUniqueSlug_one_link_store)

text \<open>
  C35. A returned slug is made of the 62 alphanumeric characters, is at least
  as long as the requested length and at most \<open>(retries - 1) div 2\<close> longer;
  with the default arguments its length is 6, 7 or 8.
\<close>

theorem generateUniqueSlug_shape:
  assumes "fst (generateUniqueSlug ent st len retries pos) = Inr s"
  shows "set s \<subseteq> set slug_alphabet
    \<and> (case len of None \<Rightarrow> 6 | Some n \<Rightarrow> n) \<le> length s
    \<and> length s \<le> (case len of None \<Rightarrow> 6 | Some n \<Rightarrow> n)
         + ((case retries of None \<Rightarrow> 5 | Some n \<Rightarrow> n) - 1) div 2"
  using generateUniqueSlug_Inr [OF assms]
    candidates_from_length_bounds [of s ent _ _ 0 pos]
  by (auto dest: candidates_from_alphabet)

theorem generateUniqueSlug_shape_witness:
  "fst (generateUniqueSlug zero_tape one_link_store None None 0) = Inr ''0000000''
   \<and> set ''0000000'' \<subseteq> set slug_alphabet \<and> (6::nat) \<le> length ''0000000''
   \<and> length ''0000000'' \<le> (8::nat)"
  using generateUniqueSlug_shape [of zero_tape one_link_store None None 0 "''0000000''"]
  by (simp add: generateUniqueSlug_one_link_store)

text \<open>
  C24. \<open>generateUniqueSlug\<close> throws nothing but \<open>GenerationExhausted\<close> while the
  store answers, and the store's own failure when it does not; with no retries
  at all it throws \<open>GenerationExhausted\<close> without asking the store.
\<close>

theorem generateUniqueSlug_errors:
  assumes "fst (generateUniqueSlug ent st len retries pos) = Inl e"
  shows "(db_up st \<longrightarrow> e = GenerationExhausted)
    \<and> (\<not> db_up st \<longrightarrow> e = StoreUnavailable \<or> (e = GenerationExhausted \<and> retries = Some 0))"
  using generateUniqueSlug_Inl [OF assms] by (auto split: if_splits)

theorem generateUniqueSlug_errors_witness:
  "fst (generateUniqueSlug zero_tape (one_link_store\<lparr>db_up := False\<rparr>) None None 0)
     = Inl StoreUnavailable
   \<and> \<not> db_up (one_link_store\<lparr>db_up := False\<rparr>)"
  using generateUniqueSlug_errors
    [of zero_tape "one_link_store\<lparr>db_up := False\<rparr>" None None 0 StoreUnavailable]
  by (simp add: generateUniqueSlug_def generateUniqueSlug_from_down)

text \<open>
  The length policy of the retry loop: round \<open>j\<close> draws a candidate of
  length \<open>length + j div 2\<close>, so the candidates of a run never get shorter and
  gain one character every two rounds.
\<close>

theorem candidate_lengths_policy:
  "map length (candidates_from ent len n i pos) = map (\<lambda>j. len + j div 2) [i ..< i + n]
   \<and> sorted (map length (candidates_from ent len n i pos))"
proof -
  have "sorted (map (\<lambda>j. len + j div 2) [i ..< i + n])"
    by (rule sorted_map_mono) (auto simp: mono_on_def intro: div_le_mono)
  then show ?thesis by (simp add: candidates_from_lengths)
qed

text \<open>
  C21. The loop of \<open>generateUniqueSlug\<close> ends: it sends at most \<open>retries\<close>
  lookups to the store, five with the default, and when it returns or throws
  the tape has advanced by the lengths of the candidates it drew, one per
  lookup.
\<close>

theorem generateUniqueSlug_terminates:
  "lookups ent st len retries pos \<le> (case retries of None \<Rightarrow> 5 | Some n \<Rightarrow> n)
   \<and> snd (generateUniqueSlug ent st len retries pos) =
       pos + sum_list (map length
         (take (lookups ent st len retries pos)
            (candidates_from ent (case len of None \<Rightarrow> 6 | Some n \<Rightarrow> n)
               (case retries of None \<Rightarrow> 5 | Some n \<Rightarrow> n) 0 pos)))"
  using lookups_from_le [of ent st _ _ 0 pos] lookups_from_tape [of ent st _ _ 0 pos]
  by (simp add: lookups_def generateUniqueSlug_def)

section \<open>A parser for the examples\<close>

text \<open>
  The examples need some \<open>url_parser\<close>. This one knows schemes only: a string
  parses when a non-empty scheme precedes its first colon and something
  follows it; the protocol is the scheme in lower case with the colon.
\<close>

definition scheme_parser :: url_parser where
  "scheme_parser s =
     (let scheme = takeWhile (\<lambda>c. c \<noteq> CHR '':'') s;
          rest = dropWhile (\<lambda>c. c \<noteq> CHR '':'') s
      in if scheme \<noteq> [] \<and> 1 < length rest
         then Some \<lparr>protocol = toLowerCase scheme @ '':'', href = s\<rparr>
         else None)"

lemma scheme_parser_examples:
  "isValidUrl scheme_parser (JStr ''https://example.com'')"
  "\<not> isValidUrl scheme_parser (JStr ''ftp://example.com'')"
  "\<not> isValidUrl scheme_parser (JStr ''example.com'')"
  "isValidUrl scheme_parser (JArr [JStr ''https://example.com''])"
  "\<not> isValidUrl scheme_parser (JNum 5)"
  by (simp_all add: isValidUrl_def scheme_parser_def lower_char_def show_int_def show_nat.simps)

end
