(* ===== verification/Cache.thy ===== *)
theory Cache
  imports Prelude
begin

text \<open>
  \<open>src/lib/redis.ts\<close>: whether a Redis client exists at all, decided once from
  the process environment and kept in a global outside production; and the
  cache the client talks to. The Upstash client is a library, so the two calls
  the redirect handler makes (\<open>get\<close>, \<open>set\<close> with an expiry) are written from the
  specification's cache contract: a key-value store with a time to live per
  key, best effort, any call of which may fail.
\<close>

section \<open>The module \<open>redis.ts\<close>\<close>

type_synonym process_env = "string \<Rightarrow> string option"

record redis_handle =
  rest_url :: string
  rest_token :: string

definition requiredEnvs :: "string list" where
  "requiredEnvs = [''UPSTASH_REDIS_REST_URL'', ''UPSTASH_REDIS_REST_TOKEN'']"

text \<open>
  \<open>Boolean(process.env[env]) && !process.env[env]?.includes('upstash-redis-')\<close>
  for every required name: set, not empty, and not the placeholder of the
  sample configuration.
\<close>

definition env_usable :: "process_env \<Rightarrow> string \<Rightarrow> bool" where
  "env_usable penv name =
     (case penv name of
        None \<Rightarrow> False
      | Some v \<Rightarrow> v \<noteq> [] \<and> \<not> str_includes v ''upstash-redis-'')"

definition hasRedisEnvs :: "process_env \<Rightarrow> bool" where
  "hasRedisEnvs penv = list_all (env_usable penv) requiredEnvs"

text \<open>
  The module body: \<open>globalForRedis.redis || (hasRedisEnvs ? new Redis(...) : null)\<close>,
  then the write back to the global unless \<open>NODE_ENV\<close> is \<open>production\<close>. The
  result is the exported client and the global after the module has run.
\<close>

definition redis_module ::
  "redis_handle option \<Rightarrow> process_env \<Rightarrow> redis_handle option \<times> redis_handle option" where
  "redis_module global penv =
     (let redis =
        (case global of
           Some r \<Rightarrow> Some r
         | None \<Rightarrow>
             if hasRedisEnvs penv
             then Some \<lparr>rest_url = the (penv ''UPSTASH_REDIS_REST_URL''),
                        rest_token = the (penv ''UPSTASH_REDIS_REST_TOKEN'')\<rparr>
             else None)
      in (redis, if penv ''NODE_ENV'' \<noteq> Some ''production'' then redis else global))"

lemma hasRedisEnvs_iff:
  "hasRedisEnvs penv \<longleftrightarrow>
     env_usable penv ''UPSTASH_REDIS_REST_URL'' \<and> env_usable penv ''UPSTASH_REDIS_REST_TOKEN''"
  by (simp add: hasRedisEnvs_def requiredEnvs_def)

lemma env_usable_Some: "env_usable penv name \<Longrightarrow> \<exists>v. penv name = Some v \<and> v \<noteq> []"
  by (auto simp: env_usable_def split: option.splits)

section \<open>The cache\<close>

text \<open>
  Entries are kept newest first, each with the time at which it expires; a
  read takes the newest entry of its key and ignores it once expired.
\<close>

record cache =
  entries :: "(string \<times> string \<times> nat) list"
  cache_up :: bool

definition empty_cache :: cache where
  "empty_cache = \<lparr>entries = [], cache_up = True\<rparr>"

definition cache_lookup :: "cache \<Rightarrow> nat \<Rightarrow> string \<Rightarrow> string option" where
  "cache_lookup c now k =
     (case map_of (entries c) k of
        None \<Rightarrow> None
      | Some (v, expires) \<Rightarrow> if now < expires then Some v else None)"

text \<open>\<open>redis.get<string>(key)\<close>\<close>

definition redis_get :: "cache \<Rightarrow> nat \<Rightarrow> string \<Rightarrow> string option result" where
  "redis_get c now k = (if cache_up c then Inr (cache_lookup c now k) else Inl CacheUnavailable)"

text \<open>\<open>redis.set(key, value, { ex: seconds })\<close>\<close>

definition redis_set :: "cache \<Rightarrow> nat \<Rightarrow> string \<Rightarrow> string \<Rightarrow> nat \<Rightarrow> cache result" where
  "redis_set c now k v ex =
     (if cache_up c then Inr (c\<lparr>entries := (k, v, now + ex) # entries c\<rparr>)
      else Inl CacheUnavailable)"

lemmas cache_defs [okg_defs] = redis_get_def redis_set_def cache_lookup_def

lemma cache_lookup_set:
  "redis_set c now k v ex = Inr c' \<Longrightarrow>
     cache_lookup c' t k' =
       (if k' = k then (if t < now + ex then Some v else None) else cache_lookup c t k')"
  by (auto simp: redis_set_def cache_lookup_def split: if_splits)

lemma redis_get_after_set:
  "redis_set c now k v ex = Inr c' \<Longrightarrow> t < now + ex \<Longrightarrow> redis_get c' t k = Inr (Some v)"
  by (auto simp: redis_get_def cache_lookup_set) (auto simp: redis_set_def split: if_splits)

lemma redis_set_up: "redis_set c now k v ex = Inr c' \<Longrightarrow> cache_up c \<and> cache_up c'"
  by (auto simp: redis_set_def split: if_splits)

lemma redis_down [simp]:
  "\<not> cache_up c \<Longrightarrow> redis_get c now k = Inl CacheUnavailable"
  "\<not> cache_up c \<Longrightarrow> redis_set c now k v ex = Inl CacheUnavailable"
  by (simp_all add: redis_get_def redis_set_def)

lemma cache_lookup_expired:
  "cache_lookup c now k = Some v \<Longrightarrow> \<exists>expires. (k, v, expires) \<in> set (entries c) \<and> now < expires"
  by (fastforce simp: cache_lookup_def split: option.splits if_splits dest: map_of_SomeD)

lemma cache_lookup_cache_up [simp]: "cache_lookup (c\<lparr>cache_up := b\<rparr>) = cache_lookup c"
  by (simp add: cache_lookup_def fun_eq_iff)

section \<open>Properties of the module\<close>

text \<open>
  Outside production the module is a singleton: loading it again with the
  global it left behind exports the same client and leaves the global as it
  is, whatever the environment has become.
\<close>

theorem redis_module_singleton:
  assumes "penv ''NODE_ENV'' \<noteq> Some ''production''"
    and "redis_module global penv = (r, g)" and "r \<noteq> None"
  shows "redis_module g penv' = (r, g)"
  using assms by (auto simp: redis_module_def Let_def split: option.splits if_splits)

definition sample_env :: process_env where
  "sample_env =
     [''UPSTASH_REDIS_REST_URL'' \<mapsto> ''https://eu1-fast-cat-1.upstash.io'',
      ''UPSTASH_REDIS_REST_TOKEN'' \<mapsto> ''AXyz'']"

definition placeholder_env :: process_env where
  "placeholder_env =
     [''UPSTASH_REDIS_REST_URL'' \<mapsto> ''https://upstash-redis-url'',
      ''UPSTASH_REDIS_REST_TOKEN'' \<mapsto> ''AXyz'']"

lemma redis_module_sample_env:
  "redis_module None sample_env =
     (Some \<lparr>rest_url = ''https://eu1-fast-cat-1.upstash.io'', rest_token = ''AXyz''\<rparr>,
      Some \<lparr>rest_url = ''https://eu1-fast-cat-1.upstash.io'', rest_token = ''AXyz''\<rparr>)"
  by (simp add: redis_module_def Let_def sample_env_def hasRedisEnvs_iff env_usable_def)

lemma redis_module_placeholder_env: "redis_module None placeholder_env = (None, None)"
  by (simp add: redis_module_def Let_def placeholder_env_def hasRedisEnvs_iff env_usable_def)

text \<open>
  C40. What \<open>redis.ts\<close> exports, for every global and every environment: the
  client the global holds when it holds one; otherwise a client built from
  the values of \<open>UPSTASH_REDIS_REST_URL\<close> and \<open>UPSTASH_REDIS_REST_TOKEN\<close>, in
  that order, when both are set, both are non-empty and neither contains the
  placeholder \<open>upstash-redis-\<close> of the sample configuration; and \<open>null\<close> in
  every other case, so that the handlers run on the store alone.
\<close>

theorem redis_module_exports:
  "fst (redis_module global penv) =
     (case global of
        Some r \<Rightarrow> Some r
      | None \<Rightarrow>
          (case (penv ''UPSTASH_REDIS_REST_URL'', penv ''UPSTASH_REDIS_REST_TOKEN'') of
             (Some u, Some t) \<Rightarrow>
               if u \<noteq> [] \<and> t \<noteq> []
                  \<and> \<not> str_includes u ''upstash-redis-'' \<and> \<not> str_includes t ''upstash-redis-''
               then Some \<lparr>rest_url = u, rest_token = t\<rparr>
               else None
           | _ \<Rightarrow> None))"
  by (auto simp: redis_module_def Let_def hasRedisEnvs_iff env_usable_def split: option.splits)

text \<open>
  The sample configuration, a real one, one without a token and one with an
  empty address.
\<close>

theorem redis_module_exports_witness:
  "fst (redis_module None placeholder_env) = None
   \<and> fst (redis_module None sample_env)
       = Some \<lparr>rest_url = ''https://eu1-fast-cat-1.upstash.io'', rest_token = ''AXyz''\<rparr>
   \<and> fst (redis_module None (sample_env(''UPSTASH_REDIS_REST_TOKEN'' := None))) = None
   \<and> fst (redis_module None (sample_env(''UPSTASH_REDIS_REST_URL'' \<mapsto> ''''))) = None"
  using redis_module_exports [of None placeholder_env] redis_module_exports [of None sample_env]
    redis_module_exports [of None "sample_env(''UPSTASH_REDIS_REST_TOKEN'' := None)"]
    redis_module_exports [of None "sample_env(''UPSTASH_REDIS_REST_URL'' \<mapsto> '''')"]
  by (simp add: placeholder_env_def sample_env_def)

theorem redis_module_singleton_witness:
  "sample_env ''NODE_ENV'' \<noteq> Some ''production''
   \<and> redis_module (snd (redis_module None sample_env)) Map.empty = redis_module None sample_env
   \<and> fst (redis_module None sample_env) \<noteq> None"
  using redis_module_singleton [of sample_env None _ _ Map.empty]
  by (simp add: redis_module_sample_env) (simp add: sample_env_def)

end
