(* ===== verification/Http.thy ===== *)
theory Http
  imports Url Cache
begin

text \<open>
  What the two route handlers share: the configuration a deployment fixes
  (environment variables and the library functions the model takes as
  parameters), the responses a handler can build, and the three ways a block of
  handler code can end.
\<close>

section \<open>Configuration\<close>

record config =
  parse_url :: url_parser              \<comment> \<open>\<open>new URL(s)\<close>\<close>
  tape :: entropy                      \<comment> \<open>the random values behind nanoid\<close>
  sha256_hex :: "string \<Rightarrow> string"     \<comment> \<open>\<open>createHash('sha256').update(s).digest('hex')\<close>\<close>
  base_url_env :: "string option"      \<comment> \<open>\<open>process.env.NEXT_PUBLIC_BASE_URL\<close>\<close>
  redis :: "redis_handle option"       \<comment> \<open>the export of \<open>redis.ts\<close>\<close>

section \<open>Responses\<close>

datatype json_body =
    ErrorBody string                   \<comment> \<open>\<open>{ error }\<close>\<close>
  | SuccessBody string string string   \<comment> \<open>\<open>{ success: true, data: { shortUrl, slug, originalUrl } }\<close>\<close>

datatype response =
    Json nat json_body                 \<comment> \<open>\<open>NextResponse.json(body, { status })\<close>\<close>
  | Redirect string "nat option"       \<comment> \<open>\<open>NextResponse.redirect(url, status?)\<close>\<close>
  | PlainText nat string               \<comment> \<open>\<open>new NextResponse(text, { status })\<close>\<close>

fun status_of :: "response \<Rightarrow> nat" where
  "status_of (Json code body) = code"
| "status_of (Redirect target code) = (case code of None \<Rightarrow> 307 | Some c \<Rightarrow> c)"
| "status_of (PlainText code body) = code"

text \<open>
  \<open>NextResponse.redirect\<close> parses its target and throws on a string that is no
  absolute URL; the status, when none is given, is the library's default 307.
\<close>

definition next_redirect :: "url_parser \<Rightarrow> string \<Rightarrow> nat option \<Rightarrow> response result" where
  "next_redirect parse target code =
     (case parse target of None \<Rightarrow> Inl MalformedUrl | Some u \<Rightarrow> Inr (Redirect target code))"

lemma next_redirect_ok:
  "parse target \<noteq> None \<Longrightarrow> next_redirect parse target code = Inr (Redirect target code)"
  by (auto simp: next_redirect_def)

lemma next_redirect_Inr:
  "next_redirect parse target code = Inr r \<Longrightarrow> r = Redirect target code \<and> parse target \<noteq> None"
  by (auto simp: next_redirect_def split: option.splits)

section \<open>How a block of a handler ends\<close>

datatype 'a step =
    Return response    \<comment> \<open>a \<open>return\<close> of the handler\<close>
  | Throw exn          \<comment> \<open>an exception on its way to the enclosing \<open>catch\<close>\<close>
  | Continue 'a        \<comment> \<open>falls through to the next block with these values\<close>

section \<open>A configuration for the examples\<close>

definition demo_config :: config where
  "demo_config =
     \<lparr>parse_url = scheme_parser, tape = zero_tape,
      sha256_hex = (\<lambda>s. ''sha256:'' @ s),
      base_url_env = Some ''https://okg.me'',
      redis = Some \<lparr>rest_url = ''https://eu1-fast-cat-1.upstash.io'', rest_token = ''AXyz''\<rparr>\<rparr>"

lemma demo_config_simps [simp]:
  "parse_url demo_config = scheme_parser"
  "tape demo_config = zero_tape"
  "sha256_hex demo_config = (\<lambda>s. ''sha256:'' @ s)"
  "base_url_env demo_config = Some ''https://okg.me''"
  "redis demo_config \<noteq> None"
  by (simp_all add: demo_config_def)

end
