(* ===== verification/Shorten.thy ===== *)
theory Shorten
  imports Http
begin

text \<open>
  \<open>src/app/api/shorten/route.ts\<close>: the handler \<open>POST\<close>, in the two blocks between
  which other requests can run. \<open>shorten_check\<close> is everything up to the choice
  of the slug (it reads the store and may draw from the tape);
  \<open>shorten_commit\<close> inserts the link and builds the answer; \<open>POST\<close> runs one after
  the other inside the handler's \<open>try\<close>, whose \<open>catch\<close> turns any exception into
  the 500 answer. The request is the outcome of \<open>req.json()\<close>.
\<close>

section \<open>The handler\<close>

definition internal_error :: response where
  "internal_error = Json 500 (ErrorBody ''Internal Server Error'')"

definition shorten_check ::
  "config \<Rightarrow> store \<Rightarrow> nat \<Rightarrow> jsval result \<Rightarrow> (jsval \<times> jsval) step \<times> nat" where
  "shorten_check cfg st pos req_json =
     (case req_json of
        Inl e \<Rightarrow> (Throw e, pos)
      | Inr body \<Rightarrow>
          if nullish body then (Throw TypeError, pos)
          else
            let url = get_prop body ''originalUrl'';
                customSlug = get_prop body ''customSlug''
            in
              if \<not> truthy url then
                (Return (Json 400 (ErrorBody ''Missing originalUrl'')), pos)
              else if \<not> isValidUrl (parse_url cfg) url then
                (Return (Json 400 (ErrorBody ''Invalid URL format'')), pos)
              else if truthy customSlug then
                (if js_lt (js_length customSlug) 3 \<or> js_gt (js_length customSlug) 30 then
                   (Return (Json 400
                      (ErrorBody ''Custom slug must be between 3 and 30 characters'')), pos)
                 else
                   (case findUnique st customSlug of
                      Inl e \<Rightarrow> (Throw e, pos)
                    | Inr (Some existing) \<Rightarrow>
                        (Return (Json 409 (ErrorBody ''Custom slug is already taken'')), pos)
                    | Inr None \<Rightarrow> (Continue (url, customSlug), pos)))
              else
                (case generateUniqueSlug (tape cfg) st (Some 6) (Some 5) pos of
                   (Inl err, pos') \<Rightarrow>
                     (Return (Json 500
                        (ErrorBody ''Failed to generate short link. Please try again.'')), pos')
                 | (Inr s, pos') \<Rightarrow> (Continue (url, JStr s), pos')))"

definition shorten_commit ::
  "config \<Rightarrow> store \<Rightarrow> nat \<Rightarrow> jsval \<times> jsval \<Rightarrow> unit step \<times> store" where
  "shorten_commit cfg st now d =
     (case link_create st now (fst d) (snd d) of
        Inl e \<Rightarrow> (Throw e, st)
      | Inr (l, st') \<Rightarrow>
          let baseUrl = or_else (base_url_env cfg) ''http://localhost:3000'';
              shortUrl = baseUrl @ ''/'' @ slug l
          in (Return (Json 201 (SuccessBody shortUrl (slug l) (originalUrl l))), st'))"

definition POST ::
  "config \<Rightarrow> nat \<Rightarrow> jsval result \<Rightarrow> store \<Rightarrow> nat \<Rightarrow> response \<times> store \<times> nat" where
  "POST cfg now req_json st pos =
     (case shorten_check cfg st pos req_json of
        (Throw e, pos') \<Rightarrow> (internal_error, st, pos')
      | (Return r, pos') \<Rightarrow> (r, st, pos')
      | (Continue d, pos') \<Rightarrow>
          (case shorten_commit cfg st now d of
             (Throw e, st') \<Rightarrow> (internal_error, st', pos')
           | (Return r, st') \<Rightarrow> (r, st', pos')
           | (Continue u, st') \<Rightarrow> (internal_error, st', pos')))"

definition short_url :: "config \<Rightarrow> string \<Rightarrow> string" where
  "short_url cfg s = or_else (base_url_env cfg) ''http://localhost:3000'' @ ''/'' @ s"

definition shorten_body :: "string \<Rightarrow> jsval \<Rightarrow> jsval result" where
  "shorten_body url custom = Inr (JObj [(''originalUrl'', JStr url), (''customSlug'', custom)])"

lemma get_prop_shorten_body [simp]:
  "get_prop (JObj [(''originalUrl'', u), (''customSlug'', c)]) ''originalUrl'' = u"
  "get_prop (JObj [(''originalUrl'', u), (''customSlug'', c)]) ''customSlug'' = c"
  by simp_all

section \<open>The check block\<close>

lemma shorten_check_Continue:
  assumes "shorten_check cfg st pos req = (Continue (u, v), pos')"
  shows "truthy u \<and> isValidUrl (parse_url cfg) u \<and> db_up st
    \<and> (\<exists>s. v = JStr s \<and> s \<notin> slugs st)"
proof -
  from assms obtain body where req: "req = Inr body" and nn: "\<not> nullish body"
    by (auto simp: shorten_check_def split: sum.splits if_splits)
  let ?c = "get_prop body ''customSlug''"
  from assms req nn have u: "u = get_prop body ''originalUrl''" "truthy u"
    "isValidUrl (parse_url cfg) u"
    by (auto simp: shorten_check_def Let_def split: sum.splits if_splits option.splits prod.splits)
  show ?thesis
  proof (cases "truthy ?c")
    case True
    with assms req nn have "findUnique st ?c = Inr None" "v = ?c"
      by (auto simp: shorten_check_def Let_def split: sum.splits if_splits option.splits)
    then show ?thesis
      using u by (auto dest!: findUnique_Inr simp: link_by_slug_None [symmetric])
  next
    case False
    with assms req nn obtain s where
      "fst (generateUniqueSlug (tape cfg) st (Some 6) (Some 5) pos) = Inr s" "v = JStr s"
      by (auto simp: shorten_check_def Let_def split: sum.splits if_splits prod.splits)
    then show ?thesis
      using u generateUniqueSlug_Inr [of "tape cfg" st "Some 6" "Some 5" pos s]
      by (simp add: slug_free_iff)
  qed
qed

lemma shorten_check_Continue_nonempty:
  assumes "shorten_check cfg st pos req = (Continue (u, JStr s), pos')"
  shows "s \<noteq> []"
proof -
  from assms obtain body where req: "req = Inr body" and nn: "\<not> nullish body"
    by (auto simp: shorten_check_def split: sum.splits if_splits)
  let ?c = "get_prop body ''customSlug''"
  show ?thesis
  proof (cases "truthy ?c")
    case True
    with assms req nn have "JStr s = ?c"
      by (auto simp: shorten_check_def Let_def split: sum.splits if_splits option.splits)
    with True show ?thesis by (cases ?c) auto
  next
    case False
    with assms req nn have
      "fst (generateUniqueSlug (tape cfg) st (Some 6) (Some 5) pos) = Inr s"
      by (auto simp: shorten_check_def Let_def split: sum.splits if_splits prod.splits)
    from generateUniqueSlug_Inr [OF this] candidates_from_length_bounds [of s "tape cfg" 6 5 0 pos]
    show ?thesis by auto
  qed
qed

lemma shorten_check_pos: "pos \<le> snd (shorten_check cfg st pos req)"
  using generateUniqueSlug_from_pos [of pos "tape cfg" st 6 5 0]
  by (auto simp: shorten_check_def Let_def generateUniqueSlug_def
      split: sum.splits option.splits prod.splits)

lemma shorten_check_custom:
  assumes "url \<noteq> []" and "isValidUrl (parse_url cfg) (JStr url)" and "s \<noteq> []"
  shows "shorten_check cfg st pos (shorten_body url (JStr s)) =
    (if length s < 3 \<or> 30 < length s then
       Return (Json 400 (ErrorBody ''Custom slug must be between 3 and 30 characters''))
     else if \<not> db_up st then Throw StoreUnavailable
     else if s \<in> slugs st then Return (Json 409 (ErrorBody ''Custom slug is already taken''))
     else Continue (JStr url, JStr s), pos)"
  using assms
  by (cases "link_by_slug st s")
    (auto simp: shorten_check_def shorten_body_def findUnique_string in_slugs_iff)

lemma shorten_check_generated:
  assumes "url \<noteq> []" and "isValidUrl (parse_url cfg) (JStr url)" and "\<not> truthy c"
  shows "shorten_check cfg st pos (shorten_body url c) =
    (case generateUniqueSlug (tape cfg) st (Some 6) (Some 5) pos of
       (Inl err, pos') \<Rightarrow>
         (Return (Json 500 (ErrorBody ''Failed to generate short link. Please try again.'')), pos')
     | (Inr s, pos') \<Rightarrow> (Continue (JStr url, JStr s), pos'))"
  using assms by (simp add: shorten_check_def shorten_body_def)

section \<open>The commit block\<close>

lemma shorten_commit_fresh:
  assumes "db_up st" and "s \<notin> slugs st"
  shows "shorten_commit cfg st now (JStr url, JStr s) =
    (Return (Json 201 (SuccessBody (short_url cfg s) s url)),
     st\<lparr>links := links st @ [\<lparr>link_id = next_id st, slug = s, originalUrl = url,
                                 totalClicks = 0, createdAt = now\<rparr>],
        next_id := Suc (next_id st)\<rparr>)"
  using assms
  by (simp add: shorten_commit_def link_create_def link_by_slug_None Let_def short_url_def)

lemma shorten_commit_cases:
  "(\<exists>e. shorten_commit cfg st now d = (Throw e, st))
   \<or> (\<exists>l st'. link_create st now (fst d) (snd d) = Inr (l, st')
        \<and> shorten_commit cfg st now d =
            (Return (Json 201 (SuccessBody (short_url cfg (slug l)) (slug l) (originalUrl l))), st'))"
  by (auto simp: shorten_commit_def Let_def short_url_def split: sum.splits)

lemma shorten_commit_inv:
  "store_inv st \<Longrightarrow> store_inv (snd (shorten_commit cfg st now d))"
  using shorten_commit_cases [of cfg st now d] by (auto dest: link_create_inv)

section \<open>The whole handler\<close>

lemma shorten_check_Return:
  assumes "shorten_check cfg st pos req = (Return r, pos')"
  shows "\<exists>code msg. r = Json code (ErrorBody msg) \<and> code \<in> {400, 409, 500}"
  using assms
  by (auto simp: shorten_check_def Let_def split: sum.splits if_splits option.splits prod.splits)

lemma POST_cases:
  "(\<exists>code msg. POST cfg now req st pos =
        (Json code (ErrorBody msg), st, snd (shorten_check cfg st pos req))
        \<and> code \<in> {400, 409, 500})
   \<or> (\<exists>d l st'. fst (shorten_check cfg st pos req) = Continue d
        \<and> link_create st now (fst d) (snd d) = Inr (l, st')
        \<and> POST cfg now req st pos =
            (Json 201 (SuccessBody (short_url cfg (slug l)) (slug l) (originalUrl l)), st',
             snd (shorten_check cfg st pos req)))"
proof (cases "shorten_check cfg st pos req")
  case (Pair r pos')
  show ?thesis
  proof (cases r)
    case (Continue d)
    with Pair shorten_commit_cases [of cfg st now d] show ?thesis
      by (auto simp: POST_def internal_error_def)
  next
    case (Return resp)
    with Pair shorten_check_Return [of cfg st pos req resp pos'] show ?thesis
      by (auto simp: POST_def)
  qed (use Pair in \<open>simp add: POST_def internal_error_def\<close>)
qed

lemma POST_created_link:
  assumes "POST cfg now req st pos = (Json 201 body, st', pos')"
  shows "\<exists>url s. url \<noteq> [] \<and> s \<noteq> [] \<and> parse_url cfg url \<noteq> None \<and> s \<notin> slugs st
    \<and> body = SuccessBody (short_url cfg s) s url
    \<and> st' = st\<lparr>links := links st @ [\<lparr>link_id = next_id st, slug = s, originalUrl = url,
                                           totalClicks = 0, createdAt = now\<rparr>],
                  next_id := Suc (next_id st)\<rparr>"
proof -
  from POST_cases [of cfg now req st pos] assms obtain d l where
    chk: "fst (shorten_check cfg st pos req) = Continue d"
    and create: "link_create st now (fst d) (snd d) = Inr (l, st')"
    and body: "body = SuccessBody (short_url cfg (slug l)) (slug l) (originalUrl l)"
    by auto
  from link_create_Inr [OF create] obtain url s where
    d: "d = (JStr url, JStr s)" and s: "s \<notin> slugs st"
    and l: "l = \<lparr>link_id = next_id st, slug = s, originalUrl = url, totalClicks = 0,
              createdAt = now\<rparr>"
    and st': "st' = st\<lparr>links := links st @ [l], next_id := Suc (next_id st)\<rparr>"
    by (cases d) auto
  from chk d have c: "shorten_check cfg st pos req
      = (Continue (JStr url, JStr s), snd (shorten_check cfg st pos req))"
    by (cases "shorten_check cfg st pos req") simp
  from shorten_check_Continue [OF c] shorten_check_Continue_nonempty [OF c]
  have "url \<noteq> []" "s \<noteq> []" "parse_url cfg url \<noteq> None"
    by (auto dest: isValidUrl_parses)
  with s l st' body show ?thesis by auto
qed

lemma POST_unchanged:
  assumes "POST cfg now req st pos = (r, st', pos')" and "\<forall>body. r \<noteq> Json 201 body"
  shows "st' = st"
  using POST_cases [of cfg now req st pos] assms by auto

lemma POST_custom:
  assumes "url \<noteq> []" and "isValidUrl (parse_url cfg) (JStr url)" and "s \<noteq> []"
  shows "POST cfg now (shorten_body url (JStr s)) st pos =
    (if length s < 3 \<or> 30 < length s then
       (Json 400 (ErrorBody ''Custom slug must be between 3 and 30 characters''), st, pos)
     else if \<not> db_up st then (internal_error, st, pos)
     else if s \<in> slugs st then (Json 409 (ErrorBody ''Custom slug is already taken''), st, pos)
     else
       (Json 201 (SuccessBody (short_url cfg s) s url),
        st\<lparr>links := links st @ [\<lparr>link_id = next_id st, slug = s, originalUrl = url,
                                    totalClicks = 0, createdAt = now\<rparr>],
           next_id := Suc (next_id st)\<rparr>, pos))"
  by (simp add: POST_def shorten_check_custom [OF assms] shorten_commit_fresh)

lemma POST_generated_aux:
  assumes "url \<noteq> []" and "isValidUrl (parse_url cfg) (JStr url)" and "\<not> truthy c"
  shows "POST cfg now (shorten_body url c) st pos =
    (case fst (generateUniqueSlug (tape cfg) st (Some 6) (Some 5) pos) of
       Inl err \<Rightarrow>
         (Json 500 (ErrorBody ''Failed to generate short link. Please try again.''), st,
          snd (generateUniqueSlug (tape cfg) st (Some 6) (Some 5) pos))
     | Inr s \<Rightarrow>
         (Json 201 (SuccessBody (short_url cfg s) s url),
          st\<lparr>links := links st @ [\<lparr>link_id = next_id st, slug = s, originalUrl = url,
                                      totalClicks = 0, createdAt = now\<rparr>],
             next_id := Suc (next_id st)\<rparr>,
          snd (generateUniqueSlug (tape cfg) st (Some 6) (Some 5) pos)))"
proof (cases "generateUniqueSlug (tape cfg) st (Some 6) (Some 5) pos")
  case (Pair r pos')
  show ?thesis
  proof (cases r)
    case (Inl err)
    with Pair show ?thesis
      by (simp add: POST_def shorten_check_generated [OF assms])
  next
    case (Inr s)
    with Pair generateUniqueSlug_Inr [of "tape cfg" st "Some 6" "Some 5" pos s]
    have "db_up st" "s \<notin> slugs st" by (simp_all add: slug_free_iff)
    with Pair Inr show ?thesis
      by (simp add: POST_def shorten_check_generated [OF assms] shorten_commit_fresh)
  qed
qed

section \<open>Concrete requests\<close>

lemma POST_abc:
  "POST demo_config 7 (shorten_body ''https://example.com'' (JStr ''abc'')) empty_store 0 =
     (Json 201 (SuccessBody ''https://okg.me/abc'' ''abc'' ''https://example.com''), abc_store, 0)"
  by (simp add: POST_custom scheme_parser_examples slugs_def empty_store_def abc_store_def
      short_url_def)

lemmas demo_simps =
  scheme_parser_examples slugs_def empty_store_def abc_store_def short_url_def

section \<open>Properties of the shorten handler\<close>

text \<open>
  C4. Creation with a custom slug. For a non-empty URL string that validates
  and a custom slug of 3 to 30 characters that no link has, while the store
  answers, \<open>POST\<close> answers 201 with the slug, the URL and the short URL
  \<open>base/slug\<close>, appends exactly the new link (fresh id, no clicks, created now)
  and draws nothing from the tape.
\<close>

theorem POST_created:
  assumes "url \<noteq> []" and "isValidUrl (parse_url cfg) (JStr url)"
    and "3 \<le> length s" and "length s \<le> 30" and "db_up st" and "s \<notin> slugs st"
  shows "POST cfg now (shorten_body url (JStr s)) st pos =
    (Json 201 (SuccessBody (short_url cfg s) s url),
     st\<lparr>links := links st @ [\<lparr>link_id = next_id st, slug = s, originalUrl = url,
                                 totalClicks = 0, createdAt = now\<rparr>],
        next_id := Suc (next_id st)\<rparr>, pos)"
proof -
  from assms(3) have "s \<noteq> []" by auto
  with assms show ?thesis by (simp add: POST_custom)
qed

theorem POST_created_witness:
  "POST demo_config 7 (shorten_body ''https://example.com'' (JStr ''abc'')) empty_store 0 =
     (Json 201 (SuccessBody ''https://okg.me/abc'' ''abc'' ''https://example.com''), abc_store, 0)"
  using POST_created [of "''https://example.com''" demo_config "''abc''" empty_store 7 0]
  by (simp add: demo_simps)

text \<open>
  C25. Conflict. A custom slug of valid length that a link already has is
  answered with 409, and neither the store nor the tape changes.
\<close>

theorem POST_conflict:
  assumes "url \<noteq> []" and "isValidUrl (parse_url cfg) (JStr url)"
    and "3 \<le> length s" and "length s \<le> 30" and "db_up st" and "s \<in> slugs st"
  shows "POST cfg now (shorten_body url (JStr s)) st pos =
    (Json 409 (ErrorBody ''Custom slug is already taken''), st, pos)"
proof -
  from assms(3) have "s \<noteq> []" by auto
  with assms show ?thesis by (simp add: POST_custom)
qed

theorem POST_conflict_witness:
  "POST demo_config 9 (shorten_body ''https://example.com'' (JStr ''abc''))
     (fst (snd (POST demo_config 7 (shorten_body ''https://example.com'' (JStr ''abc''))
        empty_store 0))) 0 =
     (Json 409 (ErrorBody ''Custom slug is already taken''), abc_store, 0)"
  using POST_conflict [of "''https://example.com''" demo_config "''abc''" abc_store 9 0]
  by (simp add: POST_abc) (simp add: demo_simps)

text \<open>
  Slug length. A custom slug string shorter than 3 or longer than 30
  characters is answered with 400 before the store is asked, so also while the
  store is down.
\<close>

theorem POST_slug_length:
  assumes "url \<noteq> []" and "isValidUrl (parse_url cfg) (JStr url)"
    and "s \<noteq> []" and "length s < 3 \<or> 30 < length s"
  shows "POST cfg now (shorten_body url (JStr s)) st pos =
    (Json 400 (ErrorBody ''Custom slug must be between 3 and 30 characters''), st, pos)"
  using assms by (simp add: POST_custom)

theorem POST_slug_length_witness:
  "POST demo_config 7 (shorten_body ''https://example.com'' (JStr ''ab''))
     (empty_store\<lparr>db_up := False\<rparr>) 0 =
     (Json 400 (ErrorBody ''Custom slug must be between 3 and 30 characters''),
      empty_store\<lparr>db_up := False\<rparr>, 0)"
  using POST_slug_length
    [of "''https://example.com''" demo_config "''ab''" 7 "empty_store\<lparr>db_up := False\<rparr>" 0]
  by (simp add: demo_simps)

text \<open>
  C26. Validation comes first. A body whose \<open>originalUrl\<close> is missing or falsy
  is answered with 400 "Missing originalUrl"; one whose \<open>originalUrl\<close> does not
  parse, or parses with a protocol other than \<open>http:\<close> and \<open>https:\<close>, with 400
  "Invalid URL format". Neither reads the store nor the tape.
\<close>

theorem POST_rejects_url:
  assumes "\<not> nullish body"
    and "\<not> truthy (get_prop body ''originalUrl'')
      \<or> \<not> isValidUrl (parse_url cfg) (get_prop body ''originalUrl'')"
  shows "POST cfg now (Inr body) st pos =
    (Json 400 (ErrorBody (if \<not> truthy (get_prop body ''originalUrl'')
                          then ''Missing originalUrl'' else ''Invalid URL format'')), st, pos)"
  using assms by (auto simp: POST_def shorten_check_def)

theorem POST_rejects_url_witness:
  "POST demo_config 7 (shorten_body ''ftp://example.com'' JUndefined) empty_store 0 =
     (Json 400 (ErrorBody ''Invalid URL format''), empty_store, 0)
   \<and> POST demo_config 7 (Inr (JObj [(''customSlug'', JStr ''abc'')])) empty_store 0 =
     (Json 400 (ErrorBody ''Missing originalUrl''), empty_store, 0)"
  using POST_rejects_url [of "JObj [(''originalUrl'', JStr ''ftp://example.com''),
      (''customSlug'', JUndefined)]" demo_config 7 empty_store 0]
    POST_rejects_url [of "JObj [(''customSlug'', JStr ''abc'')]" demo_config 7 empty_store 0]
  by (simp add: shorten_body_def scheme_parser_examples)

text \<open>
  Creation with a generated slug. Without a custom slug, for a URL string
  that validates and while the store answers, \<open>POST\<close> stores the link under the
  first of the five candidates \<open>generateUniqueSlug(6, 5)\<close> draws that no link has
  and answers 201; when all five are taken it answers 500 "Failed to generate
  short link" and leaves the store as it was.
\<close>

theorem POST_generated:
  assumes "url \<noteq> []" and "isValidUrl (parse_url cfg) (JStr url)" and "\<not> truthy c"
    and "db_up st"
  shows "fst (POST cfg now (shorten_body url c) st pos) =
      (case find (slug_free st) (candidates_from (tape cfg) 6 5 0 pos) of
         None \<Rightarrow> Json 500 (ErrorBody ''Failed to generate short link. Please try again.'')
       | Some s \<Rightarrow> Json 201 (SuccessBody (short_url cfg s) s url))
    \<and> fst (snd (POST cfg now (shorten_body url c) st pos)) =
      (case find (slug_free st) (candidates_from (tape cfg) 6 5 0 pos) of
         None \<Rightarrow> st
       | Some s \<Rightarrow>
           st\<lparr>links := links st @ [\<lparr>link_id = next_id st, slug = s, originalUrl = url,
                                       totalClicks = 0, createdAt = now\<rparr>],
              next_id := Suc (next_id st)\<rparr>)"
  using generateUniqueSlug_from_first_free [OF assms(4), of "tape cfg" 6 5 0 pos]
  by (simp add: POST_generated_aux [OF assms(1-3)] generateUniqueSlug_def split: option.splits)

theorem POST_generated_witness:
  "fst (POST demo_config 7 (shorten_body ''https://example.com'' JUndefined) one_link_store 0) =
     Json 201 (SuccessBody ''https://okg.me/0000000'' ''0000000'' ''https://example.com'')"
  using POST_generated [of "''https://example.com''" demo_config JUndefined one_link_store 7 0]
  by (simp add: scheme_parser_examples one_link_store_simps short_url_def)

text \<open>
  Round trip and immutability. Whatever the request, when \<open>POST\<close> answers
  201 with slug \<open>s\<close> and URL \<open>u\<close>, the slug was free before, resolves to \<open>u\<close>
  afterwards, every other slug resolves as before, and the short URL of the
  answer is the configured base joined with \<open>s\<close>.
\<close>

theorem POST_roundtrip:
  assumes "POST cfg now req st pos = (Json 201 (SuccessBody su s u), st', pos')"
  shows "resolve st s = None \<and> resolve st' = (resolve st)(s \<mapsto> u) \<and> su = short_url cfg s"
proof -
  from POST_cases [of cfg now req st pos] assms obtain d l where
    create: "link_create st now (fst d) (snd d) = Inr (l, st')"
    and l: "s = slug l" "u = originalUrl l" "su = short_url cfg (slug l)"
    by auto
  from link_create_Inr [OF create] link_create_resolve [OF create] l show ?thesis
    by (auto simp: resolve_None)
qed

theorem POST_roundtrip_witness:
  "POST demo_config 7 (shorten_body ''https://example.com'' (JStr ''abc'')) empty_store 0 =
     (Json 201 (SuccessBody ''https://okg.me/abc'' ''abc'' ''https://example.com''), abc_store, 0)
   \<and> resolve abc_store ''abc'' = Some ''https://example.com''"
  using POST_roundtrip [OF POST_abc] by (simp add: POST_abc)

text \<open>
  \<open>POST\<close> keeps the invariant of the tables, for every request: slugs and
  ids stay unique, ids stay below the next id, clicks stay attached and
  counters stay equal to the number of their click rows.
\<close>

theorem POST_store_inv:
  assumes "store_inv st"
  shows "store_inv (fst (snd (POST cfg now req st pos)))"
  using POST_cases [of cfg now req st pos] assms by (auto dest: link_create_inv)

theorem POST_store_inv_witness:
  "store_inv one_link_store
   \<and> store_inv (fst (snd (POST demo_config 7 (shorten_body ''https://example.com'' JUndefined)
        one_link_store 0)))"
  using POST_store_inv [OF store_inv_one_link_store, of demo_config 7
      "shorten_body ''https://example.com'' JUndefined" 0]
  by (simp add: store_inv_one_link_store)

text \<open>
  C36. The answers of \<open>POST\<close>. Every answer is JSON with status 201, 400, 409
  or 500; the store is changed by a 201 answer only, which appends one link and
  removes or alters none.
\<close>

theorem POST_status:
  "status_of (fst (POST cfg now req st pos)) \<in> {201, 400, 409, 500}
   \<and> (\<exists>code body. fst (POST cfg now req st pos) = Json code body)
   \<and> (if status_of (fst (POST cfg now req st pos)) = 201
       then \<exists>l. fst (snd (POST cfg now req st pos)) =
                   st\<lparr>links := links st @ [l], next_id := Suc (next_id st)\<rparr>
       else fst (snd (POST cfg now req st pos)) = st)"
proof -
  consider (same) code msg where
      "POST cfg now req st pos = (Json code (ErrorBody msg), st, snd (shorten_check cfg st pos req))"
      "code \<in> {400, 409, 500}"
    | (created) d l st' where "link_create st now (fst d) (snd d) = Inr (l, st')"
      "POST cfg now req st pos =
         (Json 201 (SuccessBody (short_url cfg (slug l)) (slug l) (originalUrl l)), st',
          snd (shorten_check cfg st pos req))"
    using POST_cases [of cfg now req st pos] by blast
  then show ?thesis
  proof cases
    case same
    then show ?thesis by auto
  next
    case created
    with link_create_Inr [OF created(1)] show ?thesis by auto
  qed
qed

section \<open>Where the handler and its description part\<close>

lemma shorten_check_custom_Continue:
  assumes "shorten_check cfg st pos (shorten_body url (JStr s)) = (Continue d, pos')"
    and "s \<noteq> []"
  shows "d = (JStr url, JStr s) \<and> db_up st \<and> s \<notin> slugs st \<and> pos' = pos"
  using assms
  by (auto simp: shorten_check_def shorten_body_def Let_def findUnique_string
      link_by_slug_None split: if_splits option.splits)

lemma shorten_commit_taken:
  "db_up st \<Longrightarrow> s \<in> slugs st \<Longrightarrow>
     shorten_commit cfg st now (JStr url, JStr s) = (Throw UniqueViolation, st)"
  by (simp add: shorten_commit_def link_create_taken)

text \<open>
  The check and the insert are two blocks. When two requests for the same free
  custom slug have both passed the check and the first has inserted its link,
  the insert of the second throws \<open>UniqueViolation\<close>. Theory \<open>Interleave\<close> runs
  the two blocks as separate steps.
\<close>

lemma shorten_commit_race:
  assumes "shorten_check cfg st pos (shorten_body url1 (JStr s)) = (Continue d1, pos1)"
    and "shorten_check cfg st pos (shorten_body url2 (JStr s)) = (Continue d2, pos2)"
    and "s \<noteq> []"
    and "shorten_commit cfg st now d1 = (Return r1, st1)"
  shows "shorten_commit cfg st1 now' d2 = (Throw UniqueViolation, st1)"
proof -
  note c1 = shorten_check_custom_Continue [OF assms(1,3)]
    and c2 = shorten_check_custom_Continue [OF assms(2,3)]
  with assms(4) have
    "st1 = st\<lparr>links := links st @ [\<lparr>link_id = next_id st, slug = s, originalUrl = url1,
                                        totalClicks = 0, createdAt = now\<rparr>],
               next_id := Suc (next_id st)\<rparr>"
    by (simp add: shorten_commit_fresh)
  with c1 have "db_up st1" "s \<in> slugs st1"
    by (simp_all add: slugs_def)
  with c2 show ?thesis by (simp add: shorten_commit_taken)
qed

text \<open>
  C37. \<open>isValidUrl\<close> sees the raw JSON value. An \<open>originalUrl\<close> that is an array
  holding one valid URL string passes validation, because \<open>new URL\<close> converts
  its argument to a string; the insert then refuses the array, and the answer
  is 500 where the same URL as a string is created.
\<close>

theorem POST_array_url:
  assumes "url \<noteq> []" and "isValidUrl (parse_url cfg) (JStr url)"
    and "3 \<le> length s" and "length s \<le> 30" and "db_up st" and "s \<notin> slugs st"
  shows "POST cfg now (Inr (JObj [(''originalUrl'', JArr [JStr url]), (''customSlug'', JStr s)]))
      st pos = (internal_error, st, pos)"
proof -
  from assms(3) have "s \<noteq> []" by auto
  moreover from assms(2) have "isValidUrl (parse_url cfg) (JArr [JStr url])"
    by (simp add: isValidUrl_def)
  moreover from assms(6) have "link_by_slug st s = None"
    by (simp add: link_by_slug_None)
  ultimately show ?thesis
    using assms(3-5)
    by (simp add: POST_def shorten_check_def findUnique_string shorten_commit_def
        link_create_def)
qed

theorem POST_array_url_witness:
  "POST demo_config 7
     (Inr (JObj [(''originalUrl'', JArr [JStr ''https://example.com'']),
                 (''customSlug'', JStr ''abc'')])) empty_store 0
   = (Json 500 (ErrorBody ''Internal Server Error''), empty_store, 0)"
  using POST_array_url [of "''https://example.com''" demo_config "''abc''" empty_store 7 0]
  by (simp add: demo_simps internal_error_def)

text \<open>
  C38. What a store outage looks like. While the store is down, a request
  without a custom slug is answered with 500 "Failed to generate short link.
  Please try again.", since the \<open>catch\<close> around \<open>generateUniqueSlug\<close> takes every
  exception for an exhausted generator; the same request with a custom slug is
  answered with 500 "Internal Server Error".
\<close>

theorem POST_store_down:
  assumes "url \<noteq> []" and "isValidUrl (parse_url cfg) (JStr url)" and "\<not> db_up st"
    and "3 \<le> length s" and "length s \<le> 30"
  shows "fst (POST cfg now (shorten_body url JUndefined) st pos) =
      Json 500 (ErrorBody ''Failed to generate short link. Please try again.'')
    \<and> fst (POST cfg now (shorten_body url (JStr s)) st pos) = internal_error"
proof -
  from assms(4) have "s \<noteq> []" by auto
  with assms show ?thesis
    by (simp add: POST_custom POST_generated_aux generateUniqueSlug_def
        generateUniqueSlug_from_down)
qed

theorem POST_store_down_witness:
  "fst (POST demo_config 7 (shorten_body ''https://example.com'' JUndefined)
        (empty_store\<lparr>db_up := False\<rparr>) 0) =
      Json 500 (ErrorBody ''Failed to generate short link. Please try again.'')
   \<and> fst (POST demo_config 7 (shorten_body ''https://example.com'' (JStr ''abc''))
        (empty_store\<lparr>db_up := False\<rparr>) 0) = Json 500 (ErrorBody ''Internal Server Error'')"
  using POST_store_down [of "''https://example.com''" demo_config
      "empty_store\<lparr>db_up := False\<rparr>" "''abc''" 7 0]
  by (simp add: demo_simps internal_error_def)

end
