(* ===== verification/Redirect.thy ===== *)
theory Redirect
  imports Http
begin

text \<open>
  \<open>src/app/[slug]/route.ts\<close>: the handler \<open>GET\<close> and the click tracker
  \<open>trackClickAsync\<close>. \<open>GET\<close> does not await the tracker: in the model it appends a
  task to the world's list of pending trackers, and running a task is a step
  of its own, taken at any later time (theory \<open>System\<close>). The handler's two
  inner \<open>try\<close> blocks are \<open>cache_phase\<close> and \<open>store_phase\<close>.
\<close>

section \<open>Requests, tasks and the world\<close>

text \<open>
  Of a request the handlers read the slug of the route, the origin of its URL
  (for \<open>new URL('/', req.url)\<close>), two headers and the peer address.
  \<open>headers.get\<close> compares header names without regard to case and joins the
  values of a header that occurs more than once with a comma and a space.
\<close>

record request =
  slug_param :: string
  origin :: string
  headers :: "(string \<times> string) list"
  req_ip :: "string option"

fun join_values :: "string list \<Rightarrow> string" where
  "join_values [] = []"
| "join_values [v] = v"
| "join_values (v # w # vs) = v @ '', '' @ join_values (w # vs)"

definition header_get :: "request \<Rightarrow> string \<Rightarrow> string option" where
  "header_get req name =
     (case filter (\<lambda>h. toLowerCase (fst h) = toLowerCase name) (headers req) of
        [] \<Rightarrow> None
      | h # hs \<Rightarrow> Some (join_values (map snd (h # hs))))"

lemma header_names_lower [simp]:
  "toLowerCase ''user-agent'' = ''user-agent''"
  "toLowerCase ''x-forwarded-for'' = ''x-forwarded-for''"
  by (simp_all add: lower_char_def)

lemma header_get_single:
  "\<lbrakk>toLowerCase k = toLowerCase name;
    \<forall>h \<in> set hs. toLowerCase (fst h) \<noteq> toLowerCase name\<rbrakk>
   \<Longrightarrow> header_get (req\<lparr>headers := (k, v) # hs\<rparr>) name = Some v"
  by (simp add: header_get_def filter_empty_conv [THEN iffD2])

lemma header_get_repeated:
  "header_get (req\<lparr>headers := [(''X-Forwarded-For'', ''203.0.113.9''),
                                  (''x-forwarded-for'', ''10.0.0.1'')]\<rparr>) ''x-forwarded-for'' =
     Some ''203.0.113.9, 10.0.0.1''"
  by (simp add: header_get_def lower_char_def)

record track_task =
  task_slug :: string
  task_req :: request
  task_linkId :: "nat option"

record world =
  db :: store
  kv :: cache
  pending :: "track_task list"
  clock :: nat
  rng :: nat

definition dispatch :: "world \<Rightarrow> track_task \<Rightarrow> world" where
  "dispatch w t = w\<lparr>pending := pending w @ [t]\<rparr>"

section \<open>\<open>GET\<close>\<close>

definition cache_key :: "string \<Rightarrow> string" where
  "cache_key s = ''link:'' @ s"

definition day_seconds :: nat where
  "day_seconds = 60 * 60 * 24"

definition server_error :: response where
  "server_error = PlainText 500 ''Internal Server Error''"

text \<open>
  Step 1 of the handler: with a client, read the cache; on a truthy value start
  the tracker with the slug alone and redirect. An exception inside the block,
  the one of the redirect included, is logged and the handler goes on to the
  store.
\<close>

definition cache_phase :: "config \<Rightarrow> request \<Rightarrow> world \<Rightarrow> unit step \<times> world" where
  "cache_phase cfg req w =
     (if redis cfg \<noteq> None then
        (case redis_get (kv w) (clock w) (cache_key (slug_param req)) of
           Inl err \<Rightarrow> (Continue (), w)
         | Inr None \<Rightarrow> (Continue (), w)
         | Inr (Some cachedUrl) \<Rightarrow>
             if cachedUrl \<noteq> [] then
               (case next_redirect (parse_url cfg) cachedUrl (Some 301) of
                  Inl err \<Rightarrow>
                    (Continue (),
                     dispatch w \<lparr>task_slug = slug_param req, task_req = req, task_linkId = None\<rparr>)
                | Inr r \<Rightarrow>
                    (Return r,
                     dispatch w \<lparr>task_slug = slug_param req, task_req = req, task_linkId = None\<rparr>))
             else (Continue (), w))
      else (Continue (), w))"

text \<open>
  Steps 2 to 5: look the slug up; answer an unknown slug with the redirect to
  the error page; otherwise write the cache entry for 24 hours (a failure is
  logged), start the tracker with the link's id, and redirect.
\<close>

definition store_phase :: "config \<Rightarrow> request \<Rightarrow> world \<Rightarrow> response result \<times> world" where
  "store_phase cfg req w =
     (case findUnique (db w) (JStr (slug_param req)) of
        Inl e \<Rightarrow> (Inl e, w)
      | Inr None \<Rightarrow> (Inr (Redirect (origin req @ ''/?error=not-found'') None), w)
      | Inr (Some link) \<Rightarrow>
          let w1 =
                (if redis cfg \<noteq> None then
                   (case redis_set (kv w) (clock w) (cache_key (slug_param req))
                           (originalUrl link) day_seconds of
                      Inl err \<Rightarrow> w
                    | Inr c \<Rightarrow> w\<lparr>kv := c\<rparr>)
                 else w);
              w2 = dispatch w1 \<lparr>task_slug = slug_param req, task_req = req,
                                task_linkId = Some (link_id link)\<rparr>
          in (next_redirect (parse_url cfg) (originalUrl link) (Some 301), w2))"

definition GET :: "config \<Rightarrow> request \<Rightarrow> world \<Rightarrow> response \<times> world" where
  "GET cfg req w =
     (if slug_param req = [] then (Redirect (origin req @ ''/'') None, w)
      else
        (case cache_phase cfg req w of
           (Return r, w') \<Rightarrow> (r, w')
         | (Throw e, w') \<Rightarrow> (server_error, w')
         | (Continue u, w') \<Rightarrow>
             (case store_phase cfg req w' of
                (Inl e, w'') \<Rightarrow> (server_error, w'')
              | (Inr r, w'') \<Rightarrow> (r, w''))))"

section \<open>\<open>trackClickAsync\<close>\<close>

definition is_bot :: "string \<Rightarrow> bool" where
  "is_bot ua \<longleftrightarrow>
     str_includes (toLowerCase ua) ''bot'' \<or> str_includes (toLowerCase ua) ''crawl''"

definition user_agent_of :: "request \<Rightarrow> string" where
  "user_agent_of req = or_else (header_get req ''user-agent'') ''Unknown''"

definition client_ip :: "request \<Rightarrow> string" where
  "client_ip req =
     or_else (header_get req ''x-forwarded-for'') (or_else (req_ip req) ''0.0.0.0'')"

text \<open>
  The id the click is booked on: the one the handler passed, or the one found
  under the slug; \<open>Inr None\<close> is the early \<open>return\<close> for a slug that no longer
  resolves. Ids are non-empty strings in the source, so \<open>!targetLinkId\<close> is the
  test for a missing argument.
\<close>

definition target_link :: "store \<Rightarrow> track_task \<Rightarrow> nat option result" where
  "target_link st t =
     (case task_linkId t of
        Some i \<Rightarrow> Inr (Some i)
      | None \<Rightarrow>
          (case findUnique st (JStr (task_slug t)) of
             Inl e \<Rightarrow> Inl e
           | Inr None \<Rightarrow> Inr None
           | Inr (Some link) \<Rightarrow> Inr (Some (link_id link))))"

definition trackClickAsync :: "config \<Rightarrow> nat \<Rightarrow> track_task \<Rightarrow> store \<Rightarrow> store" where
  "trackClickAsync cfg now t st =
     (if is_bot (user_agent_of (task_req t)) then st
      else
        (case target_link st t of
           Inl e \<Rightarrow> st
         | Inr None \<Rightarrow> st
         | Inr (Some targetLinkId) \<Rightarrow>
             (case click_transaction st now targetLinkId
                     (sha256_hex cfg (client_ip (task_req t))) (user_agent_of (task_req t)) of
                Inl e \<Rightarrow> st
              | Inr st' \<Rightarrow> st')))"

lemmas redirect_defs = GET_def cache_phase_def store_phase_def dispatch_def

section \<open>Frame facts of \<open>GET\<close>\<close>

lemma cache_phase_frame [okg_frame]:
  "db (snd (cache_phase cfg req w)) = db w"
  "kv (snd (cache_phase cfg req w)) = kv w"
  "clock (snd (cache_phase cfg req w)) = clock w"
  "rng (snd (cache_phase cfg req w)) = rng w"
  by (simp_all add: cache_phase_def dispatch_def split: sum.splits option.splits)

lemma store_phase_frame [okg_frame]:
  "db (snd (store_phase cfg req w)) = db w"
  "clock (snd (store_phase cfg req w)) = clock w"
  "rng (snd (store_phase cfg req w)) = rng w"
  by (simp_all add: store_phase_def dispatch_def Let_def split: sum.splits option.splits)

lemma GET_frame [okg_frame]:
  "db (snd (GET cfg req w)) = db w"
  "clock (snd (GET cfg req w)) = clock w"
  "rng (snd (GET cfg req w)) = rng w"
proof -
  obtain r w' where c: "cache_phase cfg req w = (r, w')" by (cases "cache_phase cfg req w")
  obtain q w'' where s: "store_phase cfg req w' = (q, w'')" by (cases "store_phase cfg req w'")
  from cache_phase_frame [of cfg req w] store_phase_frame [of cfg req w'] c s
  show "db (snd (GET cfg req w)) = db w" "clock (snd (GET cfg req w)) = clock w"
    "rng (snd (GET cfg req w)) = rng w"
    by (auto simp: GET_def split: step.splits sum.splits)
qed

section \<open>The tracker, case by case\<close>

lemma trackClickAsync_bot: "is_bot (user_agent_of (task_req t)) \<Longrightarrow> trackClickAsync cfg now t st = st"
  by (simp add: trackClickAsync_def)

lemma trackClickAsync_cases:
  "trackClickAsync cfg now t st = st
   \<or> (\<exists>i. target_link st t = Inr (Some i) \<and> \<not> is_bot (user_agent_of (task_req t))
        \<and> click_transaction st now i (sha256_hex cfg (client_ip (task_req t)))
              (user_agent_of (task_req t)) = Inr (trackClickAsync cfg now t st))"
  by (auto simp: trackClickAsync_def split: sum.splits option.splits)

lemma trackClickAsync_inv: "store_inv st \<Longrightarrow> store_inv (trackClickAsync cfg now t st)"
  using trackClickAsync_cases [of cfg now t st] by (auto dest: click_transaction_inv)

lemma trackClickAsync_resolve: "resolve (trackClickAsync cfg now t st) = resolve st"
  using trackClickAsync_cases [of cfg now t st] by (auto dest: click_transaction_resolve)

lemma target_link_known:
  "db_up st \<Longrightarrow> link_by_slug st (task_slug t) = Some l \<Longrightarrow> task_linkId t = None \<Longrightarrow>
     target_link st t = Inr (Some (link_id l))"
  by (simp add: target_link_def findUnique_string)

lemma trackClickAsync_recorded:
  assumes "\<not> is_bot (user_agent_of (task_req t))" and "target_link st t = Inr (Some i)"
    and "db_up st" and "link_by_id st i \<noteq> None"
  shows "trackClickAsync cfg now t st =
    st\<lparr>clicks := clicks st @ [\<lparr>linkId = i, ipHash = sha256_hex cfg (client_ip (task_req t)),
                                 userAgent = user_agent_of (task_req t), timestamp = now\<rparr>],
       links := map (bump_clicks i) (links st)\<rparr>"
  using assms by (auto simp: trackClickAsync_def click_transaction_def)

section \<open>What \<open>GET\<close> relies on\<close>

text \<open>
  Two facts about a world make \<open>GET\<close> a resolver. Every stored destination is a
  non-empty string that \<open>new URL\<close> accepts (\<open>POST\<close> stores no other), and every
  cache entry is \<open>link:slug\<close> with the destination the store has for that slug
  (only \<open>GET\<close> writes entries, and links are never changed or removed).
\<close>

definition urls_valid :: "config \<Rightarrow> store \<Rightarrow> bool" where
  "urls_valid cfg st =
     list_all (\<lambda>l. originalUrl l \<noteq> [] \<and> parse_url cfg (originalUrl l) \<noteq> None) (links st)"

definition entry_coherent :: "store \<Rightarrow> string \<times> string \<times> nat \<Rightarrow> bool" where
  "entry_coherent st e =
     (startsWith (fst e) ''link:'' \<and> resolve st (drop 5 (fst e)) = Some (fst (snd e)))"

definition cache_coherent :: "world \<Rightarrow> bool" where
  "cache_coherent w = list_all (entry_coherent (db w)) (entries (kv w))"

lemma urls_validD:
  "urls_valid cfg st \<Longrightarrow> resolve st s = Some url \<Longrightarrow> url \<noteq> [] \<and> parse_url cfg url \<noteq> None"
  by (auto simp: urls_valid_def resolve_def list_all_iff dest!: link_by_slug_Some)

lemma cache_coherentD:
  assumes "cache_coherent w" and "cache_lookup (kv w) now (cache_key s) = Some url"
  shows "resolve (db w) s = Some url"
proof -
  from assms(2) obtain ex where "(cache_key s, url, ex) \<in> set (entries (kv w))"
    by (blast dest: cache_lookup_expired)
  with assms(1) have "entry_coherent (db w) (cache_key s, url, ex)"
    by (auto simp: cache_coherent_def list_all_iff)
  then show ?thesis by (simp add: entry_coherent_def cache_key_def)
qed

lemma resolve_link: "link_by_slug st s = Some l \<Longrightarrow> resolve st s = Some (originalUrl l)"
  by (simp add: resolve_def)

section \<open>\<open>GET\<close>, branch by branch\<close>

definition cache_answer :: "config \<Rightarrow> request \<Rightarrow> world \<Rightarrow> string option" where
  "cache_answer cfg req w =
     (if redis cfg \<noteq> None \<and> cache_up (kv w)
      then (case cache_lookup (kv w) (clock w) (cache_key (slug_param req)) of
              None \<Rightarrow> None | Some v \<Rightarrow> if v = [] then None else Some v)
      else None)"

lemma cache_phase_hit:
  assumes "cache_answer cfg req w = Some url" and "parse_url cfg url \<noteq> None"
  shows "cache_phase cfg req w =
    (Return (Redirect url (Some 301)),
     dispatch w \<lparr>task_slug = slug_param req, task_req = req, task_linkId = None\<rparr>)"
  using assms
  by (auto simp: cache_phase_def cache_answer_def redis_get_def next_redirect_def
      split: option.splits if_splits)

lemma cache_phase_miss:
  assumes "cache_answer cfg req w = None"
  shows "cache_phase cfg req w = (Continue (), w)"
  using assms
  by (auto simp: cache_phase_def cache_answer_def redis_get_def split: option.splits if_splits)

definition cache_written :: "config \<Rightarrow> request \<Rightarrow> string \<Rightarrow> world \<Rightarrow> world" where
  "cache_written cfg req url w =
     (if redis cfg \<noteq> None \<and> cache_up (kv w)
      then w\<lparr>kv := (kv w)\<lparr>entries := (cache_key (slug_param req), url, clock w + day_seconds)
                                      # entries (kv w)\<rparr>\<rparr>
      else w)"

lemma store_phase_found:
  assumes "db_up (db w)" and "link_by_slug (db w) (slug_param req) = Some l"
  shows "store_phase cfg req w =
    (next_redirect (parse_url cfg) (originalUrl l) (Some 301),
     dispatch (cache_written cfg req (originalUrl l) w)
       \<lparr>task_slug = slug_param req, task_req = req, task_linkId = Some (link_id l)\<rparr>)"
  using assms
  by (simp add: store_phase_def findUnique_string cache_written_def redis_set_def Let_def)

lemma store_phase_unknown:
  assumes "db_up (db w)" and "link_by_slug (db w) (slug_param req) = None"
  shows "store_phase cfg req w = (Inr (Redirect (origin req @ ''/?error=not-found'') None), w)"
  using assms by (simp add: store_phase_def findUnique_string)

lemma store_phase_down: "\<not> db_up (db w) \<Longrightarrow> store_phase cfg req w = (Inl StoreUnavailable, w)"
  by (simp add: store_phase_def findUnique_string)

lemma GET_hit:
  assumes "slug_param req \<noteq> []" and "cache_answer cfg req w = Some url"
    and "parse_url cfg url \<noteq> None"
  shows "GET cfg req w =
    (Redirect url (Some 301),
     dispatch w \<lparr>task_slug = slug_param req, task_req = req, task_linkId = None\<rparr>)"
  using assms by (simp add: GET_def cache_phase_hit)

lemma GET_found:
  assumes "slug_param req \<noteq> []" and "cache_answer cfg req w = None"
    and "db_up (db w)" and "link_by_slug (db w) (slug_param req) = Some l"
    and "parse_url cfg (originalUrl l) \<noteq> None"
  shows "GET cfg req w =
    (Redirect (originalUrl l) (Some 301),
     dispatch (cache_written cfg req (originalUrl l) w)
       \<lparr>task_slug = slug_param req, task_req = req, task_linkId = Some (link_id l)\<rparr>)"
  using assms by (simp add: GET_def cache_phase_miss store_phase_found next_redirect_ok)

lemma GET_unknown:
  assumes "slug_param req \<noteq> []" and "cache_answer cfg req w = None"
    and "db_up (db w)" and "link_by_slug (db w) (slug_param req) = None"
  shows "GET cfg req w = (Redirect (origin req @ ''/?error=not-found'') None, w)"
  using assms by (simp add: GET_def cache_phase_miss store_phase_unknown)

lemma GET_down:
  assumes "slug_param req \<noteq> []" and "cache_answer cfg req w = None" and "\<not> db_up (db w)"
  shows "GET cfg req w = (server_error, w)"
  using assms by (simp add: GET_def cache_phase_miss store_phase_down)

lemmas GET_branches = GET_hit GET_found GET_unknown GET_down

lemma cache_answer_coherent:
  assumes "cache_coherent w" and "urls_valid cfg (db w)"
    and "cache_answer cfg req w = Some url"
  shows "resolve (db w) (slug_param req) = Some url \<and> parse_url cfg url \<noteq> None"
proof -
  from assms(3) have "cache_lookup (kv w) (clock w) (cache_key (slug_param req)) = Some url"
    by (auto simp: cache_answer_def split: if_splits option.splits)
  with assms(1) have "resolve (db w) (slug_param req) = Some url"
    by (rule cache_coherentD)
  with assms(2) show ?thesis by (auto dest: urls_validD)
qed

section \<open>\<open>GET\<close> under the two facts\<close>

lemma GET_resolver:
  assumes "slug_param req \<noteq> []" and "db_up (db w)"
    and "cache_coherent w" and "urls_valid cfg (db w)"
  shows "fst (GET cfg req w) =
    (case resolve (db w) (slug_param req) of
       Some url \<Rightarrow> Redirect url (Some 301)
     | None \<Rightarrow> Redirect (origin req @ ''/?error=not-found'') None)"
proof (cases "cache_answer cfg req w")
  case (Some url)
  with cache_answer_coherent [OF assms(3,4) Some] assms(1) show ?thesis
    by (simp add: GET_hit)
next
  case None
  show ?thesis
  proof (cases "link_by_slug (db w) (slug_param req)")
    case no: None
    with None assms(1,2) show ?thesis by (simp add: GET_unknown resolve_def)
  next
    case (Some l)
    with urls_validD [OF assms(4) resolve_link [OF Some]] None assms(1,2) show ?thesis
      by (simp add: GET_found resolve_def)
  qed
qed


lemma GET_dispatches:
  assumes "slug_param req \<noteq> []" and "db_up (db w)"
    and "cache_coherent w" and "urls_valid cfg (db w)"
  shows "db (snd (GET cfg req w)) = db w
    \<and> pending (snd (GET cfg req w)) =
        pending w @
          (case resolve (db w) (slug_param req) of
             None \<Rightarrow> []
           | Some url \<Rightarrow>
               [\<lparr>task_slug = slug_param req, task_req = req,
                 task_linkId =
                   (if cache_answer cfg req w = None
                    then map_option link_id (link_by_slug (db w) (slug_param req))
                    else None)\<rparr>])"
proof (cases "cache_answer cfg req w")
  case (Some url)
  with cache_answer_coherent [OF assms(3,4) Some] assms(1) show ?thesis
    by (simp add: GET_hit dispatch_def)
next
  case None
  show ?thesis
  proof (cases "link_by_slug (db w) (slug_param req)")
    case no: None
    with None assms(1,2) show ?thesis by (simp add: GET_unknown resolve_def)
  next
    case (Some l)
    with urls_validD [OF assms(4) resolve_link [OF Some]] None assms(1,2) show ?thesis
      by (simp add: GET_found resolve_def dispatch_def cache_written_def)
  qed
qed


lemma GET_pending:
  "\<exists>ts. pending (snd (GET cfg req w)) = pending w @ ts
     \<and> (\<forall>t \<in> set ts. task_req t = req \<and> task_slug t = slug_param req)"
  by (auto simp: GET_def cache_phase_def store_phase_def dispatch_def Let_def
      split: sum.splits option.splits)

lemma GET_not_json: "fst (GET cfg req w) \<noteq> Json code body"
  by (auto simp: GET_def cache_phase_def store_phase_def Let_def server_error_def
      next_redirect_def split: sum.splits option.splits)

section \<open>Concrete requests and worlds\<close>

definition browser_request :: "string \<Rightarrow> request" where
  "browser_request s =
     \<lparr>slug_param = s, origin = ''https://okg.me'',
      headers = [(''user-agent'', ''Mozilla/5.0 Firefox/120.0''),
                 (''x-forwarded-for'', ''203.0.113.9'')],
      req_ip = None\<rparr>"

definition googlebot_request :: "string \<Rightarrow> request" where
  "googlebot_request s =
     \<lparr>slug_param = s, origin = ''https://okg.me'',
      headers = [(''user-agent'', ''Mozilla/5.0 (compatible; Googlebot/2.1)'')],
      req_ip = None\<rparr>"

definition abc_world :: world where
  "abc_world = \<lparr>db = abc_store, kv = empty_cache, pending = [], clock = 100, rng = 0\<rparr>"

lemma abc_world_simps [simp]:
  "db abc_world = abc_store" "kv abc_world = empty_cache" "pending abc_world = []"
  "clock abc_world = 100" "rng abc_world = 0"
  by (simp_all add: abc_world_def)

lemma request_simps [simp]:
  "slug_param (browser_request s) = s" "slug_param (googlebot_request s) = s"
  "origin (browser_request s) = ''https://okg.me''"
  "user_agent_of (browser_request s) = ''Mozilla/5.0 Firefox/120.0''"
  "user_agent_of (googlebot_request s) = ''Mozilla/5.0 (compatible; Googlebot/2.1)''"
  "client_ip (browser_request s) = ''203.0.113.9''"
  "client_ip (googlebot_request s) = ''0.0.0.0''"
  by (simp_all add: browser_request_def googlebot_request_def user_agent_of_def
      client_ip_def header_get_def)

lemma is_bot_examples:
  "is_bot ''Mozilla/5.0 (compatible; Googlebot/2.1)''"
  "\<not> is_bot ''Mozilla/5.0 Firefox/120.0''"
  "\<not> is_bot ''Unknown''"
  by (simp_all add: is_bot_def lower_char_def)

lemma abc_world_facts:
  "cache_coherent abc_world" "urls_valid demo_config abc_store" "db_up abc_store"
  "link_by_slug abc_store ''abc'' =
     Some \<lparr>link_id = 0, slug = ''abc'', originalUrl = ''https://example.com'',
           totalClicks = 0, createdAt = 7\<rparr>"
  "resolve abc_store ''abc'' = Some ''https://example.com''"
  "cache_answer demo_config (browser_request ''abc'') abc_world = None"
  "scheme_parser ''https://example.com'' \<noteq> None"
  by (simp_all add: cache_coherent_def urls_valid_def abc_store_def empty_cache_def
      scheme_parser_def resolve_def link_by_slug_def cache_answer_def cache_lookup_def)

section \<open>Properties of the redirect handler\<close>

text \<open>
  C2. \<open>GET\<close> implements the resolver. In a world whose cache agrees with the
  store and whose stored destinations are valid, while the store answers, a
  request for a non-empty slug is redirected with status 301 to the
  destination the store has for the slug, and to \<open>/?error=not-found\<close> when
  there is none; whether the answer came from the cache cannot be told from it,
  and a failing or absent cache changes nothing.
\<close>

theorem GET_resolves:
  assumes "slug_param req \<noteq> []" and "db_up (db w)"
    and "cache_coherent w" and "urls_valid cfg (db w)"
  shows "fst (GET cfg req w) =
    (case resolve (db w) (slug_param req) of
       Some url \<Rightarrow> Redirect url (Some 301)
     | None \<Rightarrow> Redirect (origin req @ ''/?error=not-found'') None)"
  using assms by (rule GET_resolver)

theorem GET_resolves_witness:
  "fst (GET demo_config (browser_request ''abc'') abc_world) =
     Redirect ''https://example.com'' (Some 301)
   \<and> fst (GET demo_config (browser_request ''doesnotexist'') abc_world) =
     Redirect ''https://okg.me/?error=not-found'' None"
  using GET_resolves [of "browser_request ''abc''" abc_world demo_config]
    GET_resolves [of "browser_request ''doesnotexist''" abc_world demo_config]
  by (simp add: abc_world_facts) (simp add: resolve_def link_by_slug_def abc_store_def)

text \<open>
  C9. Cache-aside. After a request that missed the cache and found its link in
  the store, with a client and a working cache, every request for the same
  slug within the next 86400 seconds is answered from the cache with the same
  redirect, whatever has become of the store: no store call is made.
\<close>

theorem GET_cache_aside:
  assumes "slug_param req \<noteq> []" and "redis cfg \<noteq> None" and "cache_up (kv w)"
    and "cache_answer cfg req w = None"
    and "db_up (db w)" and "link_by_slug (db w) (slug_param req) = Some l"
    and "originalUrl l \<noteq> []" and "parse_url cfg (originalUrl l) \<noteq> None"
    and "slug_param req' = slug_param req" and "t < clock w + day_seconds"
  shows "fst (GET cfg req' (snd (GET cfg req w)\<lparr>clock := t, db := d\<rparr>)) =
    Redirect (originalUrl l) (Some 301)"
proof -
  let ?w1 = "snd (GET cfg req w)\<lparr>clock := t, db := d\<rparr>"
  have "cache_answer cfg req' ?w1 = Some (originalUrl l)"
    using assms
    by (simp add: GET_found cache_answer_def cache_written_def dispatch_def cache_lookup_def)
  with assms(1,8,9) show ?thesis by (simp add: GET_hit)
qed

theorem GET_cache_aside_witness:
  "fst (GET demo_config (browser_request ''abc'')
     (snd (GET demo_config (browser_request ''abc'') abc_world)
        \<lparr>clock := 86499, db := empty_store\<lparr>db_up := False\<rparr>\<rparr>)) =
     Redirect ''https://example.com'' (Some 301)"
  using GET_cache_aside [of "browser_request ''abc''" demo_config abc_world
      "\<lparr>link_id = 0, slug = ''abc'', originalUrl = ''https://example.com'',
        totalClicks = 0, createdAt = 7\<rparr>"
      "browser_request ''abc''" 86499 "empty_store\<lparr>db_up := False\<rparr>"]
  by (simp add: abc_world_facts empty_cache_def day_seconds_def)

text \<open>
  C33. A failing cache is no cache. While the cache is down, \<open>GET\<close> answers and
  changes the world exactly as it does in a deployment without a Redis client:
  the read fails into a miss and the write is dropped.
\<close>

theorem GET_cache_down:
  assumes "\<not> cache_up (kv w)"
  shows "GET cfg req w = GET (cfg\<lparr>redis := None\<rparr>) req w"
  using assms
  by (cases "redis cfg")
    (auto simp: GET_def cache_phase_def store_phase_def Let_def
      split: sum.splits option.splits)

theorem GET_cache_down_witness:
  "\<not> cache_up (kv (abc_world\<lparr>kv := empty_cache\<lparr>cache_up := False\<rparr>\<rparr>))
   \<and> fst (GET demo_config (browser_request ''abc'')
        (abc_world\<lparr>kv := empty_cache\<lparr>cache_up := False\<rparr>\<rparr>)) =
      Redirect ''https://example.com'' (Some 301)"
  using GET_cache_down [of "abc_world\<lparr>kv := empty_cache\<lparr>cache_up := False\<rparr>\<rparr>" demo_config
      "browser_request ''abc''"]
  by (simp add: GET_found cache_answer_def abc_world_facts)

text \<open>
  What \<open>GET\<close> starts and what it leaves alone. \<open>GET\<close> never writes the store,
  the clock or the tape. In a world whose cache agrees with the store and whose
  destinations are valid, while the store answers, it starts exactly one
  tracker when it redirects to a destination, with the link's id on the store
  path and without it on the cache path, and none for an unknown slug.
\<close>

theorem GET_dispatch:
  assumes "slug_param req \<noteq> []" and "db_up (db w)"
    and "cache_coherent w" and "urls_valid cfg (db w)"
  shows "db (snd (GET cfg req w)) = db w
    \<and> pending (snd (GET cfg req w)) =
        pending w @
          (case resolve (db w) (slug_param req) of
             None \<Rightarrow> []
           | Some url \<Rightarrow>
               [\<lparr>task_slug = slug_param req, task_req = req,
                 task_linkId =
                   (if cache_answer cfg req w = None
                    then map_option link_id (link_by_slug (db w) (slug_param req))
                    else None)\<rparr>])"
  using assms by (rule GET_dispatches)

theorem GET_dispatch_witness:
  "pending (snd (GET demo_config (browser_request ''abc'') abc_world)) =
     [\<lparr>task_slug = ''abc'', task_req = browser_request ''abc'', task_linkId = Some 0\<rparr>]
   \<and> pending (snd (GET demo_config (browser_request ''doesnotexist'') abc_world)) = []"
  using GET_dispatch [of "browser_request ''abc''" abc_world demo_config]
    GET_dispatch [of "browser_request ''doesnotexist''" abc_world demo_config]
  by (simp add: abc_world_facts) (simp add: resolve_def link_by_slug_def abc_store_def
      cache_answer_def empty_cache_def cache_lookup_def)

text \<open>
  C34. The 500 answer. In a world whose cache agrees with the store and whose
  destinations are valid, a request for a non-empty slug is answered with the plain-text 500 exactly
  when the store is down and the cache has no answer; a cached slug is still
  redirected while the store is down. An empty slug is redirected to the root.
\<close>

theorem GET_store_down:
  assumes "cache_coherent w" and "urls_valid cfg (db w)" and "\<not> db_up (db w)"
  shows "fst (GET cfg req w) =
    (if slug_param req = [] then Redirect (origin req @ ''/'') None
     else case cache_answer cfg req w of
            Some url \<Rightarrow> Redirect url (Some 301)
          | None \<Rightarrow> PlainText 500 ''Internal Server Error'')"
proof (cases "slug_param req = []")
  case True
  then show ?thesis by (simp add: GET_def)
next
  case False
  show ?thesis
  proof (cases "cache_answer cfg req w")
    case None
    with False assms(3) show ?thesis by (simp add: GET_down server_error_def)
  next
    case (Some url)
    with cache_answer_coherent [OF assms(1,2) Some] False show ?thesis
      by (simp add: GET_hit)
  qed
qed

theorem GET_store_down_witness:
  "fst (GET demo_config (browser_request ''abc'') (abc_world\<lparr>db := abc_store\<lparr>db_up := False\<rparr>\<rparr>))
     = PlainText 500 ''Internal Server Error''"
  using GET_store_down [of "abc_world\<lparr>db := abc_store\<lparr>db_up := False\<rparr>\<rparr>" demo_config
      "browser_request ''abc''"]
  by (simp add: cache_coherent_def urls_valid_def abc_store_def empty_cache_def
      scheme_parser_def cache_answer_def cache_lookup_def)

section \<open>Properties of the click tracker\<close>

lemma trackClickAsync_by_slug:
  assumes "\<not> is_bot (user_agent_of (task_req t))" and "db_up st"
    and "link_by_slug st (task_slug t) = Some l"
    and "task_linkId t = None \<or> task_linkId t = Some (link_id l)"
  shows "trackClickAsync cfg now t st =
    st\<lparr>clicks := clicks st @
          [\<lparr>linkId = link_id l, ipHash = sha256_hex cfg (client_ip (task_req t)),
            userAgent = user_agent_of (task_req t), timestamp = now\<rparr>],
       links := map (bump_clicks (link_id l)) (links st)\<rparr>"
proof -
  from assms(3) have "l \<in> set (links st)"
    by (simp add: link_by_slug_Some)
  then have "link_by_id st (link_id l) \<noteq> None"
    by (rule link_by_id_member)
  moreover from assms(2-4) have "target_link st t = Inr (Some (link_id l))"
    by (auto simp: target_link_def findUnique_string)
  ultimately show ?thesis
    using assms(1,2) by (simp add: trackClickAsync_recorded)
qed

lemma trackClickAsync_dropped:
  assumes "\<not> db_up st
    \<or> (task_linkId t = None \<and> link_by_slug st (task_slug t) = None)
    \<or> (\<exists>i. task_linkId t = Some i \<and> link_by_id st i = None)"
  shows "trackClickAsync cfg now t st = st"
  using assms
  by (auto simp: trackClickAsync_def target_link_def findUnique_string click_transaction_def
      split: option.splits sum.splits)

text \<open>
  C10. Bot filtering. A request whose user agent contains \<open>bot\<close> or \<open>crawl\<close> in
  any mix of upper and lower case leaves the store as it is: no click row, no
  counter change.
\<close>

theorem trackClickAsync_filters_bots:
  assumes "user_agent_of (task_req t) = pre @ word @ post"
    and "toLowerCase word = ''bot'' \<or> toLowerCase word = ''crawl''"
  shows "trackClickAsync cfg now t st = st"
proof -
  from assms(2) have "str_includes (toLowerCase (pre @ word @ post)) ''bot''
      \<or> str_includes (toLowerCase (pre @ word @ post)) ''crawl''"
    using includes_lower_middle [of word _ pre post] by blast
  with assms(1) have "is_bot (user_agent_of (task_req t))"
    by (simp only: is_bot_def)
  then show ?thesis by (rule trackClickAsync_bot)
qed

theorem trackClickAsync_filters_bots_witness:
  "trackClickAsync demo_config 101
     \<lparr>task_slug = ''abc'', task_req = googlebot_request ''abc'', task_linkId = Some 0\<rparr> abc_store
   = abc_store"
  using trackClickAsync_filters_bots
    [of "\<lparr>task_slug = ''abc'', task_req = googlebot_request ''abc'', task_linkId = Some 0\<rparr>"
      "''Mozilla/5.0 (compatible; Google''" "''bot''" "''/2.1)''" demo_config 101 abc_store]
  by (simp add: lower_char_def)

text \<open>
  C3. Click accounting for one click. For a user agent that is no bot, while
  the store answers and the slug of the task resolves, the tracker appends one
  click row for the link, holding the SHA-256 digest of the client address
  (never the address), the user agent and the time, and adds one to that
  link's counter; this holds on the store path (id passed) and on the cache
  path (id looked up).
\<close>

theorem trackClickAsync_records:
  assumes "\<not> is_bot (user_agent_of (task_req t))" and "db_up st"
    and "link_by_slug st (task_slug t) = Some l"
    and "task_linkId t = None \<or> task_linkId t = Some (link_id l)"
  shows "clicks (trackClickAsync cfg now t st) =
      clicks st @ [\<lparr>linkId = link_id l, ipHash = sha256_hex cfg (client_ip (task_req t)),
                     userAgent = user_agent_of (task_req t), timestamp = now\<rparr>]
    \<and> links (trackClickAsync cfg now t st) = map (bump_clicks (link_id l)) (links st)
    \<and> click_count (trackClickAsync cfg now t st) (link_id l) = Suc (click_count st (link_id l))"
  by (simp add: trackClickAsync_by_slug [OF assms] click_count_def)

theorem trackClickAsync_records_witness:
  "clicks (trackClickAsync demo_config 101
     \<lparr>task_slug = ''abc'', task_req = browser_request ''abc'', task_linkId = None\<rparr> abc_store)
   = [\<lparr>linkId = 0, ipHash = ''sha256:203.0.113.9'', userAgent = ''Mozilla/5.0 Firefox/120.0'',
       timestamp = 101\<rparr>]
   \<and> map totalClicks (links (trackClickAsync demo_config 101
     \<lparr>task_slug = ''abc'', task_req = browser_request ''abc'', task_linkId = None\<rparr> abc_store))
   = [1]"
  using trackClickAsync_records
    [of "\<lparr>task_slug = ''abc'', task_req = browser_request ''abc'', task_linkId = None\<rparr>"
      abc_store
      "\<lparr>link_id = 0, slug = ''abc'', originalUrl = ''https://example.com'',
        totalClicks = 0, createdAt = 7\<rparr>" demo_config 101]
  by (simp add: is_bot_examples abc_world_facts) (simp add: abc_store_def bump_clicks_def)

text \<open>
  The tracker keeps the invariant of the tables; in particular every
  link's \<open>totalClicks\<close> stays equal to the number of click rows of the link.
\<close>

theorem trackClickAsync_store_inv:
  assumes "store_inv st"
  shows "store_inv (trackClickAsync cfg now t st)
    \<and> list_all (\<lambda>l. totalClicks l = click_count (trackClickAsync cfg now t st) (link_id l))
         (links (trackClickAsync cfg now t st))"
  using trackClickAsync_inv [OF assms, of cfg now t]
  by (simp add: store_inv_def counters_exact_def)

theorem trackClickAsync_store_inv_witness:
  "store_inv abc_store
   \<and> store_inv (trackClickAsync demo_config 101
       \<lparr>task_slug = ''abc'', task_req = browser_request ''abc'', task_linkId = None\<rparr> abc_store)"
  using trackClickAsync_store_inv [OF store_inv_abc_store, of demo_config 101
      "\<lparr>task_slug = ''abc'', task_req = browser_request ''abc'', task_linkId = None\<rparr>"]
  by (simp add: store_inv_abc_store)

text \<open>
  C27. Isolation of the tracker. Whatever the task and the state of the store,
  the tracker returns a store (it never raises) in which every slug resolves
  as before and no link was added, removed or given another slug, destination
  or id; it appends at most one click row, and the row it appends holds the
  digest of the client address.
\<close>

theorem trackClickAsync_isolated:
  "resolve (trackClickAsync cfg now t st) = resolve st
   \<and> map slug (links (trackClickAsync cfg now t st)) = map slug (links st)
   \<and> map originalUrl (links (trackClickAsync cfg now t st)) = map originalUrl (links st)
   \<and> map link_id (links (trackClickAsync cfg now t st)) = map link_id (links st)
   \<and> db_up (trackClickAsync cfg now t st) = db_up st
   \<and> (clicks (trackClickAsync cfg now t st) = clicks st
      \<or> (\<exists>c. clicks (trackClickAsync cfg now t st) = clicks st @ [c]
            \<and> ipHash c = sha256_hex cfg (client_ip (task_req t))))"
proof -
  consider "trackClickAsync cfg now t st = st"
    | i where "click_transaction st now i (sha256_hex cfg (client_ip (task_req t)))
        (user_agent_of (task_req t)) = Inr (trackClickAsync cfg now t st)"
    using trackClickAsync_cases [of cfg now t st] by blast
  then show ?thesis
  proof cases
    case 1
    then show ?thesis by simp
  next
    case 2
    from click_transaction_Inr [OF 2] click_transaction_resolve [OF 2]
    show ?thesis
      by (auto simp: comp_def intro!: arg_cong [where f = clicks])
  qed
qed

text \<open>
  Dropped clicks. While the store is down, or when the slug of a cache-path
  task resolves no longer, or when the id of a store-path task names no link,
  the tracker changes nothing and reports nothing.
\<close>

theorem trackClickAsync_drops:
  assumes "\<not> db_up st
    \<or> (task_linkId t = None \<and> link_by_slug st (task_slug t) = None)
    \<or> (\<exists>i. task_linkId t = Some i \<and> link_by_id st i = None)"
  shows "trackClickAsync cfg now t st = st"
  using assms by (rule trackClickAsync_dropped)

theorem trackClickAsync_drops_witness:
  "trackClickAsync demo_config 101
     \<lparr>task_slug = ''doesnotexist'', task_req = browser_request ''doesnotexist'',
      task_linkId = None\<rparr> abc_store = abc_store"
  using trackClickAsync_drops
    [of abc_store "\<lparr>task_slug = ''doesnotexist'', task_req = browser_request ''doesnotexist'',
      task_linkId = None\<rparr>" demo_config 101]
  by (simp add: link_by_slug_def abc_store_def)

end
