(* ===== verification/System.thy ===== *)
theory System
  imports Shorten Redirect
begin

text \<open>
  The deployment as a state machine. A world holds the store, the cache, the
  trackers that were started and have not run yet, the clock and the position
  of the entropy tape. An event is a request to one of the two routes, the run
  of one pending tracker (in any order and at any later time: that is what
  not awaiting \<open>trackClickAsync\<close> amounts to), the passing of time, or a fault of
  a collaborator. \<open>reachable\<close> collects the worlds a deployment can be in;
  \<open>world_inv\<close> is what holds in all of them. The later sections follow the
  slugs through a run: what a step does to the map from slugs to
  destinations, which slug a 201 answer hands out, and what \<open>k\<close> visits and the trackers they start do to the tables.
\<close>

section \<open>Events and steps\<close>

datatype event =
    Shorten "jsval result"   \<comment> \<open>\<open>POST /api/shorten\<close> with this outcome of \<open>req.json()\<close>\<close>
  | Visit request            \<comment> \<open>\<open>GET /[slug]\<close>\<close>
  | RunTracker nat           \<comment> \<open>the pending tracker at this index runs\<close>
  | Tick nat                 \<comment> \<open>so many seconds pass\<close>
  | StoreFault bool          \<comment> \<open>the store goes down (\<open>False\<close>) or comes back\<close>
  | CacheFault bool          \<comment> \<open>the cache goes down or comes back\<close>
  | CacheEvict               \<comment> \<open>the cache loses its entries\<close>

definition POST_world :: "config \<Rightarrow> jsval result \<Rightarrow> world \<Rightarrow> response \<times> world" where
  "POST_world cfg req w =
     (case POST cfg (clock w) req (db w) (rng w) of
        (r, st, pos) \<Rightarrow> (r, w\<lparr>db := st, rng := pos\<rparr>))"

definition run_tracker :: "config \<Rightarrow> nat \<Rightarrow> world \<Rightarrow> world" where
  "run_tracker cfg i w =
     (if i < length (pending w)
      then w\<lparr>db := trackClickAsync cfg (clock w) (pending w ! i) (db w),
             pending := take i (pending w) @ drop (Suc i) (pending w)\<rparr>
      else w)"

fun apply_event :: "config \<Rightarrow> world \<Rightarrow> event \<Rightarrow> response option \<times> world" where
  "apply_event cfg w (Shorten req) = (Some (fst (POST_world cfg req w)), snd (POST_world cfg req w))"
| "apply_event cfg w (Visit req) = (Some (fst (GET cfg req w)), snd (GET cfg req w))"
| "apply_event cfg w (RunTracker i) = (None, run_tracker cfg i w)"
| "apply_event cfg w (Tick n) = (None, w\<lparr>clock := clock w + n\<rparr>)"
| "apply_event cfg w (StoreFault up) = (None, w\<lparr>db := (db w)\<lparr>db_up := up\<rparr>\<rparr>)"
| "apply_event cfg w (CacheFault up) = (None, w\<lparr>kv := (kv w)\<lparr>cache_up := up\<rparr>\<rparr>)"
| "apply_event cfg w CacheEvict = (None, w\<lparr>kv := (kv w)\<lparr>entries := []\<rparr>\<rparr>)"

definition step :: "config \<Rightarrow> world \<Rightarrow> event \<Rightarrow> world" where
  "step cfg w e = snd (apply_event cfg w e)"

fun run :: "config \<Rightarrow> world \<Rightarrow> event list \<Rightarrow> world" where
  "run cfg w [] = w"
| "run cfg w (e # es) = run cfg (step cfg w e) es"

definition init_world :: world where
  "init_world = \<lparr>db = empty_store, kv = empty_cache, pending = [], clock = 0, rng = 0\<rparr>"

inductive reachable :: "config \<Rightarrow> world \<Rightarrow> bool" for cfg :: config where
  reach_init: "reachable cfg init_world"
| reach_step: "reachable cfg w \<Longrightarrow> reachable cfg (step cfg w e)"

lemma run_append: "run cfg w (es @ fs) = run cfg (run cfg w es) fs"
  by (induction es arbitrary: w) simp_all

lemma reachable_run: "reachable cfg w \<Longrightarrow> reachable cfg (run cfg w es)"
  by (induction es arbitrary: w) (auto intro: reachable.reach_step)

lemma step_simps [simp]:
  "step cfg w (Shorten req) = snd (POST_world cfg req w)"
  "step cfg w (Visit rq) = snd (GET cfg rq w)"
  "step cfg w (RunTracker i) = run_tracker cfg i w"
  "step cfg w (Tick n) = w\<lparr>clock := clock w + n\<rparr>"
  "step cfg w (StoreFault up) = w\<lparr>db := (db w)\<lparr>db_up := up\<rparr>\<rparr>"
  "step cfg w (CacheFault up) = w\<lparr>kv := (kv w)\<lparr>cache_up := up\<rparr>\<rparr>"
  "step cfg w CacheEvict = w\<lparr>kv := (kv w)\<lparr>entries := []\<rparr>\<rparr>"
  by (simp_all add: step_def)

section \<open>The invariant of the world\<close>

definition task_ok :: "store \<Rightarrow> track_task \<Rightarrow> bool" where
  "task_ok st t =
     (case task_linkId t of
        None \<Rightarrow> True
      | Some i \<Rightarrow> map_option link_id (link_by_slug st (task_slug t)) = Some i)"

definition tasks_ok :: "world \<Rightarrow> bool" where
  "tasks_ok w = list_all (task_ok (db w)) (pending w)"

definition world_inv :: "config \<Rightarrow> world \<Rightarrow> bool" where
  "world_inv cfg w \<longleftrightarrow>
     store_inv (db w) \<and> urls_valid cfg (db w) \<and> cache_coherent w \<and> tasks_ok w"

lemma world_inv_init: "world_inv cfg init_world"
  by (simp add: world_inv_def init_world_def store_inv_empty urls_valid_def cache_coherent_def
      tasks_ok_def empty_cache_def)

subsection \<open>How one step changes what the store resolves\<close>

definition id_of_slug :: "store \<Rightarrow> string \<Rightarrow> nat option" where
  "id_of_slug st s = map_option link_id (link_by_slug st s)"

lemma link_by_slug_append:
  "link_by_slug (st\<lparr>links := links st @ [l], next_id := n\<rparr>) s =
     (case link_by_slug st s of Some k \<Rightarrow> Some k | None \<Rightarrow> if slug l = s then Some l else None)"
  by (simp add: link_by_slug_def find_append_snoc)

lemma link_by_slug_bump:
  "link_by_slug (st\<lparr>clicks := cs, links := map (bump_clicks i) (links st)\<rparr>) s =
     map_option (bump_clicks i) (link_by_slug st s)"
  by (simp add: link_by_slug_def find_map_bump)

lemma trackClickAsync_id_of_slug: "id_of_slug (trackClickAsync cfg now t st) = id_of_slug st"
proof -
  consider "trackClickAsync cfg now t st = st"
    | i where "click_transaction st now i (sha256_hex cfg (client_ip (task_req t)))
        (user_agent_of (task_req t)) = Inr (trackClickAsync cfg now t st)"
    using trackClickAsync_cases [of cfg now t st] by blast
  then show ?thesis
  proof cases
    case 2
    from click_transaction_Inr [OF 2] show ?thesis
      by (auto simp: id_of_slug_def fun_eq_iff link_by_slug_def find_map_bump option.map_comp
          comp_def)
  qed simp
qed

lemma trackClickAsync_urls_valid:
  "urls_valid cfg' (trackClickAsync cfg now t st) = urls_valid cfg' st"
proof -
  consider "trackClickAsync cfg now t st = st"
    | i where "click_transaction st now i (sha256_hex cfg (client_ip (task_req t)))
        (user_agent_of (task_req t)) = Inr (trackClickAsync cfg now t st)"
    using trackClickAsync_cases [of cfg now t st] by blast
  then show ?thesis
  proof cases
    case 2
    from click_transaction_Inr [OF 2] obtain cs where
      "trackClickAsync cfg now t st = st\<lparr>clicks := cs, links := map (bump_clicks i) (links st)\<rparr>"
      by auto
    then have "links (trackClickAsync cfg now t st) = map (bump_clicks i) (links st)"
      by simp
    then show ?thesis by (simp add: urls_valid_def list_all_iff)
  qed simp
qed

lemma task_ok_cong:
  "id_of_slug st' = id_of_slug st \<Longrightarrow> task_ok st' t = task_ok st t"
  by (simp add: task_ok_def id_of_slug_def fun_eq_iff split: option.splits)

lemma entry_coherent_cong:
  "resolve st' = resolve st \<Longrightarrow> entry_coherent st' e = entry_coherent st e"
  by (simp add: entry_coherent_def)

lemma db_up_coherent [simp]:
  "entry_coherent (st\<lparr>db_up := b\<rparr>) = entry_coherent st"
  "task_ok (st\<lparr>db_up := b\<rparr>) = task_ok st"
  by (simp_all add: entry_coherent_def task_ok_def fun_eq_iff split: option.splits)

subsection \<open>Each kind of step keeps the invariant\<close>

lemma created_keeps:
  assumes "s \<notin> slugs st"
    and st': "st' = st\<lparr>links := links st @ [l], next_id := n\<rparr>" and "slug l = s"
  shows "entry_coherent st e \<Longrightarrow> entry_coherent st' e"
    and "task_ok st t \<Longrightarrow> task_ok st' t"
  using assms
  by (auto simp: entry_coherent_def task_ok_def resolve_def link_by_slug_append
      in_slugs_iff split: option.splits)

lemma POST_world_inv:
  assumes "world_inv cfg w"
  shows "world_inv cfg (snd (POST_world cfg req w))"
proof -
  obtain r st' pos' where P: "POST cfg (clock w) req (db w) (rng w) = (r, st', pos')"
    by (cases "POST cfg (clock w) req (db w) (rng w)") auto
  show ?thesis
  proof (cases "\<exists>body. r = Json 201 body")
    case False
    with POST_unchanged [OF P] have "st' = db w" by simp
    with P assms show ?thesis
      by (simp add: POST_world_def world_inv_def cache_coherent_def tasks_ok_def)
  next
    case True
    then obtain body where r: "r = Json 201 body" by blast
    from POST_created_link [OF P [unfolded r]] obtain url s where
      new: "url \<noteq> []" "parse_url cfg url \<noteq> None" "s \<notin> slugs (db w)"
      and st': "st' = (db w)\<lparr>links := links (db w) @
          [\<lparr>link_id = next_id (db w), slug = s, originalUrl = url, totalClicks = 0,
            createdAt = clock w\<rparr>], next_id := Suc (next_id (db w))\<rparr>"
      by blast
    have "store_inv st'"
      using POST_cases [of cfg "clock w" req "db w" "rng w"] P r assms
      by (auto simp: world_inv_def dest: link_create_inv)
    moreover have "urls_valid cfg st'"
      using assms new by (simp add: world_inv_def urls_valid_def st')
    moreover have "list_all (entry_coherent st') (entries (kv w))"
      using assms created_keeps(1) [OF new(3) st']
      by (auto simp: world_inv_def cache_coherent_def list_all_iff)
    moreover have "list_all (task_ok st') (pending w)"
      using assms created_keeps(2) [OF new(3) st']
      by (auto simp: world_inv_def tasks_ok_def list_all_iff)
    ultimately show ?thesis
      using P by (simp add: POST_world_def world_inv_def cache_coherent_def tasks_ok_def)
  qed
qed

lemma GET_world_inv:
  assumes "world_inv cfg w"
  shows "world_inv cfg (snd (GET cfg req w))"
proof -
  let ?w' = "snd (GET cfg req w)"
  have db: "db ?w' = db w" by (rule GET_frame)
  have "list_all (entry_coherent (db w)) (entries (kv ?w'))"
    using assms
    by (auto simp: world_inv_def cache_coherent_def GET_def cache_phase_def store_phase_def
        dispatch_def Let_def redis_set_def findUnique_string entry_coherent_def cache_key_def
        resolve_def split: sum.splits option.splits if_splits)
  moreover have "list_all (task_ok (db w)) (pending ?w')"
    using assms
    by (auto simp: world_inv_def tasks_ok_def GET_def cache_phase_def store_phase_def
        dispatch_def Let_def task_ok_def findUnique_string
        split: sum.splits option.splits if_splits)
  ultimately show ?thesis
    using assms db by (simp add: world_inv_def cache_coherent_def tasks_ok_def)
qed

lemma run_tracker_inv:
  assumes "world_inv cfg w"
  shows "world_inv cfg (run_tracker cfg i w)"
proof (cases "i < length (pending w)")
  case False
  with assms show ?thesis by (simp add: run_tracker_def)
next
  case True
  let ?st' = "trackClickAsync cfg (clock w) (pending w ! i) (db w)"
  have "store_inv ?st'" "urls_valid cfg ?st'"
    using assms by (simp_all add: world_inv_def trackClickAsync_inv trackClickAsync_urls_valid)
  moreover have "list_all (entry_coherent ?st') (entries (kv w))"
    using assms
    by (simp add: world_inv_def cache_coherent_def
        entry_coherent_cong [OF trackClickAsync_resolve] cong: list.pred_cong)
  moreover have "list_all (task_ok ?st') (take i (pending w) @ drop (Suc i) (pending w))"
    using assms
    by (auto simp: world_inv_def tasks_ok_def list_all_iff
        task_ok_cong [OF trackClickAsync_id_of_slug] dest: in_set_takeD in_set_dropD)
  ultimately show ?thesis
    using True by (simp add: run_tracker_def world_inv_def cache_coherent_def tasks_ok_def)
qed

lemma step_world_inv: "world_inv cfg w \<Longrightarrow> world_inv cfg (step cfg w e)"
proof (cases e)
  case (Shorten req)
  assume "world_inv cfg w"
  with Shorten show ?thesis by (simp add: POST_world_inv)
next
  case (Visit req)
  assume "world_inv cfg w"
  with Visit show ?thesis by (simp add: GET_world_inv)
next
  case (RunTracker i)
  assume "world_inv cfg w"
  with RunTracker show ?thesis by (simp add: run_tracker_inv)
qed (auto simp: world_inv_def cache_coherent_def tasks_ok_def urls_valid_def
    entry_coherent_def task_ok_def)

lemma reachable_inv: "reachable cfg w \<Longrightarrow> world_inv cfg w"
  by (induction rule: reachable.induct) (auto intro: world_inv_init step_world_inv)

section \<open>What a step does to the slugs\<close>

lemma POST_world_db:
  "db (snd (POST_world cfg req w)) = db w
   \<or> (\<exists>su s u. fst (POST_world cfg req w) = Json 201 (SuccessBody su s u)
        \<and> s \<noteq> [] \<and> s \<notin> slugs (db w)
        \<and> resolve (db (snd (POST_world cfg req w))) = (resolve (db w))(s \<mapsto> u)
        \<and> db_up (db (snd (POST_world cfg req w))) = db_up (db w)
        \<and> clicks (db (snd (POST_world cfg req w))) = clicks (db w))"
proof -
  obtain r st' pos' where P: "POST cfg (clock w) req (db w) (rng w) = (r, st', pos')"
    by (cases "POST cfg (clock w) req (db w) (rng w)") auto
  show ?thesis
  proof (cases "\<exists>body. r = Json 201 body")
    case True
    then obtain body where "r = Json 201 body" ..
    with POST_created_link [of cfg "clock w" req "db w" "rng w" body st' pos'] P
    show ?thesis
      by (auto simp: POST_world_def resolve_def fun_eq_iff link_by_slug_append in_slugs_iff
          split: option.splits)
  next
    case False
    with POST_unchanged [OF P] show ?thesis by (simp add: POST_world_def P)
  qed
qed

lemma POST_world_created:
  assumes "fst (POST_world cfg req w) = Json 201 (SuccessBody su s u)"
  shows "s \<noteq> [] \<and> s \<notin> slugs (db w) \<and> resolve (db (snd (POST_world cfg req w))) s = Some u"
proof -
  obtain r st' pos' where P: "POST cfg (clock w) req (db w) (rng w) = (r, st', pos')"
    by (cases "POST cfg (clock w) req (db w) (rng w)") auto
  with assms have "r = Json 201 (SuccessBody su s u)" by (simp add: POST_world_def)
  with POST_created_link [of cfg "clock w" req "db w" "rng w" _ st' pos'] P
  show ?thesis
    by (auto simp: POST_world_def resolve_def link_by_slug_append in_slugs_iff
        split: option.splits)
qed

lemma run_tracker_resolve: "resolve (db (run_tracker cfg i w)) = resolve (db w)"
  by (simp add: run_tracker_def trackClickAsync_resolve)

lemma step_resolve_le: "resolve (db w) \<subseteq>\<^sub>m resolve (db (step cfg w e))"
proof (cases e)
  case (Shorten req)
  with POST_world_db [of cfg req w] show ?thesis
    by (auto simp: map_le_def resolve_None [symmetric])
next
  case (Visit rq)
  then show ?thesis by (simp add: GET_frame)
qed (simp_all add: run_tracker_resolve resolve_def link_by_slug_def)

lemma run_resolve_le: "resolve (db w) \<subseteq>\<^sub>m resolve (db (run cfg w es))"
proof (induction es arbitrary: w)
  case (Cons e es)
  from step_resolve_le Cons [of "step cfg w e"] show ?case
    by (auto intro: map_le_trans)
qed simp

lemma step_slugs_mono: "slugs (db w) \<subseteq> slugs (db (step cfg w e))"
  using step_resolve_le [of w cfg e] by (auto simp: dom_resolve [symmetric] dest: map_le_implies_dom_le)

section \<open>Slugs handed out by a step\<close>

lemma apply_event_success:
  assumes "fst (apply_event cfg w e) = Some (Json code (SuccessBody su s u))"
  shows "s \<notin> slugs (db w) \<and> s \<in> slugs (db (step cfg w e)) \<and> code = 201"
proof (cases e)
  case (Shorten req)
  with assms have r: "fst (POST_world cfg req w) = Json code (SuccessBody su s u)" by simp
  obtain r st' pos' where P: "POST cfg (clock w) req (db w) (rng w) = (r, st', pos')"
    by (cases "POST cfg (clock w) req (db w) (rng w)") auto
  with r POST_cases [of cfg "clock w" req "db w" "rng w"] have "code = 201"
    by (auto simp: POST_world_def)
  with r POST_world_created [of cfg req w su s u] Shorten show ?thesis
    by (auto simp: dom_resolve [symmetric])
next
  case (Visit rq)
  with assms GET_not_json show ?thesis by simp
qed (use assms in simp_all)

section \<open>Visits and the trackers they start\<close>

definition task_for :: "string \<Rightarrow> request \<Rightarrow> nat \<Rightarrow> track_task \<Rightarrow> bool" where
  "task_for s rq i t \<longleftrightarrow>
     task_slug t = s \<and> task_req t = rq \<and> (task_linkId t = None \<or> task_linkId t = Some i)"

lemma visit_once:
  assumes "world_inv cfg w" and "db_up (db w)" and "link_by_slug (db w) s = Some l"
    and "slug_param rq = s" and "s \<noteq> []"
  shows "\<exists>t. task_for s rq (link_id l) t \<and> db (snd (GET cfg rq w)) = db w \<and> pending (snd (GET cfg rq w)) = pending w @ [t]"
  using assms GET_dispatches [of rq w cfg]
  by (auto simp: world_inv_def resolve_def task_for_def)

lemma visits_pending:
  assumes "world_inv cfg w" and "db_up (db w)" and "link_by_slug (db w) s = Some l"
    and "slug_param rq = s" and "s \<noteq> []"
  shows "db (run cfg w (replicate k (Visit rq))) = db w
    \<and> clock (run cfg w (replicate k (Visit rq))) = clock w
    \<and> (\<exists>ts. pending (run cfg w (replicate k (Visit rq))) = pending w @ ts
          \<and> length ts = k \<and> list_all (task_for s rq (link_id l)) ts)"
  using assms
proof (induction k arbitrary: w)
  case (Suc k)
  let ?w = "snd (GET cfg rq w)"
  from visit_once [OF Suc.prems] obtain t where
    t: "task_for s rq (link_id l) t" "db ?w = db w" "pending ?w = pending w @ [t]" by blast
  have "world_inv cfg ?w" using GET_world_inv [OF Suc.prems(1)] .
  with Suc.IH [of ?w] Suc.prems t obtain ts where
    "db (run cfg ?w (replicate k (Visit rq))) = db w"
    "clock (run cfg ?w (replicate k (Visit rq))) = clock w"
    "pending (run cfg ?w (replicate k (Visit rq))) = pending w @ t # ts"
    "length ts = k" "list_all (task_for s rq (link_id l)) ts"
    by (auto simp: GET_frame)
  with t(1) show ?case by (intro conjI exI [of _ "t # ts"]) simp_all
qed simp

lemma click_count_snoc:
  "click_count (st\<lparr>clicks := clicks st @ [c], links := ls\<rparr>) i =
     (if linkId c = i then Suc (click_count st i) else click_count st i)"
  by (simp add: click_count_def)

lemma trackers_counted:
  assumes "db_up (db w)" and "link_by_slug (db w) s = Some l"
    and "list_all (task_for s rq (link_id l)) (pending w)"
    and "\<not> is_bot (user_agent_of rq)"
  shows "pending (run cfg w (replicate (length (pending w)) (RunTracker 0))) = []
    \<and> click_count (db (run cfg w (replicate (length (pending w)) (RunTracker 0)))) (link_id l) =
        click_count (db w) (link_id l) + length (pending w)
    \<and> link_by_slug (db (run cfg w (replicate (length (pending w)) (RunTracker 0)))) s =
        Some (l\<lparr>totalClicks := totalClicks l + length (pending w)\<rparr>)"
  using assms
proof (induction "pending w" arbitrary: w l)
  case Nil
  then show ?case by simp
next
  case (Cons t ts)
  let ?w = "run_tracker cfg 0 w"
  let ?l = "l\<lparr>totalClicks := Suc (totalClicks l)\<rparr>"
  from Cons.hyps(2) [symmetric] Cons.prems have t: "task_for s rq (link_id l) t"
    and ts: "list_all (task_for s rq (link_id l)) ts" by simp_all
  from t Cons.prems have db': "db ?w = (db w)\<lparr>clicks := clicks (db w) @
          [\<lparr>linkId = link_id l, ipHash = sha256_hex cfg (client_ip (task_req t)),
            userAgent = user_agent_of (task_req t), timestamp = clock w\<rparr>],
       links := map (bump_clicks (link_id l)) (links (db w))\<rparr>"
    using trackClickAsync_by_slug [of t "db w" l cfg "clock w"] Cons.hyps(2) [symmetric]
    by (simp add: run_tracker_def task_for_def)
  have p': "pending ?w = ts" using Cons.hyps(2) [symmetric] by (simp add: run_tracker_def)
  have l': "link_by_slug (db ?w) s = Some ?l"
    using Cons.prems(2) by (simp add: db' link_by_slug_bump bump_clicks_def)
  have c': "click_count (db ?w) (link_id l) = Suc (click_count (db w) (link_id l))"
    by (simp add: db' click_count_snoc)
  have "db_up (db ?w)" using Cons.prems(1) by (simp add: db')
  from Cons.hyps(1) [of ?w ?l, OF p' [symmetric] this l'] ts Cons.prems(4) p' c'
  show ?case using Cons.hyps(2) [symmetric] by simp
qed

section \<open>Concrete runs\<close>

lemma abc_world_run:
  "run demo_config init_world
     [Tick 7, Shorten (shorten_body ''https://example.com'' (JStr ''abc'')), Tick 93] = abc_world"
  by (simp add: POST_world_def POST_abc init_world_def abc_world_def)

lemma abc_world_reachable: "reachable demo_config abc_world"
  using reachable_run [OF reach_init, of demo_config
      "[Tick 7, Shorten (shorten_body ''https://example.com'' (JStr ''abc'')), Tick 93]"]
  by (simp only: abc_world_run)

lemma visit_abc_world:
  "kv (step demo_config abc_world (Visit (browser_request ''abc''))) =
     empty_cache\<lparr>entries := [(''link:abc'', ''https://example.com'', 86500)]\<rparr>"
  using GET_found [of "browser_request ''abc''" demo_config abc_world]
  by (simp add: abc_world_facts cache_written_def empty_cache_def day_seconds_def cache_key_def
      scheme_parser_def dispatch_def)

section \<open>Properties of the reachable worlds\<close>

text \<open>
  Click accounting as an invariant: in every reachable world the
  \<open>totalClicks\<close> of each link equals the number of ClickLog rows that refer
  to it; no interleaving of redirects and trackers loses or doubles an update.
\<close>

theorem reachable_counters_exact:
  assumes "reachable cfg w" and "link_by_id (db w) i = Some l"
  shows "totalClicks l = click_count (db w) i"
  using reachable_inv [OF assms(1)] assms(2)
  by (auto simp: world_inv_def store_inv_def counters_exact_def list_all_iff
      dest!: link_by_id_Some)

theorem reachable_counters_exact_witness:
  "reachable demo_config abc_world
   \<and> link_by_id (db abc_world) 0 =
       Some \<lparr>link_id = 0, slug = ''abc'', originalUrl = ''https://example.com'',
             totalClicks = 0, createdAt = 7\<rparr>
   \<and> click_count (db abc_world) 0 = 0"
  using reachable_counters_exact [of demo_config abc_world 0] abc_world_reachable
  by (simp add: link_by_id_def abc_store_def)

text \<open>
  The cache never lies: in every reachable world, at every time, an entry
  the cache would still serve for a slug is the destination the store holds
  for that slug. Entries are only absent or expired, never wrong.
\<close>

theorem reachable_cache_sound:
  assumes "reachable cfg w" and "cache_lookup (kv w) now (cache_key s) = Some url"
  shows "resolve (db w) s = Some url"
  using reachable_inv [OF assms(1)] cache_coherentD [OF _ assms(2)] by (simp add: world_inv_def)

theorem reachable_cache_sound_witness:
  "reachable demo_config (step demo_config abc_world (Visit (browser_request ''abc'')))
   \<and> cache_lookup (kv (step demo_config abc_world (Visit (browser_request ''abc''))))
        500 (cache_key ''abc'') = Some ''https://example.com''
   \<and> resolve (db (step demo_config abc_world (Visit (browser_request ''abc'')))) ''abc'' =
        Some ''https://example.com''"
  using reachable_cache_sound [of demo_config
      "step demo_config abc_world (Visit (browser_request ''abc''))" 500 "''abc''"
      "''https://example.com''"]
    reachable.reach_step [OF abc_world_reachable, of "Visit (browser_request ''abc'')"]
  by (simp only: visit_abc_world) (simp add: cache_lookup_def cache_key_def)

end
