(* ===== verification/Trackers.thy ===== *)
theory Trackers
  imports System "HOL-Library.Multiset"
begin

text \<open>
  The order of the trackers. \<open>GET\<close> does not await \<open>trackClickAsync\<close>, so the
  trackers of several visits run in an order nobody controls. What the
  tracker promises is stated over tables whose click rows are a multiset:
  one row and one increment per click that counts. \<open>trackClickAsync\<close>
  implements that promise, and on those tables two trackers commute, so the
  tables a deployment ends with do not depend on the order in which its
  pending trackers fired.
\<close>

section \<open>The tables without the order of the rows\<close>

record tables =
  t_links :: "link list"
  t_rows :: "clickLog multiset"
  t_next :: nat
  t_up :: bool

definition tables_of :: "store \<Rightarrow> tables" where
  "tables_of st =
     \<lparr>t_links = links st, t_rows = mset (clicks st), t_next = next_id st, t_up = db_up st\<rparr>"

text \<open>The link a click is booked on: the id that was passed, or the id under the slug.\<close>

definition booked_on :: "link list \<Rightarrow> track_task \<Rightarrow> nat option" where
  "booked_on ls t =
     (case task_linkId t of
        Some i \<Rightarrow> Some i
      | None \<Rightarrow> map_option link_id (find (\<lambda>l. slug l = task_slug t) ls))"

definition counts :: "tables \<Rightarrow> track_task \<Rightarrow> nat option" where
  "counts T t =
     (if is_bot (user_agent_of (task_req t)) \<or> \<not> t_up T then None
      else case booked_on (t_links T) t of
             None \<Rightarrow> None
           | Some i \<Rightarrow> if find (\<lambda>l. link_id l = i) (t_links T) = None then None else Some i)"

text \<open>
  The promise: a click that counts adds its row and one to the counter of its
  link, together; any other click changes nothing.
\<close>

definition track :: "config \<Rightarrow> nat \<Rightarrow> track_task \<Rightarrow> tables \<Rightarrow> tables" where
  "track cfg now t T =
     (case counts T t of
        None \<Rightarrow> T
      | Some i \<Rightarrow>
          T\<lparr>t_rows := add_mset \<lparr>linkId = i, ipHash = sha256_hex cfg (client_ip (task_req t)),
                                 userAgent = user_agent_of (task_req t), timestamp = now\<rparr>
                         (t_rows T),
            t_links := map (bump_clicks i) (t_links T)\<rparr>)"

section \<open>\<open>trackClickAsync\<close> implements \<open>track\<close>\<close>

lemma tables_of_simps [simp]:
  "t_links (tables_of st) = links st" "t_rows (tables_of st) = mset (clicks st)"
  "t_next (tables_of st) = next_id st" "t_up (tables_of st) = db_up st"
  by (simp_all add: tables_of_def)

lemma target_link_booked_on:
  "db_up st \<Longrightarrow> target_link st t = Inr (booked_on (links st) t)"
  by (auto simp: target_link_def booked_on_def findUnique_string link_by_slug_def
      split: option.splits)

lemma target_link_down: "\<not> db_up st \<Longrightarrow> task_linkId t = None \<Longrightarrow> \<exists>e. target_link st t = Inl e"
  by (simp add: target_link_def findUnique_def)

lemma trackClickAsync_tables:
  "tables_of (trackClickAsync cfg now t st) = track cfg now t (tables_of st)"
proof (cases "db_up st")
  case True
  then show ?thesis
    by (auto simp: trackClickAsync_def track_def counts_def target_link_booked_on
        click_transaction_def link_by_id_def tables_of_def split: option.splits)
next
  case False
  then show ?thesis
    by (auto simp: trackClickAsync_def track_def counts_def click_transaction_def
        target_link_def findUnique_def split: option.splits sum.splits)
qed

section \<open>Two trackers commute\<close>

lemma booked_on_bump [simp]: "booked_on (map (bump_clicks i) ls) t = booked_on ls t"
  by (cases "task_linkId t") (simp_all add: booked_on_def find_map_bump option.map_comp comp_def)

lemma find_id_bump [simp]:
  "find (\<lambda>l. link_id l = j) (map (bump_clicks i) ls) = None \<longleftrightarrow>
     find (\<lambda>l. link_id l = j) ls = None"
  by (simp add: find_map_bump)

lemma bump_clicks_commute:
  "bump_clicks i (bump_clicks j l) = bump_clicks j (bump_clicks i l)"
  by (simp add: bump_clicks_def)

lemma counts_track [simp]: "counts (track cfg now t T) t' = counts T t'"
  by (simp add: counts_def track_def split: option.splits)

lemma track_commute:
  "track cfg now t (track cfg now' t' T) = track cfg now' t' (track cfg now t T)"
proof (cases "counts T t"; cases "counts T t'")
  fix i j assume "counts T t = Some i" "counts T t' = Some j"
  then show ?thesis
    using counts_track [of cfg now t T t'] counts_track [of cfg now' t' T t]
    by (simp add: track_def bump_clicks_commute add_mset_commute del: counts_track)
qed (use counts_track [of cfg now t T t'] counts_track [of cfg now' t' T t] in
      \<open>simp_all add: track_def del: counts_track\<close>)

lemma fold_track_mset:
  assumes "mset ts = mset ts'"
  shows "fold (track cfg now) ts T = fold (track cfg now) ts' T"
proof -
  have "fold (track cfg now) ts = fold (track cfg now) ts'"
    by (rule fold_multiset_equiv) (simp_all add: assms fun_eq_iff track_commute)
  then show ?thesis by simp
qed

lemma fold_trackClickAsync_tables:
  "tables_of (fold (trackClickAsync cfg now) ts st) = fold (track cfg now) ts (tables_of st)"
  by (induction ts arbitrary: st) (simp_all add: trackClickAsync_tables)

section \<open>Schedules of the pending trackers\<close>

text \<open>
  A schedule is the list of indices at which \<open>RunTracker\<close> fires. \<open>fired\<close> lists
  the trackers a schedule runs, in the order it runs them; \<open>waiting\<close> is what it
  leaves pending. An index past the end of the queue runs nothing.
\<close>

fun fired :: "nat list \<Rightarrow> track_task list \<Rightarrow> track_task list" where
  "fired [] ts = []"
| "fired (i # js) ts =
     (if i < length ts then ts ! i # fired js (take i ts @ drop (Suc i) ts) else fired js ts)"

fun waiting :: "nat list \<Rightarrow> track_task list \<Rightarrow> track_task list" where
  "waiting [] ts = ts"
| "waiting (i # js) ts =
     (if i < length ts then waiting js (take i ts @ drop (Suc i) ts) else waiting js ts)"

definition run_trackers :: "config \<Rightarrow> nat list \<Rightarrow> world \<Rightarrow> world" where
  "run_trackers cfg js w = run cfg w (map RunTracker js)"

lemma mset_remove_nth:
  assumes "i < length ts"
  shows "add_mset (ts ! i) (mset (take i ts) + mset (drop (Suc i) ts)) = mset ts"
proof -
  from assms have "ts = take i ts @ ts ! i # drop (Suc i) ts" by (rule id_take_nth_drop)
  then have "mset ts = mset (take i ts @ ts ! i # drop (Suc i) ts)" by simp
  then show ?thesis by simp
qed

lemma mset_fired_waiting: "mset (fired js ts) + mset (waiting js ts) = mset ts"
  by (induction js ts rule: fired.induct) (simp_all add: mset_remove_nth)

lemma run_trackers_simps [simp]:
  "run_trackers cfg [] w = w"
  "run_trackers cfg (i # js) w = run_trackers cfg js (run_tracker cfg i w)"
  by (simp_all add: run_trackers_def)


lemma run_trackers_eq:
  "run_trackers cfg js w =
     w\<lparr>db := fold (trackClickAsync cfg (clock w)) (fired js (pending w)) (db w),
       pending := waiting js (pending w)\<rparr>"
proof (induction js arbitrary: w)
  case (Cons i js)
  show ?case by (cases "i < length (pending w)") (simp_all add: Cons run_tracker_def)
qed simp

lemma run_trackers_tables:
  "tables_of (db (run_trackers cfg js w)) =
     fold (track cfg (clock w)) (fired js (pending w)) (tables_of (db w))"
  by (simp add: run_trackers_eq fold_trackClickAsync_tables)

lemma drained_tables:
  assumes "pending (run_trackers cfg js w) = []"
  shows "tables_of (db (run_trackers cfg js w)) =
     fold (track cfg (clock w)) (pending w) (tables_of (db w))"
proof -
  from assms have "waiting js (pending w) = []" by (simp add: run_trackers_eq)
  with mset_fired_waiting [of js "pending w"] have "mset (fired js (pending w)) = mset (pending w)"
    by simp
  from fold_track_mset [OF this] show ?thesis by (simp add: run_trackers_tables)
qed

subsection \<open>The queue drains\<close>

lemma run_tracker_length:
  "i < length (pending w) \<Longrightarrow> Suc (length (pending (run_tracker cfg i w))) = length (pending w)"
  by (simp add: run_tracker_def min_def)

lemma waiting_front: "waiting (replicate (length ts) 0) ts = []"
  by (induction ts) simp_all

lemma waiting_length: "length (waiting js ts) \<le> length ts"
proof (induction js ts rule: waiting.induct)
  case (2 i js ts)
  show ?case
  proof (cases "i < length ts")
    case True
    with 2(1) have "length (waiting js (take i ts @ drop (Suc i) ts)) \<le> length ts - 1"
      by (simp add: min_def)
    with True show ?thesis by simp
  next
    case False
    with 2(2) show ?thesis by simp
  qed
qed simp

section \<open>Two visitors\<close>

text \<open>
  The world of the examples after a visit of Firefox and one of Safari from
  another address, both trackers still pending: the first was started with the
  id of the link, the second after a hit of the cache, without it.
\<close>

definition safari_request :: "string \<Rightarrow> request" where
  "safari_request s =
     \<lparr>slug_param = s, origin = ''https://okg.me'',
      headers = [(''user-agent'', ''Mozilla/5.0 Safari/605.1''),
                 (''x-forwarded-for'', ''198.51.100.4'')],
      req_ip = None\<rparr>"

definition two_pending :: world where
  "two_pending =
     abc_world\<lparr>pending :=
       [\<lparr>task_slug = ''abc'', task_req = browser_request ''abc'', task_linkId = Some 0\<rparr>,
        \<lparr>task_slug = ''abc'', task_req = safari_request ''abc'', task_linkId = None\<rparr>]\<rparr>"

lemma two_pending_simps [simp]:
  "pending two_pending =
     [\<lparr>task_slug = ''abc'', task_req = browser_request ''abc'', task_linkId = Some 0\<rparr>,
      \<lparr>task_slug = ''abc'', task_req = safari_request ''abc'', task_linkId = None\<rparr>]"
  "db two_pending = abc_store" "clock two_pending = 100"
  by (simp_all add: two_pending_def)

section \<open>Properties of the trackers\<close>

text \<open>
  C13. \<open>trackClickAsync\<close> implements the promise \<open>track\<close>: seen through
  \<open>tables_of\<close>, a run of the tracker on a store is \<open>track\<close> on its tables, on
  every branch (bot, store down, unknown slug, unknown id, booked).
\<close>

theorem trackClickAsync_refines_track:
  "tables_of (trackClickAsync cfg now t st) = track cfg now t (tables_of st)"
  by (rule trackClickAsync_tables)

text \<open>
  C14. The order in which the pending trackers run does not matter: two
  schedules that both empty the queue, with no other event in between, leave
  the same links, the same counters and the same click rows up to their
  order.
\<close>

theorem trackers_any_order:
  assumes "pending (run_trackers cfg js w) = []" and "pending (run_trackers cfg ks w) = []"
  shows "tables_of (db (run_trackers cfg js w)) = tables_of (db (run_trackers cfg ks w))"
  using assms by (simp add: drained_tables)

theorem trackers_any_order_witness:
  "pending (run_trackers demo_config [0, 0] two_pending) = []
   \<and> pending (run_trackers demo_config [1, 0] two_pending) = []
   \<and> tables_of (db (run_trackers demo_config [0, 0] two_pending)) =
       tables_of (db (run_trackers demo_config [1, 0] two_pending))"
  using trackers_any_order [of demo_config "[0, 0]" two_pending "[1, 0]"]
  by (simp add: run_trackers_eq)

text \<open>
  C23. Every tracker that was started runs: firing the tracker at the head of
  the queue once per pending tracker empties the queue, and the tables then
  hold what \<open>track\<close> promises for each of them.
\<close>

theorem trackers_drain:
  "pending (run_trackers cfg (replicate (length (pending w)) 0) w) = []
   \<and> tables_of (db (run_trackers cfg (replicate (length (pending w)) 0) w)) =
       fold (track cfg (clock w)) (pending w) (tables_of (db w))"
proof -
  have "pending (run_trackers cfg (replicate (length (pending w)) 0) w) = []"
    by (simp add: run_trackers_eq waiting_front)
  then show ?thesis by (simp add: drained_tables)
qed

end
