(* ===== verification/Interleave.thy ===== *)
theory Interleave
  imports System
begin

text \<open>
  Requests that overlap. In \<open>System\<close> the shorten handler runs as one step; here
  it runs as two, \<open>shorten_check\<close> and \<open>shorten_commit\<close>, and anything may happen
  between them: other requests, trackers, outages. A request that has passed
  the check waits in \<open>inflight\<close> with the data it will insert. \<open>POST\<close> is
  the composition of the two, so the atomic handler is the run in which the
  commit follows its check at once.
\<close>

section \<open>The state machine\<close>

record cworld =
  base :: world
  inflight :: "(jsval \<times> jsval) list"

datatype cevent =
    Atomic event               \<comment> \<open>an event of \<open>System\<close>, uninterrupted\<close>
  | ShortenBegin "jsval result" \<comment> \<open>lines 7 to 43 of \<open>POST\<close> for a new request\<close>
  | ShortenEnd nat             \<comment> \<open>lines 45 to 65 for the waiting request at this index\<close>

definition shorten_begin :: "config \<Rightarrow> jsval result \<Rightarrow> cworld \<Rightarrow> response option \<times> cworld" where
  "shorten_begin cfg req cw =
     (case shorten_check cfg (db (base cw)) (rng (base cw)) req of
        (Throw e, pos') \<Rightarrow> (Some internal_error, cw\<lparr>base := (base cw)\<lparr>rng := pos'\<rparr>\<rparr>)
      | (Return r, pos') \<Rightarrow> (Some r, cw\<lparr>base := (base cw)\<lparr>rng := pos'\<rparr>\<rparr>)
      | (Continue d, pos') \<Rightarrow>
          (None, cw\<lparr>base := (base cw)\<lparr>rng := pos'\<rparr>, inflight := inflight cw @ [d]\<rparr>))"

definition shorten_end :: "config \<Rightarrow> nat \<Rightarrow> cworld \<Rightarrow> response option \<times> cworld" where
  "shorten_end cfg i cw =
     (if i < length (inflight cw) then
        (case shorten_commit cfg (db (base cw)) (clock (base cw)) (inflight cw ! i) of
           (r, st') \<Rightarrow>
             (Some (case r of Return a \<Rightarrow> a | Throw e \<Rightarrow> internal_error
                    | Continue u \<Rightarrow> internal_error),
              \<lparr>base = (base cw)\<lparr>db := st'\<rparr>,
               inflight = take i (inflight cw) @ drop (Suc i) (inflight cw)\<rparr>))
      else (None, cw))"

fun capply :: "config \<Rightarrow> cworld \<Rightarrow> cevent \<Rightarrow> response option \<times> cworld" where
  "capply cfg cw (Atomic e) =
     (fst (apply_event cfg (base cw) e), cw\<lparr>base := snd (apply_event cfg (base cw) e)\<rparr>)"
| "capply cfg cw (ShortenBegin req) = shorten_begin cfg req cw"
| "capply cfg cw (ShortenEnd i) = shorten_end cfg i cw"

definition cstep :: "config \<Rightarrow> cworld \<Rightarrow> cevent \<Rightarrow> cworld" where
  "cstep cfg cw e = snd (capply cfg cw e)"

fun crun :: "config \<Rightarrow> cworld \<Rightarrow> cevent list \<Rightarrow> cworld" where
  "crun cfg cw [] = cw"
| "crun cfg cw (e # es) = crun cfg (cstep cfg cw e) es"

text \<open>The answers sent along a run, in the order in which they are sent.\<close>

fun answers :: "config \<Rightarrow> cworld \<Rightarrow> cevent list \<Rightarrow> response list" where
  "answers cfg cw [] = []"
| "answers cfg cw (e # es) =
     (case fst (capply cfg cw e) of None \<Rightarrow> [] | Some r \<Rightarrow> [r]) @ answers cfg (cstep cfg cw e) es"

definition cinit :: cworld where
  "cinit = \<lparr>base = init_world, inflight = []\<rparr>"

inductive creachable :: "config \<Rightarrow> cworld \<Rightarrow> bool" for cfg :: config where
  creach_init: "creachable cfg cinit"
| creach_step: "creachable cfg cw \<Longrightarrow> creachable cfg (cstep cfg cw e)"

lemma creachable_run: "creachable cfg cw \<Longrightarrow> creachable cfg (crun cfg cw es)"
  by (induction es arbitrary: cw) (auto intro: creachable.creach_step)

lemma crun_append: "crun cfg cw (es @ fs) = crun cfg (crun cfg cw es) fs"
  by (induction es arbitrary: cw) simp_all

lemma answers_append:
  "answers cfg cw (es @ fs) = answers cfg cw es @ answers cfg (crun cfg cw es) fs"
  by (induction es arbitrary: cw) simp_all

lemma cstep_simps [simp]:
  "cstep cfg cw (Atomic e) = cw\<lparr>base := step cfg (base cw) e\<rparr>"
  "cstep cfg cw (ShortenBegin req) = snd (shorten_begin cfg req cw)"
  "cstep cfg cw (ShortenEnd i) = snd (shorten_end cfg i cw)"
  by (simp_all add: cstep_def step_def)

section \<open>The invariant under overlapping requests\<close>

definition checked :: "config \<Rightarrow> jsval \<times> jsval \<Rightarrow> bool" where
  "checked cfg d \<longleftrightarrow> truthy (fst d) \<and> isValidUrl (parse_url cfg) (fst d)"

definition cworld_inv :: "config \<Rightarrow> cworld \<Rightarrow> bool" where
  "cworld_inv cfg cw \<longleftrightarrow> world_inv cfg (base cw) \<and> list_all (checked cfg) (inflight cw)"

lemma world_inv_rng [simp]: "world_inv cfg (w\<lparr>rng := p\<rparr>) = world_inv cfg w"
  by (simp add: world_inv_def cache_coherent_def tasks_ok_def)

lemma link_create_world_inv:
  assumes "world_inv cfg w" and "link_create (db w) now u v = Inr (l, st')"
    and "checked cfg (u, v)"
  shows "world_inv cfg (w\<lparr>db := st'\<rparr>)"
proof -
  from link_create_Inr [OF assms(2)] obtain url s where
    u: "u = JStr url" and fresh: "s \<notin> slugs (db w)"
    and l: "l = \<lparr>link_id = next_id (db w), slug = s, originalUrl = url, totalClicks = 0,
                 createdAt = now\<rparr>"
    and st': "st' = (db w)\<lparr>links := links (db w) @ [l], next_id := Suc (next_id (db w))\<rparr>"
    by blast
  from assms(3) u have url: "url \<noteq> []" "parse_url cfg url \<noteq> None"
    by (auto simp: checked_def dest: isValidUrl_parses)
  have "slug l = s" by (simp add: l)
  note keeps = created_keeps [OF fresh st' this]
  have "store_inv st'" using assms(1,2) by (auto simp: world_inv_def dest: link_create_inv)
  moreover have "urls_valid cfg st'"
    using assms(1) url by (simp add: world_inv_def urls_valid_def st' l)
  moreover have "list_all (entry_coherent st') (entries (kv w))"
    using assms(1) keeps(1) by (auto simp: world_inv_def cache_coherent_def list_all_iff)
  moreover have "list_all (task_ok st') (pending w)"
    using assms(1) keeps(2) by (auto simp: world_inv_def tasks_ok_def list_all_iff)
  ultimately show ?thesis by (simp add: world_inv_def cache_coherent_def tasks_ok_def)
qed

lemma shorten_begin_inv:
  assumes "cworld_inv cfg cw"
  shows "cworld_inv cfg (snd (shorten_begin cfg req cw))"
proof (cases "shorten_check cfg (db (base cw)) (rng (base cw)) req")
  case (Pair r pos')
  show ?thesis
  proof (cases r)
    case (Continue d)
    with Pair shorten_check_Continue [of cfg "db (base cw)" "rng (base cw)" req "fst d" "snd d" pos']
    have "checked cfg d" by (simp add: checked_def)
    with assms Pair Continue show ?thesis by (simp add: shorten_begin_def cworld_inv_def)
  qed (use assms Pair in \<open>simp_all add: shorten_begin_def cworld_inv_def\<close>)
qed

lemma shorten_end_inv:
  assumes "cworld_inv cfg cw"
  shows "cworld_inv cfg (snd (shorten_end cfg i cw))"
proof (cases "i < length (inflight cw)")
  case True
  let ?d = "inflight cw ! i"
  from assms True have d: "checked cfg ?d" and rest:
    "list_all (checked cfg) (take i (inflight cw) @ drop (Suc i) (inflight cw))"
    by (auto simp: cworld_inv_def list_all_iff dest: in_set_takeD in_set_dropD)
  from shorten_commit_cases [of cfg "db (base cw)" "clock (base cw)" ?d]
  have "world_inv cfg ((base cw)\<lparr>db := snd (shorten_commit cfg (db (base cw)) (clock (base cw)) ?d)\<rparr>)"
    using assms d link_create_world_inv [of cfg "base cw" "clock (base cw)" "fst ?d" "snd ?d"]
    by (auto simp: cworld_inv_def)
  with True rest show ?thesis
    by (auto simp: shorten_end_def cworld_inv_def split: prod.splits)
qed (use assms in \<open>simp add: shorten_end_def\<close>)

lemma cstep_inv: "cworld_inv cfg cw \<Longrightarrow> cworld_inv cfg (cstep cfg cw e)"
  by (cases e) (simp_all add: shorten_begin_inv shorten_end_inv, simp add: cworld_inv_def step_world_inv)

lemma cworld_inv_init: "cworld_inv cfg cinit"
  by (simp add: cworld_inv_def cinit_def world_inv_init)

text \<open>
  C5. The invariant survives overlapping requests. In every world reachable
  by checks, commits in any order and the events of \<open>System\<close> in between, the
  base world satisfies \<open>world_inv\<close> (well-formed tables with unique slugs,
  valid destinations, a cache that agrees with the store, trackers with the
  right ids) and every waiting request carries a URL that passed validation.
\<close>

theorem creachable_world_inv:
  assumes "creachable cfg cw"
  shows "world_inv cfg (base cw) \<and> list_all (checked cfg) (inflight cw)"
proof -
  from assms have "cworld_inv cfg cw"
  proof (induction rule: creachable.induct)
    case creach_init
    show ?case by (rule cworld_inv_init)
  next
    case (creach_step cw e)
    from creach_step.IH show ?case by (rule cstep_inv)
  qed
  then show ?thesis by (simp add: cworld_inv_def)
qed

theorem creachable_world_inv_witness:
  "creachable demo_config
     (crun demo_config cinit
        [ShortenBegin (shorten_body ''https://example.com'' (JStr ''abc'')),
         Atomic (Visit (browser_request ''abc'')), ShortenEnd 0])
   \<and> world_inv demo_config
        (base (crun demo_config cinit
           [ShortenBegin (shorten_body ''https://example.com'' (JStr ''abc'')),
            Atomic (Visit (browser_request ''abc'')), ShortenEnd 0]))"
  using creachable_world_inv [of demo_config "crun demo_config cinit
      [ShortenBegin (shorten_body ''https://example.com'' (JStr ''abc'')),
       Atomic (Visit (browser_request ''abc'')), ShortenEnd 0]"]
    creachable_run [OF creach_init]
  by blast

section \<open>Slugs handed out by overlapping requests\<close>

fun slug_of_answer :: "response \<Rightarrow> string list" where
  "slug_of_answer (Json code (SuccessBody su s u)) = [s]"
| "slug_of_answer r = []"

definition handed_out :: "config \<Rightarrow> cworld \<Rightarrow> cevent list \<Rightarrow> string list" where
  "handed_out cfg cw es = concat (map slug_of_answer (answers cfg cw es))"

lemma handed_out_simps [simp]:
  "handed_out cfg cw [] = []"
  "handed_out cfg cw (e # es) =
     (case fst (capply cfg cw e) of None \<Rightarrow> [] | Some r \<Rightarrow> slug_of_answer r)
       @ handed_out cfg (cstep cfg cw e) es"
  by (simp_all add: handed_out_def split: option.splits)

lemma slug_of_answer_cases:
  "slug_of_answer r = [] \<or> (\<exists>code su s u. r = Json code (SuccessBody su s u) \<and> slug_of_answer r = [s])"
  by (cases r rule: slug_of_answer.cases) simp_all

lemma shorten_end_db:
  "db (base (snd (shorten_end cfg i cw))) = db (base cw)
     \<and> (\<forall>r. fst (shorten_end cfg i cw) = Some r \<longrightarrow> slug_of_answer r = [])
   \<or> (\<exists>l. db (base (snd (shorten_end cfg i cw))) =
          (db (base cw))\<lparr>links := links (db (base cw)) @ [l], next_id := Suc (next_id (db (base cw)))\<rparr>
        \<and> slug l \<notin> slugs (db (base cw))
        \<and> (\<exists>su. fst (shorten_end cfg i cw) = Some (Json 201 (SuccessBody su (slug l) (originalUrl l)))))"
proof (cases "i < length (inflight cw)")
  case True
  from shorten_commit_cases [of cfg "db (base cw)" "clock (base cw)" "inflight cw ! i"]
  show ?thesis
  proof (elim disjE exE conjE)
    fix l st'
    assume c: "link_create (db (base cw)) (clock (base cw)) (fst (inflight cw ! i))
        (snd (inflight cw ! i)) = Inr (l, st')"
      and r: "shorten_commit cfg (db (base cw)) (clock (base cw)) (inflight cw ! i) =
        (Return (Json 201 (SuccessBody (short_url cfg (slug l)) (slug l) (originalUrl l))), st')"
    from link_create_Inr [OF c] True r show ?thesis
      by (intro disjI2 exI [of _ l]) (auto simp: shorten_end_def)
  qed (use True in \<open>auto simp: shorten_end_def internal_error_def\<close>)
qed (simp add: shorten_end_def)

lemma cstep_slugs_mono: "slugs (db (base cw)) \<subseteq> slugs (db (base (cstep cfg cw e)))"
proof (cases e)
  case (Atomic a)
  then show ?thesis using step_slugs_mono [of "base cw" cfg a] by simp
next
  case (ShortenBegin req)
  then show ?thesis by (auto simp: shorten_begin_def split: prod.splits step.splits)
next
  case (ShortenEnd i)
  then show ?thesis using shorten_end_db [of cfg i cw] by (auto simp: slugs_def)
qed

lemma capply_success:
  assumes "fst (capply cfg cw e) = Some r" and "slug_of_answer r = [s]"
  shows "s \<notin> slugs (db (base cw)) \<and> s \<in> slugs (db (base (cstep cfg cw e)))"
proof (cases e)
  case (Atomic a)
  with assms slug_of_answer_cases [of r] apply_event_success [of cfg "base cw" a] show ?thesis
    by auto
next
  case (ShortenBegin req)
  with assms shorten_check_Return [of cfg "db (base cw)" "rng (base cw)" req] show ?thesis
    by (auto simp: shorten_begin_def internal_error_def split: prod.splits step.splits)
next
  case (ShortenEnd i)
  with assms shorten_end_db [of cfg i cw] show ?thesis by (auto simp: slugs_def)
qed

text \<open>
  C7. Uniqueness under concurrency. Along any run of overlapping requests,
  the slugs of the successful answers, custom or generated, are pairwise
  distinct and none of them was in the store when the run began: the unique
  constraint of the store decides between requests that chose the same slug.
\<close>

theorem handed_out_distinct:
  "distinct (handed_out cfg cw es) \<and> set (handed_out cfg cw es) \<inter> slugs (db (base cw)) = {}"
proof (induction es arbitrary: cw)
  case (Cons e es)
  have IH: "distinct (handed_out cfg (cstep cfg cw e) es)"
    "set (handed_out cfg (cstep cfg cw e) es) \<inter> slugs (db (base (cstep cfg cw e))) = {}"
    using Cons [of "cstep cfg cw e"] by simp_all
  with cstep_slugs_mono [of cw cfg e]
  have rest: "set (handed_out cfg (cstep cfg cw e) es) \<inter> slugs (db (base cw)) = {}" by blast
  show ?case
  proof (cases "fst (capply cfg cw e)")
    case (Some r)
    from slug_of_answer_cases [of r] show ?thesis
    proof (elim disjE exE conjE)
      fix code su s u assume "slug_of_answer r = [s]"
      with capply_success [OF Some this] Some IH rest show ?thesis by auto
    qed (use Some IH rest in simp)
  qed (use IH rest in simp)
qed simp

section \<open>Two requests that pass the check with the same slug\<close>

lemma shorten_commit_loses:
  "s \<in> slugs st \<Longrightarrow> \<exists>e. shorten_commit cfg st now (u, JStr s) = (Throw e, st)"
  by (cases u) (auto simp: shorten_commit_def link_create_def link_by_slug_None)

text \<open>
  C19. The race between check and insert. When two requests have passed the
  check with the same slug (the same custom slug, or generated candidates
  that coincide) and the one checked first commits first, it is answered 201
  and the other 500 \<open>Internal Server Error\<close>: the uniqueness violation of the
  insert reaches the handler's \<open>catch\<close>; no other slug is tried and no 409 is
  sent. The slug resolves to the destination of the first.
\<close>

theorem overlapping_requests:
  assumes "inflight cw = []"
    and c1: "shorten_check cfg (db (base cw)) (rng (base cw)) req1 = (Continue (JStr url1, JStr s), p1)"
    and c2: "shorten_check cfg (db (base cw)) p1 req2 = (Continue (u2, JStr s), p2)"
  shows "answers cfg cw [ShortenBegin req1, ShortenBegin req2, ShortenEnd 0, ShortenEnd 0] =
      [Json 201 (SuccessBody (short_url cfg s) s url1), internal_error]
    \<and> resolve (db (base (crun cfg cw
        [ShortenBegin req1, ShortenBegin req2, ShortenEnd 0, ShortenEnd 0]))) s = Some url1"
proof -
  let ?st = "db (base cw)"
  let ?st1 = "?st\<lparr>links := links ?st @ [\<lparr>link_id = next_id ?st, slug = s, originalUrl = url1,
      totalClicks = 0, createdAt = clock (base cw)\<rparr>], next_id := Suc (next_id ?st)\<rparr>"
  from shorten_check_Continue [OF c1] have up: "db_up ?st" and fresh: "s \<notin> slugs ?st" by simp_all
  then have "s \<in> slugs ?st1" by (simp add: slugs_def)
  from shorten_commit_loses [OF this, of cfg "clock (base cw)" u2] obtain e where
    lose: "shorten_commit cfg ?st1 (clock (base cw)) (u2, JStr s) = (Throw e, ?st1)" ..
  note win = shorten_commit_fresh [OF up fresh, of cfg "clock (base cw)" url1]
  from assms(1) c1 c2 win lose fresh show ?thesis
    by (simp add: shorten_begin_def shorten_end_def resolve_def link_by_slug_append in_slugs_iff)
qed

lemma generateUniqueSlug_empty_zero_tape:
  "generateUniqueSlug zero_tape empty_store (Some 6) (Some 5) pos = (Inr ''000000'', pos + 6)"
  by (simp add: generateUniqueSlug_def generateUniqueSlug_from_unfold slug_free_def
      link_by_slug_def empty_store_def eval_nat_numeral)

theorem overlapping_requests_witness:
  "answers demo_config cinit
     [ShortenBegin (shorten_body ''https://a.example'' (JStr ''abc'')),
      ShortenBegin (shorten_body ''https://b.example'' (JStr ''abc'')),
      ShortenEnd 0, ShortenEnd 0] =
     [Json 201 (SuccessBody ''https://okg.me/abc'' ''abc'' ''https://a.example''), internal_error]
   \<and> answers demo_config cinit
     [ShortenBegin (shorten_body ''https://a.example'' JUndefined),
      ShortenBegin (shorten_body ''https://b.example'' JUndefined),
      ShortenEnd 0, ShortenEnd 0] =
     [Json 201 (SuccessBody ''https://okg.me/000000'' ''000000'' ''https://a.example''),
      internal_error]"
proof -
  have valid: "isValidUrl scheme_parser (JStr ''https://a.example'')"
    "isValidUrl scheme_parser (JStr ''https://b.example'')"
    by (simp_all add: isValidUrl_def scheme_parser_def lower_char_def)
  note defs = cinit_def init_world_def slugs_def shorten_check_custom shorten_check_generated
    generateUniqueSlug_empty_zero_tape
  have a: "shorten_check demo_config (db (base cinit)) (rng (base cinit))
      (shorten_body ''https://a.example'' (JStr ''abc'')) =
      (Continue (JStr ''https://a.example'', JStr ''abc''), 0)"
    and b: "shorten_check demo_config (db (base cinit)) 0
      (shorten_body ''https://b.example'' (JStr ''abc'')) =
      (Continue (JStr ''https://b.example'', JStr ''abc''), 0)"
    and c: "shorten_check demo_config (db (base cinit)) (rng (base cinit))
      (shorten_body ''https://a.example'' JUndefined) =
      (Continue (JStr ''https://a.example'', JStr ''000000''), 6)"
    and d: "shorten_check demo_config (db (base cinit)) 6
      (shorten_body ''https://b.example'' JUndefined) =
      (Continue (JStr ''https://b.example'', JStr ''000000''), 12)"
    by (simp_all add: defs valid)
  have "inflight cinit = []" by (simp add: cinit_def)
  from overlapping_requests [OF this a b] overlapping_requests [OF this c d]
  show ?thesis by (simp add: valid short_url_def)
qed

section \<open>Every waiting request is answered\<close>

lemma shorten_end_head:
  assumes "inflight cw = d # ds"
  shows "\<exists>r. fst (shorten_end cfg 0 cw) = Some r"
    and "inflight (snd (shorten_end cfg 0 cw)) = ds"
  using assms by (simp_all add: shorten_end_def split: prod.splits)

text \<open>
  Every request that has passed the check is answered: running the
  second half of the handler once per waiting request empties \<open>inflight\<close>
  and sends one answer for each of them, whatever the store does meanwhile.
\<close>

theorem waiting_requests_answered:
  "inflight (crun cfg cw (replicate (length (inflight cw)) (ShortenEnd 0))) = []
   \<and> length (answers cfg cw (replicate (length (inflight cw)) (ShortenEnd 0))) =
       length (inflight cw)"
proof (induction "inflight cw" arbitrary: cw)
  case Nil
  then show ?case by simp
next
  case (Cons d ds)
  from shorten_end_head [OF Cons.hyps(2) [symmetric], of cfg] Cons.hyps(1) [of "snd (shorten_end cfg 0 cw)"]
    Cons.hyps(2) [symmetric]
  show ?case by (auto simp: cstep_def)
qed

end
