(* ===== verification/Visits.thy ===== *)
theory Visits
  imports Interleave
begin

text \<open>
  Visits that overlap. \<open>GET\<close> awaits the cache, the store and the cache again;
  in \<open>System\<close> it runs as one step, here as three, with anything between
  them: other visits, shorten requests in their two halves, trackers,
  outages, the loss of the cache. A visit that missed the cache waits for
  its lookup; one that found its link waits, with the row it read, for the
  write to the cache. The atomic handler is the run in which the three steps
  follow each other at once; whatever runs in between, every answer a step
  sends is the answer the atomic handler gives at that moment.
\<close>

section \<open>The state machine\<close>

datatype visit =
    AtLookup request           \<comment> \<open>before line 32, after a miss or a failure of the cache\<close>
  | AtCacheWrite request link  \<comment> \<open>before line 42, with the row that line 32 has read\<close>

record vworld =
  inner :: cworld
  visiting :: "visit list"

datatype vevent =
    Other cevent        \<comment> \<open>an event of \<open>Interleave\<close>\<close>
  | VisitBegin request  \<comment> \<open>lines 9 to 29 for a new request\<close>
  | VisitLookup nat     \<comment> \<open>lines 32 to 39 for the waiting visit at this index\<close>
  | VisitEnd nat        \<comment> \<open>lines 42 to 54 for the waiting visit at this index\<close>

definition visit_begin :: "config \<Rightarrow> request \<Rightarrow> vworld \<Rightarrow> response option \<times> vworld" where
  "visit_begin cfg req vw =
     (if slug_param req = [] then (Some (Redirect (origin req @ ''/'') None), vw)
      else
        (case cache_phase cfg req (base (inner vw)) of
           (Return r, w') \<Rightarrow> (Some r, vw\<lparr>inner := (inner vw)\<lparr>base := w'\<rparr>\<rparr>)
         | (Throw e, w') \<Rightarrow> (Some server_error, vw\<lparr>inner := (inner vw)\<lparr>base := w'\<rparr>\<rparr>)
         | (Continue u, w') \<Rightarrow>
             (None, vw\<lparr>inner := (inner vw)\<lparr>base := w'\<rparr>,
                       visiting := visiting vw @ [AtLookup req]\<rparr>)))"

definition visit_lookup :: "config \<Rightarrow> nat \<Rightarrow> vworld \<Rightarrow> response option \<times> vworld" where
  "visit_lookup cfg i vw =
     (if i < length (visiting vw) then
        (case visiting vw ! i of
           AtLookup req \<Rightarrow>
             (case findUnique (db (base (inner vw))) (JStr (slug_param req)) of
                Inl e \<Rightarrow>
                  (Some server_error,
                   vw\<lparr>visiting := take i (visiting vw) @ drop (Suc i) (visiting vw)\<rparr>)
              | Inr None \<Rightarrow>
                  (Some (Redirect (origin req @ ''/?error=not-found'') None),
                   vw\<lparr>visiting := take i (visiting vw) @ drop (Suc i) (visiting vw)\<rparr>)
              | Inr (Some link) \<Rightarrow>
                  (None, vw\<lparr>visiting := (visiting vw)[i := AtCacheWrite req link]\<rparr>))
         | AtCacheWrite req link \<Rightarrow> (None, vw))
      else (None, vw))"

text \<open>Lines 42 to 54 with the row \<open>link\<close>: the write to the cache, the tracker, the redirect.\<close>

definition cache_populate ::
  "config \<Rightarrow> request \<Rightarrow> link \<Rightarrow> world \<Rightarrow> response result \<times> world" where
  "cache_populate cfg req link w =
     (let w1 =
            (if redis cfg \<noteq> None then
               (case redis_set (kv w) (clock w) (cache_key (slug_param req))
                       (originalUrl link) day_seconds of
                  Inl err \<Rightarrow> w
                | Inr c \<Rightarrow> w\<lparr>kv := c\<rparr>)
             else w);
          w2 = dispatch w1 \<lparr>task_slug = slug_param req, task_req = req,
                            task_linkId = Some (link_id link)\<rparr>
      in (next_redirect (parse_url cfg) (originalUrl link) (Some 301), w2))"

definition visit_end :: "config \<Rightarrow> nat \<Rightarrow> vworld \<Rightarrow> response option \<times> vworld" where
  "visit_end cfg i vw =
     (if i < length (visiting vw) then
        (case visiting vw ! i of
           AtLookup req \<Rightarrow> (None, vw)
         | AtCacheWrite req link \<Rightarrow>
             (case cache_populate cfg req link (base (inner vw)) of
                (r, w') \<Rightarrow>
                  (Some (case r of Inl e \<Rightarrow> server_error | Inr a \<Rightarrow> a),
                   \<lparr>inner = (inner vw)\<lparr>base := w'\<rparr>,
                    visiting = take i (visiting vw) @ drop (Suc i) (visiting vw)\<rparr>)))
      else (None, vw))"

fun vapply :: "config \<Rightarrow> vworld \<Rightarrow> vevent \<Rightarrow> response option \<times> vworld" where
  "vapply cfg vw (Other e) =
     (fst (capply cfg (inner vw) e), vw\<lparr>inner := cstep cfg (inner vw) e\<rparr>)"
| "vapply cfg vw (VisitBegin req) = visit_begin cfg req vw"
| "vapply cfg vw (VisitLookup i) = visit_lookup cfg i vw"
| "vapply cfg vw (VisitEnd i) = visit_end cfg i vw"

definition vstep :: "config \<Rightarrow> vworld \<Rightarrow> vevent \<Rightarrow> vworld" where
  "vstep cfg vw e = snd (vapply cfg vw e)"

fun vrun :: "config \<Rightarrow> vworld \<Rightarrow> vevent list \<Rightarrow> vworld" where
  "vrun cfg vw [] = vw"
| "vrun cfg vw (e # es) = vrun cfg (vstep cfg vw e) es"

definition vinit :: vworld where
  "vinit = \<lparr>inner = cinit, visiting = []\<rparr>"

inductive vreachable :: "config \<Rightarrow> vworld \<Rightarrow> bool" for cfg :: config where
  vreach_init: "vreachable cfg vinit"
| vreach_step: "vreachable cfg vw \<Longrightarrow> vreachable cfg (vstep cfg vw e)"

lemma vreachable_run: "vreachable cfg vw \<Longrightarrow> vreachable cfg (vrun cfg vw es)"
  by (induction es arbitrary: vw) (auto intro: vreachable.vreach_step)

lemma vrun_append: "vrun cfg vw (es @ fs) = vrun cfg (vrun cfg vw es) fs"
  by (induction es arbitrary: vw) simp_all

lemma vstep_simps [simp]:
  "vstep cfg vw (Other e) = vw\<lparr>inner := cstep cfg (inner vw) e\<rparr>"
  "vstep cfg vw (VisitBegin req) = snd (visit_begin cfg req vw)"
  "vstep cfg vw (VisitLookup i) = snd (visit_lookup cfg i vw)"
  "vstep cfg vw (VisitEnd i) = snd (visit_end cfg i vw)"
  by (simp_all add: vstep_def)

section \<open>The store phase, cut at its await\<close>

lemma store_phase_populate:
  "store_phase cfg req w =
     (case findUnique (db w) (JStr (slug_param req)) of
        Inl e \<Rightarrow> (Inl e, w)
      | Inr None \<Rightarrow> (Inr (Redirect (origin req @ ''/?error=not-found'') None), w)
      | Inr (Some link) \<Rightarrow> cache_populate cfg req link w)"
  by (simp add: store_phase_def cache_populate_def split: sum.splits option.splits)

section \<open>The invariant under overlapping visits\<close>

text \<open>What a lookup tells the handler about a slug: the id and the destination of its link.\<close>

definition link_key :: "store \<Rightarrow> string \<Rightarrow> (nat \<times> string) option" where
  "link_key st s = map_option (\<lambda>k. (link_id k, originalUrl k)) (link_by_slug st s)"

fun visit_ok :: "store \<Rightarrow> visit \<Rightarrow> bool" where
  "visit_ok st (AtLookup req) = (slug_param req \<noteq> [])"
| "visit_ok st (AtCacheWrite req l) =
     (slug_param req \<noteq> []
      \<and> link_key st (slug_param req) = Some (link_id l, originalUrl l))"

definition vworld_inv :: "config \<Rightarrow> vworld \<Rightarrow> bool" where
  "vworld_inv cfg vw \<longleftrightarrow>
     cworld_inv cfg (inner vw) \<and> list_all (visit_ok (db (base (inner vw)))) (visiting vw)"

lemma link_key_resolve: "link_key st s = Some (i, u) \<Longrightarrow> resolve st s = Some u"
  by (auto simp: link_key_def resolve_def)

lemma link_key_id: "link_key st s = Some (i, u) \<Longrightarrow> id_of_slug st s = Some i"
  by (auto simp: link_key_def id_of_slug_def)

lemma link_key_append:
  "slug l \<notin> slugs st \<Longrightarrow>
     link_key st \<subseteq>\<^sub>m link_key (st\<lparr>links := links st @ [l], next_id := n\<rparr>)"
  by (auto simp: map_le_def link_key_def link_by_slug_append split: option.splits)

lemma link_key_trackClickAsync: "link_key (trackClickAsync cfg now t st) = link_key st"
proof -
  consider "trackClickAsync cfg now t st = st"
    | i where "click_transaction st now i (sha256_hex cfg (client_ip (task_req t)))
        (user_agent_of (task_req t)) = Inr (trackClickAsync cfg now t st)"
    using trackClickAsync_cases [of cfg now t st] by blast
  then show ?thesis
  proof cases
    case 2
    from click_transaction_Inr [OF 2] show ?thesis
      by (auto simp: link_key_def fun_eq_iff link_by_slug_def find_map_bump option.map_comp
          comp_def)
  qed simp
qed

lemma link_key_db_up [simp]: "link_key (st\<lparr>db_up := b\<rparr>) = link_key st"
  by (simp add: link_key_def fun_eq_iff link_by_slug_def)

lemma step_link_key_le: "link_key (db w) \<subseteq>\<^sub>m link_key (db (step cfg w e))"
proof (cases e)
  case (Shorten req)
  obtain r st' pos' where P: "POST cfg (clock w) req (db w) (rng w) = (r, st', pos')"
    by (cases "POST cfg (clock w) req (db w) (rng w)") auto
  show ?thesis
  proof (cases "\<exists>body. r = Json 201 body")
    case True
    then obtain body where "r = Json 201 body" ..
    with POST_created_link [of cfg "clock w" req "db w" "rng w" body st' pos'] P Shorten
    show ?thesis by (auto simp: POST_world_def intro: link_key_append)
  next
    case False
    with POST_unchanged [OF P] P Shorten show ?thesis by (simp add: POST_world_def)
  qed
next
  case (Visit rq)
  then show ?thesis by (simp add: GET_frame)
next
  case (RunTracker i)
  then show ?thesis by (simp add: run_tracker_def link_key_trackClickAsync)
qed simp_all

lemma cstep_link_key_le:
  "link_key (db (base cw)) \<subseteq>\<^sub>m link_key (db (base (cstep cfg cw e)))"
proof (cases e)
  case (Atomic a)
  then show ?thesis using step_link_key_le [of "base cw" cfg a] by simp
next
  case (ShortenBegin req)
  then show ?thesis by (auto simp: shorten_begin_def split: prod.splits step.splits)
next
  case (ShortenEnd i)
  then show ?thesis
    using shorten_end_db [of cfg i cw] by (auto intro: link_key_append)
qed

lemma visit_ok_mono:
  "link_key st \<subseteq>\<^sub>m link_key st' \<Longrightarrow> visit_ok st v \<Longrightarrow> visit_ok st' v"
  by (cases v) (auto simp: map_le_def dom_def)

lemma cache_phase_world_inv:
  assumes "world_inv cfg w"
  shows "world_inv cfg (snd (cache_phase cfg req w))"
  using assms
  by (auto simp: world_inv_def cache_coherent_def tasks_ok_def cache_phase_def dispatch_def
      task_ok_def split: sum.splits option.splits)

lemma cache_populate_world_inv:
  assumes "world_inv cfg w" and "link_key (db w) (slug_param req) = Some (link_id l, originalUrl l)"
  shows "world_inv cfg (snd (cache_populate cfg req l w))"
  using assms link_key_resolve [OF assms(2)] link_key_id [OF assms(2)]
  by (auto simp: world_inv_def cache_coherent_def tasks_ok_def cache_populate_def dispatch_def
      Let_def redis_set_def entry_coherent_def cache_key_def task_ok_def id_of_slug_def
      split: sum.splits option.splits if_splits)

lemma cache_populate_db [simp]: "db (snd (cache_populate cfg req l w)) = db w"
  by (simp add: cache_populate_def dispatch_def Let_def split: sum.splits)

lemma visit_begin_inv:
  assumes "vworld_inv cfg vw"
  shows "vworld_inv cfg (snd (visit_begin cfg req vw))"
proof -
  obtain r w' where c: "cache_phase cfg req (base (inner vw)) = (r, w')"
    by (cases "cache_phase cfg req (base (inner vw))")
  with cache_phase_world_inv [of cfg "base (inner vw)" req]
    cache_phase_frame(1) [of cfg req "base (inner vw)"] assms
  show ?thesis
    by (cases r) (auto simp: vworld_inv_def cworld_inv_def visit_begin_def)
qed

lemma visit_lookup_inv:
  assumes "vworld_inv cfg vw"
  shows "vworld_inv cfg (snd (visit_lookup cfg i vw))"
proof (cases "i < length (visiting vw)")
  case True
  from assms have rest:
    "list_all (visit_ok (db (base (inner vw)))) (take i (visiting vw) @ drop (Suc i) (visiting vw))"
    by (auto simp: vworld_inv_def list_all_iff dest: in_set_takeD in_set_dropD)
  show ?thesis
  proof (cases "visiting vw ! i")
    case (AtLookup req)
    with assms True rest show ?thesis
      by (auto simp: vworld_inv_def visit_lookup_def findUnique_string link_key_def
          list_all_length nth_list_update split: option.splits)
  next
    case (AtCacheWrite req l)
    with assms True show ?thesis by (simp add: visit_lookup_def)
  qed
qed (use assms in \<open>simp add: visit_lookup_def\<close>)

lemma visit_end_inv:
  assumes "vworld_inv cfg vw"
  shows "vworld_inv cfg (snd (visit_end cfg i vw))"
proof (cases "i < length (visiting vw)")
  case True
  from assms have rest:
    "list_all (visit_ok (db (base (inner vw)))) (take i (visiting vw) @ drop (Suc i) (visiting vw))"
    by (auto simp: vworld_inv_def list_all_iff dest: in_set_takeD in_set_dropD)
  show ?thesis
  proof (cases "visiting vw ! i")
    case (AtLookup req)
    with assms True show ?thesis by (simp add: visit_end_def)
  next
    case (AtCacheWrite req l)
    with assms True have "link_key (db (base (inner vw))) (slug_param req) = Some (link_id l, originalUrl l)"
      by (auto simp: vworld_inv_def list_all_length)
    with cache_populate_world_inv [of cfg "base (inner vw)" req l] assms
    have "world_inv cfg (snd (cache_populate cfg req l (base (inner vw))))"
      by (simp add: vworld_inv_def cworld_inv_def)
    with assms True rest AtCacheWrite show ?thesis
      by (simp add: vworld_inv_def cworld_inv_def visit_end_def case_prod_beta)
  qed
qed (use assms in \<open>simp add: visit_end_def\<close>)

lemma vstep_inv:
  assumes "vworld_inv cfg vw"
  shows "vworld_inv cfg (vstep cfg vw e)"
proof (cases e)
  case (Other a)
  with assms visit_ok_mono [OF cstep_link_key_le [of "inner vw" cfg a]] show ?thesis
    by (auto simp: vworld_inv_def cstep_inv list_all_iff)
qed (use assms in \<open>simp_all add: visit_begin_inv visit_lookup_inv visit_end_inv\<close>)

lemma cstep_resolve_le: "resolve (db (base cw)) \<subseteq>\<^sub>m resolve (db (base (cstep cfg cw e)))"
proof (cases e)
  case (Atomic a)
  then show ?thesis using step_resolve_le [of "base cw" cfg a] by simp
next
  case (ShortenBegin req)
  then show ?thesis by (auto simp: shorten_begin_def split: prod.splits step.splits)
next
  case (ShortenEnd i)
  then show ?thesis
    using shorten_end_db [of cfg i cw]
    by (auto simp: map_le_def resolve_def link_by_slug_append in_slugs_iff
        split: option.splits)
qed

lemma vstep_db:
  "db (base (inner (snd (visit_begin cfg req vw)))) = db (base (inner vw))"
  "db (base (inner (snd (visit_lookup cfg i vw)))) = db (base (inner vw))"
  "db (base (inner (snd (visit_end cfg i vw)))) = db (base (inner vw))"
  using cache_phase_frame(1) [of cfg req "base (inner vw)"]
  by (auto simp: visit_begin_def visit_lookup_def visit_end_def case_prod_beta
      split: if_splits prod.splits step.splits visit.splits sum.splits option.splits)

lemma vstep_resolve_le:
  "resolve (db (base (inner vw))) \<subseteq>\<^sub>m resolve (db (base (inner (vstep cfg vw e))))"
  by (cases e) (simp_all add: cstep_resolve_le vstep_db)

lemma POST_world_vworld_inv:
  assumes "vworld_inv cfg vw"
  shows "vworld_inv cfg (vw\<lparr>inner := (inner vw)\<lparr>base := snd (POST_world cfg req (base (inner vw)))\<rparr>\<rparr>)"
  using vstep_inv [OF assms, of "Other (Atomic (Shorten req))"] by simp

lemma vworld_inv_init: "vworld_inv cfg vinit"
  by (simp add: vworld_inv_def vinit_def cworld_inv_init)

lemma vreachable_inv: "vreachable cfg vw \<Longrightarrow> vworld_inv cfg vw"
  by (induction rule: vreachable.induct) (auto intro: vworld_inv_init vstep_inv)

section \<open>A redirect reflects the store\<close>

text \<open>The slug of the request an event answers.\<close>

fun visit_slug :: "visit \<Rightarrow> string" where
  "visit_slug (AtLookup req) = slug_param req"
| "visit_slug (AtCacheWrite req l) = slug_param req"

fun asked :: "vworld \<Rightarrow> vevent \<Rightarrow> string" where
  "asked vw (Other (Atomic (Visit req))) = slug_param req"
| "asked vw (Other e) = []"
| "asked vw (VisitBegin req) = slug_param req"
| "asked vw (VisitLookup i) = (if i < length (visiting vw) then visit_slug (visiting vw ! i) else [])"
| "asked vw (VisitEnd i) = (if i < length (visiting vw) then visit_slug (visiting vw ! i) else [])"

lemma cache_phase_Return:
  assumes "cache_coherent w" and "fst (cache_phase cfg req w) = Return r"
  shows "\<exists>u. r = Redirect u (Some 301) \<and> resolve (db w) (slug_param req) = Some u"
  using assms cache_coherentD [OF assms(1), of "clock w" "slug_param req"]
  by (auto simp: cache_phase_def redis_get_def next_redirect_def
      split: if_splits sum.splits option.splits)

lemma cache_phase_not_Throw: "fst (cache_phase cfg req w) \<noteq> Throw e"
  by (auto simp: cache_phase_def split: sum.splits option.splits)

lemma cache_populate_answer:
  "cache_populate cfg req l w = (Inr r, w') \<Longrightarrow> r = Redirect (originalUrl l) (Some 301)"
  by (auto simp: cache_populate_def Let_def dest: next_redirect_Inr)

lemma GET_301:
  assumes "world_inv cfg w" and "fst (GET cfg req w) = Redirect u (Some 301)"
  shows "resolve (db w) (slug_param req) = Some u"
proof (cases "slug_param req = []")
  case True
  with assms(2) show ?thesis by (simp add: GET_def)
next
  case False
  obtain r w' where c: "cache_phase cfg req w = (r, w')" by (cases "cache_phase cfg req w")
  from assms(1) have coh: "cache_coherent w" by (simp add: world_inv_def)
  show ?thesis
  proof (cases r)
    case (Return a)
    with cache_phase_Return [OF coh, of cfg req a] c assms(2) False show ?thesis
      by (auto simp: GET_def)
  next
    case (Throw e)
    with cache_phase_not_Throw [of cfg req w e] c show ?thesis by simp
  next
    case (Continue x)
    have db: "db w' = db w" using cache_phase_frame(1) [of cfg req w] c by simp
    from Continue c assms(2) False db show ?thesis
      by (auto simp: GET_def store_phase_populate findUnique_string server_error_def
          resolve_def split: sum.splits option.splits if_splits prod.splits
          dest!: cache_populate_answer)
  qed
qed

lemma capply_Redirect:
  assumes "fst (capply cfg cw e) = Some (Redirect u c)"
  shows "\<exists>req. e = Atomic (Visit req)"
proof (cases e)
  case (Atomic a)
  show ?thesis
  proof (cases a)
    case (Shorten req)
    with Atomic assms POST_cases [of cfg "clock (base cw)" req "db (base cw)" "rng (base cw)"]
    show ?thesis by (auto simp: POST_world_def)
  qed (use Atomic assms in simp_all)
next
  case (ShortenBegin req)
  with assms shorten_check_Return [of cfg "db (base cw)" "rng (base cw)" req]
  show ?thesis
    by (auto simp: shorten_begin_def internal_error_def split: prod.splits step.splits)
next
  case (ShortenEnd i)
  with assms shorten_commit_cases [of cfg "db (base cw)" "clock (base cw)" "inflight cw ! i"]
  show ?thesis
    by (auto simp: shorten_end_def internal_error_def split: if_splits)
qed

lemma vapply_301:
  assumes "vworld_inv cfg vw" and "fst (vapply cfg vw e) = Some (Redirect u (Some 301))"
  shows "resolve (db (base (inner vw))) (asked vw e) = Some u"
proof (cases e)
  case (Other a)
  with assms(2) capply_Redirect [of cfg "inner vw" a u "Some 301"] obtain req where
    a: "a = Atomic (Visit req)" by auto
  with assms Other GET_301 [of cfg "base (inner vw)" req u] show ?thesis
    by (simp add: vworld_inv_def cworld_inv_def)
next
  case (VisitBegin req)
  from assms(1) have "cache_coherent (base (inner vw))"
    by (simp add: vworld_inv_def cworld_inv_def world_inv_def)
  from cache_phase_Return [OF this, of cfg req] VisitBegin assms(2) show ?thesis
    by (auto simp: visit_begin_def server_error_def split: if_splits prod.splits step.splits)
next
  case (VisitLookup i)
  with assms(2) show ?thesis
    by (auto simp: visit_lookup_def server_error_def
        split: if_splits visit.splits sum.splits option.splits)
next
  case (VisitEnd i)
  with assms show ?thesis
    by (auto simp: visit_end_def server_error_def vworld_inv_def list_all_length
        split: if_splits visit.splits sum.splits prod.splits
        dest!: cache_populate_answer link_key_resolve)
qed

section \<open>Every answer is the answer of the atomic handler\<close>

text \<open>The request a step of a visit works for.\<close>

fun visit_request :: "visit \<Rightarrow> request" where
  "visit_request (AtLookup req) = req"
| "visit_request (AtCacheWrite req l) = req"

fun answering :: "vworld \<Rightarrow> vevent \<Rightarrow> request option" where
  "answering vw (Other e) = None"
| "answering vw (VisitBegin req) = Some req"
| "answering vw (VisitLookup i) =
     (if i < length (visiting vw) then Some (visit_request (visiting vw ! i)) else None)"
| "answering vw (VisitEnd i) =
     (if i < length (visiting vw) then Some (visit_request (visiting vw ! i)) else None)"

lemma visit_begin_atomic:
  assumes "fst (visit_begin cfg req vw) = Some r"
  shows "r = fst (GET cfg req (base (inner vw)))"
  using assms cache_phase_not_Throw [of cfg req "base (inner vw)"]
  by (auto simp: visit_begin_def GET_def split: if_splits prod.splits step.splits)

lemma visit_lookup_atomic:
  assumes "vworld_inv cfg vw" and "db_up (db (base (inner vw)))"
    and "i < length (visiting vw)" and "fst (visit_lookup cfg i vw) = Some r"
  shows "r = fst (GET cfg (visit_request (visiting vw ! i)) (base (inner vw)))"
proof (cases "visiting vw ! i")
  case (AtLookup req)
  with assms(1,3) have slug: "slug_param req \<noteq> []"
    by (auto simp: vworld_inv_def list_all_length)
  from assms(1) have inv: "cache_coherent (base (inner vw))" "urls_valid cfg (db (base (inner vw)))"
    by (simp_all add: vworld_inv_def cworld_inv_def world_inv_def)
  from AtLookup assms(2,3,4) GET_resolver [OF slug assms(2) inv] show ?thesis
    by (auto simp: visit_lookup_def findUnique_string resolve_def split: option.splits)
next
  case (AtCacheWrite req l)
  with assms(3,4) show ?thesis by (simp add: visit_lookup_def)
qed

lemma visit_end_atomic:
  assumes "vworld_inv cfg vw" and "db_up (db (base (inner vw)))"
    and "i < length (visiting vw)" and "fst (visit_end cfg i vw) = Some r"
  shows "r = fst (GET cfg (visit_request (visiting vw ! i)) (base (inner vw)))"
proof (cases "visiting vw ! i")
  case (AtLookup req)
  with assms(3,4) show ?thesis by (simp add: visit_end_def)
next
  case (AtCacheWrite req l)
  with assms(1,3) have slug: "slug_param req \<noteq> []"
    and key: "link_key (db (base (inner vw))) (slug_param req) = Some (link_id l, originalUrl l)"
    by (auto simp: vworld_inv_def list_all_length)
  from assms(1) have inv: "cache_coherent (base (inner vw))" "urls_valid cfg (db (base (inner vw)))"
    by (simp_all add: vworld_inv_def cworld_inv_def world_inv_def)
  from link_key_resolve [OF key] urls_validD [OF inv(2)]
  have "resolve (db (base (inner vw))) (slug_param req) = Some (originalUrl l)"
    and "parse_url cfg (originalUrl l) \<noteq> None" by auto
  with AtCacheWrite assms(3,4) GET_resolver [OF slug assms(2) inv] show ?thesis
    by (auto simp: visit_end_def cache_populate_def Let_def next_redirect_ok case_prod_beta)
qed

lemma vapply_atomic:
  assumes "vworld_inv cfg vw" and "db_up (db (base (inner vw)))"
    and "answering vw e = Some req" and "fst (vapply cfg vw e) = Some r"
  shows "r = fst (GET cfg req (base (inner vw)))"
proof (cases e)
  case (VisitBegin q)
  with assms(3,4) show ?thesis by (auto dest: visit_begin_atomic)
next
  case (VisitLookup i)
  with assms visit_lookup_atomic [of cfg vw i r] show ?thesis by (auto split: if_splits)
next
  case (VisitEnd i)
  with assms visit_end_atomic [of cfg vw i r] show ?thesis by (auto split: if_splits)
qed (use assms(3) in simp)

section \<open>A tracker that is overtaken\<close>

text \<open>
  \<open>trackClickAsync\<close> awaits its lookup before it starts the transaction. With
  the lookup in the store \<open>st\<close> and the transaction in the later store \<open>st'\<close>:
\<close>

definition track_late :: "config \<Rightarrow> nat \<Rightarrow> track_task \<Rightarrow> store \<Rightarrow> store \<Rightarrow> store" where
  "track_late cfg now t st st' =
     (if is_bot (user_agent_of (task_req t)) then st'
      else
        (case target_link st t of
           Inl e \<Rightarrow> st'
         | Inr None \<Rightarrow> st'
         | Inr (Some targetLinkId) \<Rightarrow>
             (case click_transaction st' now targetLinkId
                     (sha256_hex cfg (client_ip (task_req t))) (user_agent_of (task_req t)) of
                Inl e \<Rightarrow> st'
              | Inr st'' \<Rightarrow> st'')))"

lemma track_late_same: "track_late cfg now t st st = trackClickAsync cfg now t st"
  by (simp add: track_late_def trackClickAsync_def)

lemma track_late_cases:
  assumes "link_key st \<subseteq>\<^sub>m link_key st'"
  shows "track_late cfg now t st st' = trackClickAsync cfg now t st'
    \<or> track_late cfg now t st st' = st'"
proof (cases "task_linkId t")
  case (Some i)
  then show ?thesis by (simp add: track_late_def trackClickAsync_def target_link_def)
next
  case None
  show ?thesis
  proof (cases "db_up st \<and> db_up st'")
    case True
    show ?thesis
    proof (cases "link_by_slug st (task_slug t)")
      case (Some k)
      then have "link_key st (task_slug t) = Some (link_id k, originalUrl k)"
        by (simp add: link_key_def)
      with assms have "link_key st' (task_slug t) = Some (link_id k, originalUrl k)"
        by (auto simp: map_le_def dom_def)
      then obtain k' where "link_by_slug st' (task_slug t) = Some k'" "link_id k' = link_id k"
        by (auto simp: link_key_def)
      with Some None True show ?thesis
        by (simp add: track_late_def trackClickAsync_def target_link_def findUnique_string)
    qed (use None True in \<open>simp add: track_late_def target_link_def findUnique_string\<close>)
  next
    case False
    with None show ?thesis
      by (auto simp: track_late_def target_link_def findUnique_string click_transaction_def
          split: option.splits)
  qed
qed

section \<open>A visit of the examples\<close>

text \<open>
  In the world of the examples a browser asks for \<open>abc\<close>, misses the cache
  and finds the link; before its write to the cache the cache loses its
  entries.
\<close>

definition abc_visit :: "vevent list" where
  "abc_visit =
     [Other (Atomic (Tick 7)),
      Other (Atomic (Shorten (shorten_body ''https://example.com'' (JStr ''abc'')))),
      Other (Atomic (Tick 93)),
      VisitBegin (browser_request ''abc''), VisitLookup 0, Other (Atomic CacheEvict)]"

definition abc_waiting :: vworld where
  "abc_waiting =
     \<lparr>inner = \<lparr>base = abc_world, inflight = []\<rparr>,
      visiting = [AtCacheWrite (browser_request ''abc'')
                    \<lparr>link_id = 0, slug = ''abc'', originalUrl = ''https://example.com'',
                      totalClicks = 0, createdAt = 7\<rparr>]\<rparr>"

lemma abc_visit_run: "vrun demo_config vinit abc_visit = abc_waiting"
proof -
  let ?s = "\<lparr>inner = \<lparr>base = abc_world, inflight = []\<rparr>, visiting = []\<rparr>"
  let ?rq = "browser_request ''abc''"
  let ?s' = "\<lparr>inner = \<lparr>base = abc_world, inflight = []\<rparr>, visiting = [AtLookup ?rq]\<rparr>"
  have "run demo_config init_world
      [Tick 7, Shorten (shorten_body ''https://example.com'' (JStr ''abc'')), Tick 93] = abc_world"
    by (rule abc_world_run)
  then have 1: "vrun demo_config vinit (take 3 abc_visit) = ?s"
    by (simp add: abc_visit_def vinit_def cinit_def)
  have 2: "vstep demo_config ?s (VisitBegin ?rq) = ?s'"
    by (simp add: visit_begin_def cache_phase_miss abc_world_facts)
  have 3: "vstep demo_config ?s' (VisitLookup 0) = abc_waiting"
    by (simp add: visit_lookup_def findUnique_string abc_world_facts abc_waiting_def)
  have 4: "vstep demo_config abc_waiting (Other (Atomic CacheEvict)) = abc_waiting"
    by (simp add: abc_waiting_def abc_world_def empty_cache_def)
  have "vrun demo_config vinit abc_visit = vrun demo_config ?s (drop 3 abc_visit)"
    using vrun_append [of demo_config vinit "take 3 abc_visit" "drop 3 abc_visit"] 1 by simp
  also have "\<dots> = abc_waiting"
    by (simp add: abc_visit_def 2 3 4 del: vstep_simps)
  finally show ?thesis .
qed

lemma abc_waiting_reachable: "vreachable demo_config abc_waiting"
  using vreachable_run [OF vreach_init, of demo_config abc_visit] by (simp only: abc_visit_run)

section \<open>Properties of overlapping visits\<close>

text \<open>
  C18. Every answer of the three-step handler is an answer of the atomic one.
  In every reachable world whose store is up, whichever step of a visit sends
  an answer (the first after a hit of the cache, the second when no link has
  the slug, the third with the redirect), and whatever has run since the visit
  began, the answer is the one \<open>GET\<close> gives to the same request in the world
  of that moment: the step that answers is a point at which the whole visit
  could have run at once.
\<close>

theorem visit_answer_atomic:
  assumes "vreachable cfg vw" and "db_up (db (base (inner vw)))"
    and "answering vw e = Some req" and "fst (vapply cfg vw e) = Some r"
  shows "r = fst (GET cfg req (base (inner vw)))"
  using vreachable_inv [OF assms(1)] assms(2-4) by (rule vapply_atomic)

theorem visit_answer_atomic_witness:
  "vreachable demo_config abc_waiting \<and> db_up (db (base (inner abc_waiting)))
   \<and> answering abc_waiting (VisitEnd 0) = Some (browser_request ''abc'')
   \<and> fst (vapply demo_config abc_waiting (VisitEnd 0)) =
       Some (Redirect ''https://example.com'' (Some 301))
   \<and> fst (GET demo_config (browser_request ''abc'') (base (inner abc_waiting))) =
       Redirect ''https://example.com'' (Some 301)"
proof -
  have a: "fst (vapply demo_config abc_waiting (VisitEnd 0)) =
      Some (Redirect ''https://example.com'' (Some 301))"
    by (simp add: abc_waiting_def visit_end_def cache_populate_def Let_def next_redirect_def
        scheme_parser_def case_prod_beta)
  have b: "db_up (db (base (inner abc_waiting)))"
    and c: "answering abc_waiting (VisitEnd 0) = Some (browser_request ''abc'')"
    by (simp_all add: abc_waiting_def abc_world_facts)
  from visit_answer_atomic [OF abc_waiting_reachable b c a] a b c abc_waiting_reachable
  show ?thesis by simp
qed

text \<open>
  C15. Races of visits are harmless. In every world reachable by visits in
  their three steps in any order, shorten requests in their two halves,
  trackers, outages and evictions in between: the base world satisfies
  \<open>world_inv\<close>, so the cache agrees with the store whichever visit writes
  it and whenever; every waiting visit asked for a slug that is not empty;
  and the row a waiting visit has read is still the row of its slug, up to
  the click counter.
\<close>

theorem vreachable_vworld_inv:
  assumes "vreachable cfg vw"
  shows "vworld_inv cfg vw"
  using assms by (rule vreachable_inv)

theorem vreachable_vworld_inv_witness:
  "vreachable demo_config abc_waiting \<and> vworld_inv demo_config abc_waiting"
  using vreachable_vworld_inv [of demo_config abc_waiting] abc_waiting_reachable by blast

text \<open>
  C16. A redirect reflects the store. In every reachable world, whichever
  step of whichever visit sends it, a redirect with status 301 goes to the
  destination the store holds for the slug that was asked for, be it answered
  from the cache or from a row read earlier.
\<close>

theorem redirect_reflects_store:
  assumes "vreachable cfg vw" and "fst (vapply cfg vw e) = Some (Redirect u (Some 301))"
  shows "resolve (db (base (inner vw))) (asked vw e) = Some u"
  using vreachable_inv [OF assms(1)] assms(2) by (rule vapply_301)

theorem redirect_reflects_store_witness:
  "vreachable demo_config abc_waiting
   \<and> fst (vapply demo_config abc_waiting (VisitEnd 0)) =
       Some (Redirect ''https://example.com'' (Some 301))
   \<and> resolve (db (base (inner abc_waiting))) (asked abc_waiting (VisitEnd 0)) =
       Some ''https://example.com''"
proof -
  have a: "fst (vapply demo_config abc_waiting (VisitEnd 0)) =
      Some (Redirect ''https://example.com'' (Some 301))"
    by (simp add: abc_waiting_def visit_end_def cache_populate_def Let_def next_redirect_def
        scheme_parser_def case_prod_beta)
  from redirect_reflects_store [OF abc_waiting_reachable a] a abc_waiting_reachable
  show ?thesis by simp
qed

end
