(* ===== verification/Page.thy ===== *)
theory Page
  imports Shorten
begin

text \<open>
  \<open>src/app/page.tsx\<close>: the state of the home page and its two handlers,
  \<open>handleSubmit\<close> and \<open>handleCopy\<close>, with the inline handlers of the form. The
  page is the client of \<open>POST /api/shorten\<close>. \<open>handleSubmit\<close> awaits the answer,
  so it is two steps with the page in its loading state between them; the
  QR code and the reset of the copy mark arrive later still, as jobs of their
  own. The guards of \<open>ui_step\<close> are the \<open>disabled\<close> attributes and the conditional
  rendering of the markup; the markup itself is in \<open>View\<close>.
\<close>

section \<open>State\<close>

record shortened =
  r_shortUrl :: string
  r_originalUrl :: string
  r_slug :: string

text \<open>The eight \<open>useState\<close> cells of lines 10 to 17, with their initial values.\<close>

record page =
  url :: string
  customSlug :: string
  showCustom :: bool
  loading :: bool
  error :: string
  result :: "shortened option"
  qrCode :: "string option"
  copied :: bool

definition initial_page :: page where
  "initial_page =
     \<lparr>url = [], customSlug = [], showCustom = False, loading = False, error = [],
      result = None, qrCode = None, copied = False\<rparr>"

text \<open>
  What the browser holds besides: the request that is awaited, the QR codes
  being drawn (each for the short URL it was started with), the timers of
  \<open>handleCopy\<close> that have not fired, and the clipboard.
\<close>

record browser =
  view :: page
  request :: "jsval option"
  qr_jobs :: "string list"
  timers :: nat
  clipboard :: "string option"

definition initial_browser :: browser where
  "initial_browser =
     \<lparr>view = initial_page, request = None, qr_jobs = [], timers = 0, clipboard = None\<rparr>"

section \<open>\<open>handleSubmit\<close>\<close>

text \<open>\<open>String.prototype.trim\<close> on ASCII: space, tab, line feed, vertical tab, form feed, return.\<close>

definition is_space :: "char \<Rightarrow> bool" where
  "is_space c \<longleftrightarrow> c \<in> set [CHR '' '', CHR 0x09, CHR 0x0A, CHR 0x0B, CHR 0x0C, CHR 0x0D]"

definition trim :: "string \<Rightarrow> string" where
  "trim s = rev (dropWhile is_space (rev (dropWhile is_space s)))"

text \<open>Lines 28 to 31: the payload, as the server's \<open>req.json()\<close> will read it.\<close>

definition payload_of :: "page \<Rightarrow> jsval" where
  "payload_of p =
     JObj ((''originalUrl'', JStr (url p)) #
           (if showCustom p \<and> trim (customSlug p) \<noteq> []
            then [(''customSlug'', JStr (trim (customSlug p)))] else []))"

text \<open>Lines 20 to 37: the resets, and the request goes out.\<close>

definition submit_begin :: "browser \<Rightarrow> browser" where
  "submit_begin b =
     b\<lparr>view := (view b)\<lparr>loading := True, error := [], result := None, qrCode := None,
                          copied := False\<rparr>,
       request := Some (payload_of (view b))\<rparr>"

text \<open>
  What \<open>await fetch\<close> gives: a rejection with the message of its error, or a
  response. \<open>res.json()\<close> succeeds on a JSON response; \<open>res.ok\<close> is a status from
  200 to 299.
\<close>

datatype fetch_outcome = Rejected string | Answered response

fun res_json :: "response \<Rightarrow> json_body option" where
  "res_json (Json code body) = Some body"
| "res_json r = None"

definition res_ok :: "response \<Rightarrow> bool" where
  "res_ok r \<longleftrightarrow> 200 \<le> status_of r \<and> status_of r \<le> 299"

definition or_default :: "string \<Rightarrow> string \<Rightarrow> string" where
  "or_default s d = (if s = [] then d else s)"

text \<open>The \<open>catch\<close> and \<open>finally\<close> of lines 68 to 76 for an \<open>Error\<close> with this message.\<close>

definition submit_failed :: "browser \<Rightarrow> string \<Rightarrow> browser" where
  "submit_failed b msg =
     b\<lparr>view := (view b)\<lparr>error := or_default msg ''An unexpected error occurred.'',
                          loading := False\<rparr>,
       request := None\<rparr>"

fun data_error :: "json_body \<Rightarrow> string" where
  "data_error (ErrorBody msg) = msg"
| "data_error (SuccessBody su s u) = []"

text \<open>
  Lines 39 to 76. With an \<open>ok\<close> answer, \<open>setResult(data.data)\<close> stores the triple
  of a success body and starts the drawing of its QR code; for an \<open>ok\<close> answer
  without \<open>data\<close> the cell holds \<open>undefined\<close>, nothing is drawn (the failure is
  inside the detached promise), and the inputs are cleared all the same.
\<close>

definition submit_end :: "browser \<Rightarrow> fetch_outcome \<Rightarrow> browser" where
  "submit_end b outcome =
     (case outcome of
        Rejected msg \<Rightarrow> submit_failed b msg
      | Answered res \<Rightarrow>
          (case res_json res of
             None \<Rightarrow>
               submit_failed b ''Our servers are currently unreachable. Please try again later.''
           | Some data \<Rightarrow>
               if \<not> res_ok res
               then submit_failed b (or_default (data_error data) ''Failed to shorten URL'')
               else
                 (case data of
                    SuccessBody su s u \<Rightarrow>
                      b\<lparr>view := (view b)\<lparr>result := Some \<lparr>r_shortUrl = su, r_originalUrl = u,
                                                              r_slug = s\<rparr>,
                                           url := [], customSlug := [], showCustom := False,
                                           loading := False\<rparr>,
                        request := None, qr_jobs := qr_jobs b @ [su]\<rparr>
                  | ErrorBody msg \<Rightarrow>
                      b\<lparr>view := (view b)\<lparr>result := None, url := [], customSlug := [],
                                           showCustom := False, loading := False\<rparr>,
                        request := None\<rparr>)))"

section \<open>The other handlers\<close>

text \<open>Lines 54 to 63, second half: a QR code has been drawn; \<open>qr\<close> is \<open>QRCode.toDataURL\<close>.\<close>

definition qr_done :: "(string \<Rightarrow> string) \<Rightarrow> nat \<Rightarrow> browser \<Rightarrow> browser" where
  "qr_done qr i b =
     (if i < length (qr_jobs b)
      then b\<lparr>view := (view b)\<lparr>qrCode := Some (qr (qr_jobs b ! i))\<rparr>,
             qr_jobs := take i (qr_jobs b) @ drop (Suc i) (qr_jobs b)\<rparr>
      else b)"

text \<open>Lines 79 to 85, and the timer it sets.\<close>

definition handleCopy :: "browser \<Rightarrow> browser" where
  "handleCopy b =
     (case result (view b) of
        None \<Rightarrow> b
      | Some r \<Rightarrow>
          b\<lparr>view := (view b)\<lparr>copied := True\<rparr>, clipboard := Some (r_shortUrl r),
            timers := Suc (timers b)\<rparr>)"

definition copy_expired :: "browser \<Rightarrow> browser" where
  "copy_expired b =
     (if 0 < timers b then b\<lparr>view := (view b)\<lparr>copied := False\<rparr>, timers := timers b - 1\<rparr>
      else b)"

section \<open>The page as a state machine\<close>

text \<open>
  An event runs its handler when the markup lets it: the inputs and the submit
  button are disabled while loading, the button also while the URL is empty
  (lines 114, 116, 138); the alias input and the remove button exist only
  while \<open>showCustom\<close> is set, the show button only while it is not (lines 122
  to 152); the copy button exists only with a result (line 163).
\<close>

datatype ui_event =
    SetUrl string | SetCustomSlug string | ShowCustom | RemoveCustom
  | Submit | Respond fetch_outcome | QrDone nat | Copy | CopyExpired

fun ui_step :: "(string \<Rightarrow> string) \<Rightarrow> browser \<Rightarrow> ui_event \<Rightarrow> browser" where
  "ui_step qr b (SetUrl v) = (if loading (view b) then b else b\<lparr>view := (view b)\<lparr>url := v\<rparr>\<rparr>)"
| "ui_step qr b (SetCustomSlug v) =
     (if loading (view b) \<or> \<not> showCustom (view b) then b
      else b\<lparr>view := (view b)\<lparr>customSlug := v\<rparr>\<rparr>)"
| "ui_step qr b ShowCustom =
     (if showCustom (view b) then b else b\<lparr>view := (view b)\<lparr>showCustom := True\<rparr>\<rparr>)"
| "ui_step qr b RemoveCustom =
     (if showCustom (view b) then b\<lparr>view := (view b)\<lparr>showCustom := False, customSlug := []\<rparr>\<rparr>
      else b)"
| "ui_step qr b Submit =
     (if loading (view b) \<or> url (view b) = [] then b else submit_begin b)"
| "ui_step qr b (Respond outcome) = (if request b = None then b else submit_end b outcome)"
| "ui_step qr b (QrDone i) = qr_done qr i b"
| "ui_step qr b Copy = handleCopy b"
| "ui_step qr b CopyExpired = copy_expired b"

fun ui_run :: "(string \<Rightarrow> string) \<Rightarrow> browser \<Rightarrow> ui_event list \<Rightarrow> browser" where
  "ui_run qr b [] = b"
| "ui_run qr b (e # es) = ui_run qr (ui_step qr b e) es"

inductive ui_reachable :: "(string \<Rightarrow> string) \<Rightarrow> browser \<Rightarrow> bool" for qr where
  ui_init: "ui_reachable qr initial_browser"
| ui_next: "ui_reachable qr b \<Longrightarrow> ui_reachable qr (ui_step qr b e)"

lemma ui_run_append: "ui_run qr b (es @ fs) = ui_run qr (ui_run qr b es) fs"
  by (induction es arbitrary: b) simp_all

lemma ui_reachable_run: "ui_reachable qr b \<Longrightarrow> ui_reachable qr (ui_run qr b es)"
  by (induction es arbitrary: b) (auto intro: ui_reachable.ui_next)

lemmas page_defs =
  submit_begin_def submit_end_def submit_failed_def qr_done_def handleCopy_def copy_expired_def
  or_default_def

section \<open>What the page sends\<close>

lemma trim_spaces: "list_all is_space s \<Longrightarrow> trim s = []"
proof -
  assume "list_all is_space s"
  then have "dropWhile is_space s = []" by (simp add: list_all_iff)
  then show ?thesis by (simp add: trim_def del: dropWhile_eq_Nil_conv)
qed

definition custom_of :: "page \<Rightarrow> jsval" where
  "custom_of p =
     (if showCustom p \<and> trim (customSlug p) \<noteq> [] then JStr (trim (customSlug p)) else JUndefined)"

lemma payload_props [simp]:
  "get_prop (payload_of p) ''originalUrl'' = JStr (url p)"
  "get_prop (payload_of p) ''customSlug'' = custom_of p"
  "\<not> nullish (payload_of p)"
  by (simp_all add: payload_of_def custom_of_def)

lemma POST_payload:
  "POST cfg now (Inr (payload_of p)) st pos = POST cfg now (shorten_body (url p) (custom_of p)) st pos"
  by (simp add: POST_def shorten_check_def shorten_body_def)

lemma POST_invalid_url:
  "u \<noteq> [] \<Longrightarrow> \<not> isValidUrl (parse_url cfg) (JStr u) \<Longrightarrow>
     POST cfg now (shorten_body u c) st pos = (Json 400 (ErrorBody ''Invalid URL format''), st, pos)"
  by (simp add: POST_def shorten_check_def shorten_body_def)

lemma POST_payload_cases:
  assumes "url p \<noteq> []"
  shows "(\<exists>code msg pos'. msg \<noteq> [] \<and> code \<in> {400, 409, 500}
            \<and> POST cfg now (Inr (payload_of p)) st pos = (Json code (ErrorBody msg), st, pos'))
    \<or> (\<exists>s pos'. s \<notin> slugs st
          \<and> POST cfg now (Inr (payload_of p)) st pos =
              (Json 201 (SuccessBody (short_url cfg s) s (url p)),
               st\<lparr>links := links st @ [\<lparr>link_id = next_id st, slug = s, originalUrl = url p,
                                           totalClicks = 0, createdAt = now\<rparr>],
                  next_id := Suc (next_id st)\<rparr>, pos'))"
proof (cases "isValidUrl (parse_url cfg) (JStr (url p))")
  case False
  with assms show ?thesis by (simp add: POST_payload POST_invalid_url)
next
  case True
  show ?thesis
  proof (cases "showCustom p \<and> trim (customSlug p) \<noteq> []")
    case custom: True
    with POST_custom [OF assms True, of "trim (customSlug p)" now st pos] show ?thesis
      by (simp add: POST_payload custom_of_def internal_error_def)
  next
    case False
    then have c: "\<not> truthy (custom_of p)" by (simp add: custom_of_def)
    let ?g = "generateUniqueSlug (tape cfg) st (Some 6) (Some 5) pos"
    show ?thesis
    proof (cases "fst ?g")
      case (Inl e)
      with POST_generated_aux [OF assms True c, of now st pos] show ?thesis
        by (simp add: POST_payload)
    next
      case (Inr s)
      with generateUniqueSlug_Inr [of "tape cfg" st "Some 6" "Some 5" pos s]
      have "s \<notin> slugs st" by (simp add: slug_free_iff)
      with Inr POST_generated_aux [OF assms True c, of now st pos] show ?thesis
        by (simp add: POST_payload)
    qed
  qed
qed

section \<open>The page and the server\<close>

text \<open>One submit against the server: the request goes out, \<open>POST\<close> runs, the answer comes back.\<close>

definition submit_to :: "config \<Rightarrow> nat \<Rightarrow> browser \<Rightarrow> store \<Rightarrow> nat \<Rightarrow> browser \<times> store \<times> nat" where
  "submit_to cfg now b st pos =
     (case POST cfg now (Inr (payload_of (view b))) st pos of
        (r, st', pos') \<Rightarrow> (submit_end (submit_begin b) (Answered r), st', pos'))"

text \<open>
  C28. The page and the server agree. A submit with a non-empty URL ends with
  the page out of its loading state and showing either a link or an error
  message, never both and never neither. A link that is shown was stored: its
  slug resolves to the URL that was typed, its short URL is the configured
  base joined with the slug, and the URL field is cleared. When an error is
  shown the store is as it was and the URL is still in the field.
\<close>

theorem submit_shows_link_or_error:
  assumes "url (view b) \<noteq> []"
  shows "case submit_to cfg now b st pos of
      (b', st', pos') \<Rightarrow>
        \<not> loading (view b') \<and> request b' = None
        \<and> (case result (view b') of
             Some r \<Rightarrow>
               error (view b') = [] \<and> r_originalUrl r = url (view b)
               \<and> r_shortUrl r = short_url cfg (r_slug r)
               \<and> resolve st' (r_slug r) = Some (url (view b)) \<and> url (view b') = []
           | None \<Rightarrow> error (view b') \<noteq> [] \<and> st' = st \<and> url (view b') = url (view b))"
  using POST_payload_cases [OF assms, of cfg now st pos]
proof (elim disjE exE conjE)
  fix code msg pos'
  assume "msg \<noteq> []" "code \<in> {400, 409, 500}"
    "POST cfg now (Inr (payload_of (view b))) st pos = (Json code (ErrorBody msg), st, pos')"
  then show ?thesis by (auto simp: submit_to_def page_defs res_ok_def)
next
  fix s pos'
  assume "s \<notin> slugs st"
    "POST cfg now (Inr (payload_of (view b))) st pos =
      (Json 201 (SuccessBody (short_url cfg s) s (url (view b))),
       st\<lparr>links := links st @ [\<lparr>link_id = next_id st, slug = s, originalUrl = url (view b),
                                   totalClicks = 0, createdAt = now\<rparr>],
          next_id := Suc (next_id st)\<rparr>, pos')"
  then show ?thesis
    by (simp add: submit_to_def page_defs res_ok_def resolve_def link_by_slug_def
        find_append_snoc in_slugs_iff)
qed

definition typed_url :: "string \<Rightarrow> browser" where
  "typed_url u = initial_browser\<lparr>view := initial_page\<lparr>url := u\<rparr>\<rparr>"

theorem submit_shows_link_or_error_witness:
  "url (view (typed_url ''https://example.com'')) \<noteq> []
   \<and> result (view (fst (submit_to demo_config 7 (typed_url ''https://example.com'') empty_store 0))) =
       Some \<lparr>r_shortUrl = ''https://okg.me/000000'', r_originalUrl = ''https://example.com'',
             r_slug = ''000000''\<rparr>
   \<and> error (view (fst (submit_to demo_config 7 (typed_url ''ftp://example.com'') empty_store 0))) =
       ''Invalid URL format''"
proof -
  have g: "generateUniqueSlug zero_tape empty_store (Some 6) (Some 5) 0 = (Inr ''000000'', 6)"
    by (simp add: generateUniqueSlug_def generateUniqueSlug_from_unfold slug_free_def
        link_by_slug_def empty_store_def eval_nat_numeral)
  have 1: "POST demo_config 7 (Inr (payload_of (view (typed_url ''https://example.com''))))
      empty_store 0 =
      (Json 201 (SuccessBody ''https://okg.me/000000'' ''000000'' ''https://example.com''),
       empty_store\<lparr>links := [\<lparr>link_id = 0, slug = ''000000'', originalUrl = ''https://example.com'',
                                 totalClicks = 0, createdAt = 7\<rparr>], next_id := 1\<rparr>, 6)"
    by (simp add: POST_payload typed_url_def initial_browser_def initial_page_def custom_of_def
        POST_generated_aux scheme_parser_examples g short_url_def)
  have 2: "POST demo_config 7 (Inr (payload_of (view (typed_url ''ftp://example.com''))))
      empty_store 0 = (Json 400 (ErrorBody ''Invalid URL format''), empty_store, 0)"
    by (simp add: POST_payload typed_url_def initial_browser_def initial_page_def
        POST_invalid_url scheme_parser_examples)
  from submit_shows_link_or_error [where b = "typed_url ''https://example.com''"
      and cfg = demo_config and now = 7 and st = empty_store and pos = 0] 1 2
  show ?thesis
    by (simp add: submit_to_def page_defs res_ok_def typed_url_def initial_browser_def
        initial_page_def)
qed

section \<open>What every state of the page satisfies\<close>

definition payload_ok :: "jsval \<Rightarrow> bool" where
  "payload_ok p \<longleftrightarrow>
     is_string (get_prop p ''originalUrl'') \<and> truthy (get_prop p ''originalUrl'')
     \<and> (get_prop p ''customSlug'' = JUndefined
        \<or> is_string (get_prop p ''customSlug'') \<and> truthy (get_prop p ''customSlug''))"

definition page_inv :: "browser \<Rightarrow> bool" where
  "page_inv b \<longleftrightarrow>
     (loading (view b) \<longleftrightarrow> request b \<noteq> None)
     \<and> (case request b of None \<Rightarrow> True | Some p \<Rightarrow> payload_ok p)
     \<and> (loading (view b) \<longrightarrow> error (view b) = [] \<and> result (view b) = None)
     \<and> (error (view b) \<noteq> [] \<longrightarrow> result (view b) = None)
     \<and> (copied (view b) \<longrightarrow>
          result (view b) \<noteq> None \<and> clipboard b = map_option r_shortUrl (result (view b)))"

lemma payload_ok_payload_of: "url p \<noteq> [] \<Longrightarrow> payload_ok (payload_of p)"
  by (simp add: payload_ok_def custom_of_def)

lemma page_inv_initial: "page_inv initial_browser"
  by (simp add: page_inv_def initial_browser_def initial_page_def)

lemma submit_begin_inv: "url (view b) \<noteq> [] \<Longrightarrow> page_inv (submit_begin b)"
  by (simp add: page_inv_def submit_begin_def payload_ok_payload_of)

lemma submit_end_inv: "page_inv b \<Longrightarrow> request b \<noteq> None \<Longrightarrow> page_inv (submit_end b outcome)"
  by (auto simp: page_inv_def page_defs split: fetch_outcome.splits option.splits
      json_body.splits)

lemma ui_step_inv:
  assumes "page_inv b"
  shows "page_inv (ui_step qr b e)"
proof (cases e)
  case Submit
  with assms show ?thesis by (auto simp: submit_begin_inv)
next
  case (Respond outcome)
  with assms show ?thesis by (auto simp: submit_end_inv)
qed (use assms in \<open>auto simp: page_inv_def qr_done_def handleCopy_def copy_expired_def
      split: option.splits\<close>)

text \<open>
  In every state the page can reach, whatever the server answers and in
  whatever order answers, QR codes and timers arrive: the page is loading
  exactly while a request is awaited; the request that is awaited carries a
  non-empty URL string and, if any, a non-empty alias string, never another
  JSON type; while loading neither an error nor a link is shown; an error and
  a link are never shown together; and \<open>Copied!\<close> is shown only beside the link
  whose short URL is on the clipboard.
\<close>

theorem ui_reachable_page_inv:
  assumes "ui_reachable qr b"
  shows "page_inv b"
  using assms
proof (induction rule: ui_reachable.induct)
  case ui_init
  show ?case by (rule page_inv_initial)
next
  case (ui_next b e)
  from ui_next.IH show ?case by (rule ui_step_inv)
qed

theorem ui_reachable_page_inv_witness:
  "ui_reachable id (ui_run id initial_browser [SetUrl ''https://example.com'', Submit])
   \<and> page_inv (ui_run id initial_browser [SetUrl ''https://example.com'', Submit])"
  using ui_reachable_page_inv [of id "ui_run id initial_browser [SetUrl ''https://example.com'', Submit]"]
    ui_reachable_run [OF ui_init]
  by blast

section \<open>A QR code that arrives late\<close>

text \<open>
  C29. The QR code can belong to another link than the one shown. The drawing
  of a QR code is started with the short URL of its answer and is not
  cancelled by the next submit. When the page shortens a second URL before
  the first code has arrived and the first code arrives after the second,
  the page shows the second link with the QR code of the first, and offers
  it for download under the second slug.
\<close>

theorem late_qr_code:
  assumes "\<not> loading (view b)" and "request b = None" and "qr_jobs b = []"
    and "u1 \<noteq> []" and "u2 \<noteq> []"
  shows "view (ui_run qr b
      [SetUrl u1, Submit, Respond (Answered (Json 201 (SuccessBody su1 s1 u1))),
       SetUrl u2, Submit, Respond (Answered (Json 201 (SuccessBody su2 s2 u2))),
       QrDone 1, QrDone 0]) =
    (view b)\<lparr>url := [], customSlug := [], showCustom := False, loading := False, error := [],
              result := Some \<lparr>r_shortUrl = su2, r_originalUrl = u2, r_slug = s2\<rparr>,
              qrCode := Some (qr su1), copied := False\<rparr>"
  using assms by (simp add: page_defs res_ok_def)

theorem late_qr_code_witness:
  "view (ui_run (\<lambda>s. ''qr:'' @ s) initial_browser
      [SetUrl ''https://a.example'', Submit,
       Respond (Answered (Json 201 (SuccessBody ''https://okg.me/aaa'' ''aaa'' ''https://a.example''))),
       SetUrl ''https://b.example'', Submit,
       Respond (Answered (Json 201 (SuccessBody ''https://okg.me/bbb'' ''bbb'' ''https://b.example''))),
       QrDone 1, QrDone 0]) =
     initial_page\<lparr>result := Some \<lparr>r_shortUrl = ''https://okg.me/bbb'',
                                       r_originalUrl = ''https://b.example'', r_slug = ''bbb''\<rparr>,
                   qrCode := Some ''qr:https://okg.me/aaa''\<rparr>"
proof -
  have idle: "\<not> loading (view initial_browser)" "request initial_browser = None"
    "qr_jobs initial_browser = []"
    by (simp_all add: initial_browser_def initial_page_def)
  have shown: "(view initial_browser)\<lparr>url := [], customSlug := [], showCustom := False,
      loading := False, error := [],
      result := Some \<lparr>r_shortUrl = ''https://okg.me/bbb'', r_originalUrl = ''https://b.example'',
                       r_slug = ''bbb''\<rparr>,
      qrCode := Some ''qr:https://okg.me/aaa'', copied := False\<rparr> =
    initial_page\<lparr>result := Some \<lparr>r_shortUrl = ''https://okg.me/bbb'',
                                     r_originalUrl = ''https://b.example'', r_slug = ''bbb''\<rparr>,
                 qrCode := Some ''qr:https://okg.me/aaa''\<rparr>"
    by (simp add: initial_browser_def initial_page_def)
  have typed: "''https://a.example'' \<noteq> []" "''https://b.example'' \<noteq> []" by simp_all
  from late_qr_code [OF idle typed, where qr = "\<lambda>s. ''qr:'' @ s" and ?su1.0 = "''https://okg.me/aaa''"
      and ?s1.0 = "''aaa''" and ?su2.0 = "''https://okg.me/bbb''" and ?s2.0 = "''bbb''"]
  show ?thesis by (simp only: shown append.simps)
qed

end
