(* ===== verification/View.thy ===== *)
theory View
  imports Page
begin

text \<open>
  What the pages render. \<open>src/components/ui/Card.tsx\<close>,
  \<open>src/components/ui/Input.tsx\<close>, \<open>src/app/layout.tsx\<close> and the markup of
  \<open>src/app/page.tsx\<close> (lines 87 to 212) are functions from props and state to
  an element tree; they are modelled as such. A class name of a CSS module is
  what the module maps the key to, a parameter. \<open>Button\<close> is imported by the
  page and is not part of the sources: its element stays in the tree as it is
  written, with its props. The lemmas say which handlers a tree offers, that
  this is what \<open>ui_step\<close> accepts, and what a tree shows of the state.
\<close>

section \<open>Element trees\<close>

text \<open>The handlers the markup attaches, by the line that attaches them.\<close>

datatype handler =
    OnSubmit            \<comment> \<open>\<open>onSubmit={handleSubmit}\<close>, line 105\<close>
  | OnChangeUrl         \<comment> \<open>\<open>setUrl(e.target.value)\<close>, line 113\<close>
  | OnShowCustom        \<comment> \<open>\<open>setShowCustom(true)\<close>, line 126\<close>
  | OnChangeCustomSlug  \<comment> \<open>\<open>setCustomSlug(e.target.value)\<close>, line 137\<close>
  | OnRemoveCustom      \<comment> \<open>lines 143 to 146\<close>
  | OnCopy              \<comment> \<open>\<open>onClick={handleCopy}\<close>, line 175\<close>

datatype prop_value =
    PStr string | PBool bool | PStyle "(string \<times> string) list" | PHandler handler

type_synonym props = "(string \<times> prop_value) list"

text \<open>
  An element is a tag or the name of a component, its props in the order they
  are written, and its children. Children that render nothing (\<open>false\<close>,
  \<open>null\<close>, the empty string) are left out.
\<close>

datatype node = Text string | Element string props "node list"

text \<open>A prop written twice, or spread after it was written, has its last value.\<close>

definition prop_of :: "props \<Rightarrow> string \<Rightarrow> prop_value option" where
  "prop_of ps k = map_of (rev ps) k"

text \<open>The three CSS modules: what each maps a key to.\<close>

record stylesheets =
  page_css :: "string \<Rightarrow> string"
  card_css :: "string \<Rightarrow> string"
  input_css :: "string \<Rightarrow> string"

text \<open>\<open>x && element\<close> for a string and for a node.\<close>

definition str_truthy :: "string option \<Rightarrow> bool" where
  "str_truthy s \<longleftrightarrow> s \<noteq> None \<and> s \<noteq> Some []"

definition node_truthy :: "node option \<Rightarrow> bool" where
  "node_truthy n \<longleftrightarrow> n \<noteq> None \<and> n \<noteq> Some (Text [])"

definition or_empty :: "string option \<Rightarrow> string" where
  "or_empty s = (case s of None \<Rightarrow> [] | Some v \<Rightarrow> v)"

text \<open>The nodes \<open>{x}\<close> puts into the tree: none for \<open>undefined\<close> and for the empty string.\<close>

definition rendered :: "node option \<Rightarrow> node list" where
  "rendered n = (case n of None \<Rightarrow> [] | Some x \<Rightarrow> if x = Text [] then [] else [x])"

section \<open>\<open>Card\<close>\<close>

record card_props =
  c_children :: "node list"
  c_className :: "string option"
  c_glow :: "bool option"
  c_rest :: props

definition Card :: "stylesheets \<Rightarrow> card_props \<Rightarrow> node" where
  "Card css cp =
     Element ''div''
       ((''className'',
         PStr (''glass-panel '' @ card_css css ''card'' @ '' ''
               @ (if c_glow cp = Some True then card_css css ''glow'' else []) @ '' ''
               @ or_empty (c_className cp)))
        # c_rest cp)
       (c_children cp)"

section \<open>\<open>Input\<close>\<close>

record input_props =
  i_label :: "string option"
  i_error :: "string option"
  i_icon :: "node option"
  i_className :: "string option"
  i_rest :: props

text \<open>The template literal of lines 19 to 23, with its line breaks and indentation.\<close>

definition input_class :: "stylesheets \<Rightarrow> input_props \<Rightarrow> string" where
  "input_class css ip =
     CHR 0x0A # replicate 14 CHR '' '' @ input_css css ''input'' @ '' ''
     @ CHR 0x0A # replicate 14 CHR '' ''
     @ (if str_truthy (i_error ip) then input_css css ''errorInput'' else []) @ '' ''
     @ CHR 0x0A # replicate 14 CHR '' ''
     @ (if node_truthy (i_icon ip) then input_css css ''withIcon'' else [])
     @ CHR 0x0A # replicate 12 CHR '' ''"

definition Input :: "stylesheets \<Rightarrow> input_props \<Rightarrow> node" where
  "Input css ip =
     Element ''div''
       [(''className'', PStr (input_css css ''wrapper'' @ '' '' @ or_empty (i_className ip)))]
       ((if str_truthy (i_label ip)
         then [Element ''label'' [(''className'', PStr (input_css css ''label''))]
                 [Text (or_empty (i_label ip))]]
         else [])
        @ [Element ''div'' [(''className'', PStr (input_css css ''inputContainer''))]
             (map (\<lambda>ic. Element ''div'' [(''className'', PStr (input_css css ''icon''))] [ic])
                (rendered (i_icon ip))
              @ [Element ''input'' ((''className'', PStr (input_class css ip)) # i_rest ip) []])]
        @ (if str_truthy (i_error ip)
           then [Element ''span'' [(''className'', PStr (input_css css ''errorMessage''))]
                   [Text (or_empty (i_error ip))]]
           else []))"

definition Input_displayName :: string where
  "Input_displayName = ''Input''"

section \<open>\<open>RootLayout\<close>\<close>

record page_metadata =
  m_title :: string
  m_description :: string

definition metadata :: page_metadata where
  "metadata =
     \<lparr>m_title = ''okg.me - Premium URL Shortener'',
      m_description =
        ''A high-performance URL shortener with a custom glass rose-eclipse theme.''\<rparr>"

definition RootLayout :: "node list \<Rightarrow> node" where
  "RootLayout children =
     Element ''html'' [(''lang'', PStr ''en'')]
       [Element ''body'' []
          [Element ''main'' [(''className'', PStr ''main-container'')] children]]"

section \<open>The markup of \<open>Home\<close>\<close>

text \<open>Lines 91 to 100.\<close>

definition hero :: "stylesheets \<Rightarrow> node" where
  "hero css =
     Element ''section'' [(''className'', PStr (page_css css ''hero''))]
       [Element ''h1'' [(''className'', PStr (page_css css ''title''))]
          [Text ''Shorten Your Links. '', Element ''br'' [] [],
           Element ''span'' [(''className'', PStr (page_css css ''highlight''))]
             [Text ''Amplify Your Reach.'']],
        Element ''p'' [(''className'', PStr (page_css css ''subtitle''))]
          [Text (''The premium URL shortener built for speed, analytics, and elegant design. ''
                 @ ''Manage your links like a pro with okg.me.'')]]"

text \<open>Lines 106 to 119: the URL field and the submit button.\<close>

definition input_group :: "stylesheets \<Rightarrow> page \<Rightarrow> node" where
  "input_group css p =
     Element ''div'' [(''className'', PStr (page_css css ''inputGroup''))]
       [Input css
          \<lparr>i_label = None, i_error = None, i_icon = None,
           i_className = Some (page_css css ''urlInput''),
           i_rest = [(''placeholder'', PStr ''Paste your long link here...''),
                     (''type'', PStr ''url''), (''required'', PBool True),
                     (''value'', PStr (url p)), (''onChange'', PHandler OnChangeUrl),
                     (''disabled'', PBool (loading p))]\<rparr>,
        Element ''Button''
          [(''type'', PStr ''submit''), (''size'', PStr ''lg''),
           (''className'', PStr (page_css css ''shortenBtn'')),
           (''disabled'', PBool (loading p \<or> url p = []))]
          [Text (if loading p then ''Shortening...'' else ''Shorten Now'')]]"

text \<open>Lines 121 to 153: the button that shows the alias field, or the field and the button that removes it.\<close>

definition custom_options :: "stylesheets \<Rightarrow> page \<Rightarrow> node" where
  "custom_options css p =
     Element ''div'' [(''className'', PStr (page_css css ''customOptions''))]
       [if \<not> showCustom p then
          Element ''button''
            [(''type'', PStr ''button''), (''className'', PStr (page_css css ''toggleCustom'')),
             (''onClick'', PHandler OnShowCustom)]
            [Text ''+ Options (Custom Alias)'']
        else
          Element ''div''
            [(''className'', PStr (page_css css ''customSlugContainer'')),
             (''style'', PStyle [(''animation'', ''fadeUp 0.3s ease-out'')])]
            [Input css
               \<lparr>i_label = None, i_error = None, i_icon = None,
                i_className = Some (page_css css ''urlInput''),
                i_rest = [(''placeholder'', PStr ''Custom alias (optional)''),
                          (''type'', PStr ''text''),
                          (''value'', PStr (customSlug p)),
                          (''onChange'', PHandler OnChangeCustomSlug),
                          (''disabled'', PBool (loading p))]\<rparr>,
             Element ''button''
               [(''type'', PStr ''button''),
                (''className'', PStr (page_css css ''toggleCustom'')),
                (''onClick'', PHandler OnRemoveCustom),
                (''style'', PStyle [(''marginTop'', ''0.5rem''),
                                    (''color'', ''var(--text-muted)'')])]
               [Text ''- Remove Custom Alias'']]]"

text \<open>Lines 105 to 160: the form.\<close>

definition shortener_form :: "stylesheets \<Rightarrow> page \<Rightarrow> node" where
  "shortener_form css p =
     Element ''form''
       [(''className'', PStr (page_css css ''formContainer'')), (''onSubmit'', PHandler OnSubmit)]
       ([input_group css p, custom_options css p]
        @ (if error p \<noteq> []
           then [Element ''div'' [(''className'', PStr (page_css css ''errorMessage''))]
                   [Text (error p)]]
           else []))"

text \<open>Lines 164 to 190, for the result \<open>r\<close>.\<close>

definition result_area :: "stylesheets \<Rightarrow> page \<Rightarrow> shortened \<Rightarrow> node" where
  "result_area css p r =
     Element ''div'' [(''className'', PStr (page_css css ''resultContainer''))]
       (Element ''div'' [(''className'', PStr (page_css css ''resultInfo''))]
          [Element ''div'' [(''className'', PStr (page_css css ''resultDetails''))]
             [Element ''p''
                [(''className'', PStr (page_css css ''originalUrl'')),
                 (''title'', PStr (r_originalUrl r))]
                [Text (r_originalUrl r)],
              Element ''a''
                [(''href'', PStr (r_shortUrl r)), (''target'', PStr ''_blank''),
                 (''rel'', PStr ''noreferrer''),
                 (''className'', PStr (page_css css ''shortUrl''))]
                [Text (r_shortUrl r)]],
           Element ''div'' [(''className'', PStr (page_css css ''resultActions''))]
             (Element ''Button'' [(''variant'', PStr ''secondary''), (''onClick'', PHandler OnCopy)]
                [Text (if copied p then ''Copied!'' else ''Copy'')]
              # (if str_truthy (qrCode p)
                 then [Element ''a''
                         [(''href'', PStr (or_empty (qrCode p))),
                          (''download'', PStr (''qr-'' @ r_slug r @ ''.png'')),
                          (''className'', PStr (page_css css ''downloadQrBtn''))]
                         [Text ''Download QR'']]
                 else []))]
        # (if str_truthy (qrCode p)
           then [Element ''div'' [(''className'', PStr (page_css css ''qrCodeWrapper''))]
                   [Element ''img''
                      [(''src'', PStr (or_empty (qrCode p))), (''alt'', PStr ''QR Code''),
                       (''className'', PStr (page_css css ''qrCode''))] []]]
           else []))"

text \<open>
  Lines 196 to 209. The three headings begin with a character outside ASCII,
  given here by its bytes in the source file.
\<close>

definition feature_item :: "stylesheets \<Rightarrow> string \<Rightarrow> string \<Rightarrow> node" where
  "feature_item css heading body =
     Element ''div'' [(''className'', PStr (page_css css ''featureItem''))]
       [Element ''h3'' [] [Text heading], Element ''p'' [] [Text body]]"

definition features :: "stylesheets \<Rightarrow> node" where
  "features css =
     Element ''section'' [(''className'', PStr (page_css css ''features''))]
       [feature_item css ([CHR 0xE2, CHR 0x9A, CHR 0xA1] @ '' Lightning Fast'')
          ''Redirects optimized with Redis for sub-100ms response times globally.'',
        feature_item css ([CHR 0xF0, CHR 0x9F, CHR 0x93, CHR 0x8A] @ '' Advanced Analytics'')
          ''Track unique clicks, devices, and geographic data elegantly.'',
        feature_item css ([CHR 0xF0, CHR 0x9F, CHR 0x94, CHR 0x92] @ '' Enhanced Security'')
          ''Links are safe, secure, and monitored to prevent malicious drops.'']"

text \<open>Lines 87 to 212: what \<open>Home\<close> returns in the state \<open>p\<close>.\<close>

definition Home :: "stylesheets \<Rightarrow> page \<Rightarrow> node" where
  "Home css p =
     Element ''div'' [(''className'', PStr (page_css css ''container''))]
       [hero css,
        Element ''section'' [(''className'', PStr (page_css css ''shortenerSection''))]
          [Card css
             \<lparr>c_children =
                shortener_form css p
                # (case result p of None \<Rightarrow> [] | Some r \<Rightarrow> [result_area css p r]),
              c_className = Some (page_css css ''shortenerCard''), c_glow = Some True,
              c_rest = []\<rparr>],
        features css]"

text \<open>The document of the home page: the layout around \<open>Home\<close>.\<close>

definition document :: "stylesheets \<Rightarrow> page \<Rightarrow> node" where
  "document css p = RootLayout [Home css p]"

section \<open>Reading a tree\<close>

fun tag_of :: "node \<Rightarrow> string" where
  "tag_of (Text s) = []"
| "tag_of (Element t ps cs) = t"

fun props_of :: "node \<Rightarrow> props" where
  "props_of (Text s) = []"
| "props_of (Element t ps cs) = ps"

text \<open>The elements of a tree and its texts, in document order.\<close>

fun elements :: "node \<Rightarrow> node list" where
  "elements (Text s) = []"
| "elements (Element t ps cs) = Element t ps cs # concat (map elements cs)"

fun texts :: "node \<Rightarrow> string list" where
  "texts (Text s) = [s]"
| "texts (Element t ps cs) = concat (map texts cs)"

definition by_tag :: "string \<Rightarrow> node \<Rightarrow> node list" where
  "by_tag t n = filter (\<lambda>e. tag_of e = t) (elements n)"

definition str_prop :: "string \<Rightarrow> node \<Rightarrow> string list" where
  "str_prop k e = (case prop_of (props_of e) k of Some (PStr s) \<Rightarrow> [s] | _ \<Rightarrow> [])"

definition hrefs :: "node \<Rightarrow> string list" where
  "hrefs n = concat (map (str_prop ''href'') (by_tag ''a'' n))"

definition srcs :: "node \<Rightarrow> string list" where
  "srcs n = concat (map (str_prop ''src'') (by_tag ''img'' n))"

text \<open>
  The handlers a tree offers to the user. A disabled control fires nothing. A
  form is submitted through a submit control that is not disabled: by a click
  on it, or by the return key, which does nothing while the form's submit
  button is disabled.
\<close>

definition disabled :: "props \<Rightarrow> bool" where
  "disabled ps \<longleftrightarrow> prop_of ps ''disabled'' = Some (PBool True)"

definition submit_control :: "node \<Rightarrow> bool" where
  "submit_control e \<longleftrightarrow>
     prop_of (props_of e) ''type'' = Some (PStr ''submit'') \<and> \<not> disabled (props_of e)"

fun offers :: "bool \<Rightarrow> string \<times> prop_value \<Rightarrow> handler list" where
  "offers sub (k, PHandler h) = (if k = ''onSubmit'' \<and> \<not> sub then [] else [h])"
| "offers sub (k, PStr s) = []"
| "offers sub (k, PBool f) = []"
| "offers sub (k, PStyle st) = []"

fun offered :: "node \<Rightarrow> handler list" where
  "offered (Text s) = []"
| "offered (Element t ps cs) =
     (if disabled ps then []
      else concat (map (offers (list_ex submit_control (concat (map elements cs)))) ps))
     @ concat (map offered cs)"

text \<open>The tokens of a class attribute: what white space separates.\<close>

fun class_tokens_from :: "string \<Rightarrow> string \<Rightarrow> string list" where
  "class_tokens_from cur [] = (if cur = [] then [] else [cur])"
| "class_tokens_from cur (c # cs) =
     (if is_space c then (if cur = [] then [] else [cur]) @ class_tokens_from [] cs
      else class_tokens_from (cur @ [c]) cs)"

definition class_tokens :: "string \<Rightarrow> string list" where
  "class_tokens s = class_tokens_from [] s"

definition token :: "string \<Rightarrow> bool" where
  "token s \<longleftrightarrow> s \<noteq> [] \<and> list_all (\<lambda>c. \<not> is_space c) s"

section \<open>The handlers of the page\<close>

text \<open>
  The event a handler stands for, with the value typed where it reads one, and
  the body of the handler: what it does once it runs.
\<close>

fun event_of :: "handler \<Rightarrow> string \<Rightarrow> ui_event" where
  "event_of OnSubmit v = Submit"
| "event_of OnChangeUrl v = SetUrl v"
| "event_of OnShowCustom v = ShowCustom"
| "event_of OnChangeCustomSlug v = SetCustomSlug v"
| "event_of OnRemoveCustom v = RemoveCustom"
| "event_of OnCopy v = Copy"

fun handle :: "handler \<Rightarrow> string \<Rightarrow> browser \<Rightarrow> browser" where
  "handle OnSubmit v b = submit_begin b"
| "handle OnChangeUrl v b = b\<lparr>view := (view b)\<lparr>url := v\<rparr>\<rparr>"
| "handle OnShowCustom v b = b\<lparr>view := (view b)\<lparr>showCustom := True\<rparr>\<rparr>"
| "handle OnChangeCustomSlug v b = b\<lparr>view := (view b)\<lparr>customSlug := v\<rparr>\<rparr>"
| "handle OnRemoveCustom v b = b\<lparr>view := (view b)\<lparr>showCustom := False, customSlug := []\<rparr>\<rparr>"
| "handle OnCopy v b = handleCopy b"

section \<open>Lemmas on trees\<close>

lemma prop_of_Cons:
  "prop_of ((k, v) # ps) k' =
     (case prop_of ps k' of Some w \<Rightarrow> Some w | None \<Rightarrow> if k = k' then Some v else None)"
  by (simp add: prop_of_def map_add_def split: option.splits)

lemma prop_of_Nil [simp]: "prop_of [] k = None"
  by (simp add: prop_of_def)

lemma elements_Element: "e \<in> set (elements n) \<Longrightarrow> \<exists>t ps cs. e = Element t ps cs"
  by (induction n rule: elements.induct) auto

lemma by_tag_Element:
  "by_tag t (Element t' ps cs) =
     (if t' = t then [Element t' ps cs] else []) @ concat (map (by_tag t) cs)"
  by (simp add: by_tag_def [abs_def] filter_concat comp_def)

lemma by_tag_Text [simp]: "by_tag t (Text s) = []"
  by (simp add: by_tag_def)

lemma class_tokens_from_word:
  "list_all (\<lambda>c. \<not> is_space c) w \<Longrightarrow>
     class_tokens_from cur (w @ rest) = class_tokens_from (cur @ w) rest"
  by (induction w arbitrary: cur) simp_all

lemma class_tokens_from_spaces:
  "list_all is_space w \<Longrightarrow>
     class_tokens_from cur (w @ rest) = (if cur = [] \<or> w = [] then [] else [cur])
       @ class_tokens_from (if w = [] then cur else []) rest"
  by (induction w arbitrary: cur) auto

lemma class_tokens_token:
  assumes "token w" and "is_space c"
  shows "class_tokens_from [] (w @ c # rest) = w # class_tokens_from [] rest"
  using assms class_tokens_from_word [of w "[]" "c # rest"] by (simp add: token_def)

lemma class_tokens_space [simp]:
  "is_space c \<Longrightarrow> class_tokens_from [] (c # rest) = class_tokens_from [] rest"
  by simp

lemma class_tokens_last: "token w \<Longrightarrow> class_tokens_from [] w = [w]"
  using class_tokens_from_word [of w "[]" "[]"] by (simp add: token_def)

section \<open>The handlers a tree offers\<close>

lemma disabled_simps [simp]:
  "disabled [] = False"
  "disabled ((''disabled'', PBool f) # ps) = (if prop_of ps ''disabled'' = None then f else disabled ps)"
  "k \<noteq> ''disabled'' \<Longrightarrow> disabled ((k, v) # ps) = disabled ps"
  by (auto simp: disabled_def prop_of_Cons split: option.splits)

lemma prop_of_simps [simp]:
  "k \<noteq> k' \<Longrightarrow> prop_of ((k, v) # ps) k' = prop_of ps k'"
  "prop_of ps k = None \<Longrightarrow> prop_of ((k, v) # ps) k = Some v"
  by (simp_all add: prop_of_Cons split: option.splits)

lemma offered_Input:
  "offered (Input css ip) =
     concat (map offered (rendered (i_icon ip)))
     @ (if disabled (i_rest ip) then [] else concat (map (offers False) (i_rest ip)))"
  by (simp add: Input_def comp_def)

lemma rendered_None [simp]: "rendered None = []"
  by (simp add: rendered_def)

lemma offered_input_group:
  "offered (input_group css p) = (if loading p then [] else [OnChangeUrl])"
  by (simp add: input_group_def offered_Input)

lemma submit_input_group:
  "list_ex submit_control (elements (input_group css p)) \<longleftrightarrow> \<not> loading p \<and> url p \<noteq> []"
  by (simp add: input_group_def Input_def submit_control_def)

lemma offered_custom_options:
  "offered (custom_options css p) =
     (if showCustom p then (if loading p then [] else [OnChangeCustomSlug]) @ [OnRemoveCustom]
      else [OnShowCustom])"
  by (simp add: custom_options_def offered_Input)

lemma submit_custom_options:
  "\<not> list_ex submit_control (elements (custom_options css p))"
  by (simp add: custom_options_def Input_def submit_control_def)

lemma offered_shortener_form:
  "offered (shortener_form css p) =
     (if loading p \<or> url p = [] then [] else [OnSubmit])
     @ (if loading p then [] else [OnChangeUrl])
     @ (if showCustom p then (if loading p then [] else [OnChangeCustomSlug]) @ [OnRemoveCustom]
        else [OnShowCustom])"
  using submit_custom_options [of css p]
  by (simp add: shortener_form_def offered_input_group offered_custom_options
      submit_input_group submit_control_def)

lemma offered_result_area: "offered (result_area css p r) = [OnCopy]"
  by (simp add: result_area_def)

lemma offered_static [simp]: "offered (hero css) = []" "offered (features css) = []"
  by (simp_all add: hero_def features_def feature_item_def)

lemma offered_Card:
  "offered (Card css cp) =
     (if disabled (c_rest cp) then []
      else concat (map (offers (list_ex submit_control (concat (map elements (c_children cp)))))
             (c_rest cp)))
     @ concat (map offered (c_children cp))"
  by (simp add: Card_def)

lemma offered_RootLayout: "offered (RootLayout cs) = concat (map offered cs)"
  by (simp add: RootLayout_def)

lemma offered_Home:
  "offered (Home css p) =
     (if loading p \<or> url p = [] then [] else [OnSubmit])
     @ (if loading p then [] else [OnChangeUrl])
     @ (if showCustom p then (if loading p then [] else [OnChangeCustomSlug]) @ [OnRemoveCustom]
        else [OnShowCustom])
     @ (if result p = None then [] else [OnCopy])"
  by (simp add: Home_def offered_Card offered_shortener_form offered_result_area
      split: option.splits)

section \<open>What a tree shows\<close>

lemma by_tag_Input:
  "by_tag ''input'' (Input css ip) =
     concat (map (by_tag ''input'') (rendered (i_icon ip)))
     @ [Element ''input'' ((''className'', PStr (input_class css ip)) # i_rest ip) []]"
  by (simp add: Input_def by_tag_Element comp_def)

lemma texts_Input:
  "texts (Input css ip) =
     (if str_truthy (i_label ip) then [or_empty (i_label ip)] else [])
     @ concat (map texts (rendered (i_icon ip)))
     @ (if str_truthy (i_error ip) then [or_empty (i_error ip)] else [])"
  by (simp add: Input_def comp_def)

lemma by_tag_Input_other:
  "t \<notin> {''div'', ''label'', ''input'', ''span''} \<Longrightarrow>
     by_tag t (Input css ip) = concat (map (by_tag t) (rendered (i_icon ip)))"
  by (auto simp: Input_def by_tag_Element comp_def)

lemma texts_shortener_form:
  "texts (shortener_form css p) =
     [if loading p then ''Shortening...'' else ''Shorten Now'',
      if showCustom p then ''- Remove Custom Alias'' else ''+ Options (Custom Alias)'']
     @ (if error p = [] then [] else [error p])"
  by (simp add: shortener_form_def input_group_def custom_options_def texts_Input str_truthy_def)

lemma hrefs_result_area:
  "hrefs (result_area css p r) =
     r_shortUrl r # (if str_truthy (qrCode p) then [or_empty (qrCode p)] else [])"
  by (simp add: hrefs_def result_area_def by_tag_Element str_prop_def)

lemma srcs_result_area:
  "srcs (result_area css p r) = (if str_truthy (qrCode p) then [or_empty (qrCode p)] else [])"
  by (simp add: srcs_def result_area_def by_tag_Element str_prop_def)

lemma by_tag_shortener_form:
  "by_tag ''a'' (shortener_form css p) = []" "by_tag ''img'' (shortener_form css p) = []"
  by (simp_all add: shortener_form_def input_group_def custom_options_def by_tag_Element
      by_tag_Input_other)

lemma by_tag_static [simp]:
  "by_tag ''a'' (hero css) = []" "by_tag ''img'' (hero css) = []"
  "by_tag ''a'' (features css) = []" "by_tag ''img'' (features css) = []"
  by (simp_all add: hero_def features_def feature_item_def by_tag_Element)

lemma hrefs_Home:
  "hrefs (Home css p) = (case result p of None \<Rightarrow> [] | Some r \<Rightarrow> hrefs (result_area css p r))"
  by (simp add: hrefs_def Home_def Card_def by_tag_Element by_tag_shortener_form
      split: option.splits)

lemma srcs_Home:
  "srcs (Home css p) = (case result p of None \<Rightarrow> [] | Some r \<Rightarrow> srcs (result_area css p r))"
  by (simp add: srcs_def Home_def Card_def by_tag_Element by_tag_shortener_form
      split: option.splits)

lemma by_tag_RootLayout:
  "t \<notin> {''html'', ''body'', ''main''} \<Longrightarrow> by_tag t (RootLayout cs) = concat (map (by_tag t) cs)"
  by (auto simp: RootLayout_def by_tag_Element)

lemma texts_RootLayout: "texts (RootLayout cs) = concat (map texts cs)"
  by (simp add: RootLayout_def)

section \<open>Class names\<close>

lemma class_tokens_input_class:
  assumes "token (input_css css ''input'')" and "token (input_css css ''errorInput'')"
    and "token (input_css css ''withIcon'')"
  shows "class_tokens (input_class css ip) =
     input_css css ''input''
     # (if str_truthy (i_error ip) then [input_css css ''errorInput''] else [])
     @ (if node_truthy (i_icon ip) then [input_css css ''withIcon''] else [])"
proof -
  have sp: "is_space CHR '' ''" "is_space (CHR 0x0A)" by (simp_all add: is_space_def)
  have skip: "class_tokens_from [] (replicate n CHR '' '' @ rest) = class_tokens_from [] rest"
    for n rest using class_tokens_from_spaces [of "replicate n CHR '' ''" "[]" rest] sp
    by (simp add: list_all_iff)
  show ?thesis
    using assms sp
    by (simp add: class_tokens_def input_class_def skip class_tokens_token
        skip [of _ "[]", simplified])
qed

lemma class_tokens_Card:
  assumes "token (card_css css ''card'')" and "token (card_css css ''glow'')"
  shows "class_tokens (''glass-panel '' @ card_css css ''card'' @ '' ''
            @ (if g then card_css css ''glow'' else []) @ '' '' @ c) =
     ''glass-panel'' # card_css css ''card'' # (if g then [card_css css ''glow''] else [])
     @ class_tokens c"
proof -
  have sp: "is_space CHR '' ''" by (simp add: is_space_def)
  have gp: "token ''glass-panel''" by (simp add: token_def is_space_def)
  from class_tokens_token [OF gp sp] have
    "class_tokens_from [] (''glass-panel '' @ rest) = ''glass-panel'' # class_tokens_from [] rest"
    for rest by simp
  with assms sp show ?thesis
    by (simp add: class_tokens_def class_tokens_token)
qed

section \<open>Style sheets for the examples\<close>

text \<open>A CSS module that maps the key \<open>k\<close> to \<open>m_k\<close>.\<close>

definition module_css :: "string \<Rightarrow> string \<Rightarrow> string" where
  "module_css m k = m @ CHR ''_'' # k"

definition demo_css :: stylesheets where
  "demo_css = \<lparr>page_css = module_css ''page'', card_css = module_css ''Card'',
                input_css = module_css ''Input''\<rparr>"

lemma demo_css_simps [simp]:
  "page_css demo_css = module_css ''page''" "card_css demo_css = module_css ''Card''"
  "input_css demo_css = module_css ''Input''"
  by (simp_all add: demo_css_def)

section \<open>Properties of the markup\<close>

text \<open>
  C20. The markup and the handlers agree: an event of the user changes the
  page exactly when the document rendered in that state offers its handler,
  on a control that is not disabled, and then it runs the body of that
  handler; otherwise the page stays as it is.
\<close>

theorem markup_offers_what_runs:
  "ui_step qr b (event_of h v) =
     (if h \<in> set (offered (document css (view b))) then handle h v b else b)"
  by (cases h) (auto simp: document_def offered_RootLayout offered_Home handleCopy_def
      split: option.splits)

text \<open>
  C31. What the home page shows of its state: its links are the short URL of
  the result and, once a QR code is there, the code for download; its only
  image is that code; both appear only with a result. The form shows the
  label of the submit button, the label of the alias toggle, and the error
  message when there is one.
\<close>

theorem document_shows_state:
  "hrefs (document css p) =
     (case result p of
        None \<Rightarrow> []
      | Some r \<Rightarrow> r_shortUrl r # (if str_truthy (qrCode p) then [or_empty (qrCode p)] else []))
   \<and> srcs (document css p) =
     (case result p of
        None \<Rightarrow> []
      | Some r \<Rightarrow> if str_truthy (qrCode p) then [or_empty (qrCode p)] else [])
   \<and> texts (shortener_form css p) =
     [if loading p then ''Shortening...'' else ''Shorten Now'',
      if showCustom p then ''- Remove Custom Alias'' else ''+ Options (Custom Alias)'']
     @ (if error p = [] then [] else [error p])"
  by (simp add: document_def hrefs_def srcs_def by_tag_RootLayout
      hrefs_Home [unfolded hrefs_def] srcs_Home [unfolded srcs_def]
      hrefs_result_area [unfolded hrefs_def] srcs_result_area [unfolded srcs_def]
      texts_shortener_form split: option.splits)

text \<open>
  \<open>Input\<close> renders one control of its own, which carries every prop that
  is not one of \<open>label\<close>, \<open>error\<close>, \<open>icon\<close> and \<open>className\<close>, after the class
  name; it offers the handlers among those props unless they disable the
  control; its texts are the label and the error message, each when it is
  not empty.
\<close>

theorem Input_passes_props:
  "by_tag ''input'' (Input css ip) =
     concat (map (by_tag ''input'') (rendered (i_icon ip)))
     @ [Element ''input'' ((''className'', PStr (input_class css ip)) # i_rest ip) []]
   \<and> offered (Input css ip) =
     concat (map offered (rendered (i_icon ip)))
     @ (if disabled (i_rest ip) then [] else concat (map (offers False) (i_rest ip)))
   \<and> texts (Input css ip) =
     (if str_truthy (i_label ip) then [or_empty (i_label ip)] else [])
     @ concat (map texts (rendered (i_icon ip)))
     @ (if str_truthy (i_error ip) then [or_empty (i_error ip)] else [])"
  by (simp add: by_tag_Input offered_Input texts_Input)

text \<open>
  C39. The class names of the two components, as the tokens of the attribute:
  when the CSS modules map the keys to single names, the control of \<open>Input\<close>
  has the class \<open>input\<close>, \<open>errorInput\<close> exactly with an error and \<open>withIcon\<close>
  exactly with an icon, and the panel of \<open>Card\<close> has \<open>glass-panel\<close>, \<open>card\<close>,
  \<open>glow\<close> exactly when asked for, and the classes of its caller.
\<close>

theorem component_class_tokens:
  assumes "list_all (\<lambda>k. token (input_css css k)) [''input'', ''errorInput'', ''withIcon'']"
    and "list_all (\<lambda>k. token (card_css css k)) [''card'', ''glow'']"
  shows "class_tokens (input_class css ip) =
       input_css css ''input''
       # (if str_truthy (i_error ip) then [input_css css ''errorInput''] else [])
       @ (if node_truthy (i_icon ip) then [input_css css ''withIcon''] else [])
   \<and> map (\<lambda>s. class_tokens s) (str_prop ''className'' (Card css (cp\<lparr>c_rest := []\<rparr>))) =
       [''glass-panel'' # card_css css ''card''
        # (if c_glow cp = Some True then [card_css css ''glow''] else [])
        @ class_tokens (or_empty (c_className cp))]"
  using assms
  by (simp add: class_tokens_input_class Card_def str_prop_def
      class_tokens_Card [simplified])

theorem component_class_tokens_witness:
  "list_all (\<lambda>k. token (input_css demo_css k)) [''input'', ''errorInput'', ''withIcon'']
   \<and> list_all (\<lambda>k. token (card_css demo_css k)) [''card'', ''glow'']
   \<and> class_tokens (input_class demo_css
         \<lparr>i_label = None, i_error = Some ''Required'', i_icon = None, i_className = None,
          i_rest = []\<rparr>) = [''Input_input'', ''Input_errorInput'']
   \<and> map (\<lambda>s. class_tokens s) (str_prop ''className''
         (Card demo_css \<lparr>c_children = [], c_className = Some ''wide'', c_glow = Some True,
                          c_rest = []\<rparr>)) =
       [[''glass-panel'', ''Card_card'', ''Card_glow'', ''wide'']]"
  using component_class_tokens [of demo_css
      "\<lparr>i_label = None, i_error = Some ''Required'', i_icon = None, i_className = None,
        i_rest = []\<rparr>"
      "\<lparr>c_children = [], c_className = Some ''wide'', c_glow = Some True, c_rest = []\<rparr>"]
  by (simp add: token_def is_space_def module_css_def str_truthy_def node_truthy_def
      or_empty_def class_tokens_def)

end
