(* ===== verification/Site.thy ===== *)
theory Site
  imports Visits View
begin

text \<open>
  The pages and the deployment together. A site is the server of \<open>Visits\<close>,
  with its overlapping visits and shorten requests, and the browsers that
  have the home page open. The answer a
  page waits for is no longer arbitrary, as it is in \<open>Page\<close>: it is the answer
  of \<open>POST\<close> to the payload the page sent, computed in the world the server
  is in when the request arrives; or the request fails on the way. Between
  the events of one browser the server handles other clients, runs its
  trackers and loses its collaborators. \<open>site_inv\<close> is what the pages and the
  server satisfy together in every state the site reaches.
\<close>

section \<open>The state machine\<close>

record site =
  server :: vworld
  browsers :: "browser list"

datatype site_event =
    Open                  \<comment> \<open>another browser loads the page\<close>
  | User nat ui_event     \<comment> \<open>an event of the user or a local job in this browser\<close>
  | Serve nat             \<comment> \<open>the request of this browser is handled and its answer arrives\<close>
  | ServeLost nat string  \<comment> \<open>the request is handled, the answer is lost, \<open>fetch\<close> rejects\<close>
  | Drop nat string       \<comment> \<open>the request never arrives, \<open>fetch\<close> rejects\<close>
  | Server vevent         \<comment> \<open>the server does something else\<close>

fun is_Respond :: "ui_event \<Rightarrow> bool" where
  "is_Respond (Respond outcome) = True"
| "is_Respond e = False"

text \<open>
  The server handles the request browser \<open>i\<close> awaits: \<open>req.json()\<close> gives the
  payload that \<open>JSON.stringify\<close> was given. \<open>lost\<close> is the message \<open>fetch\<close>
  rejects with when the answer does not arrive.
\<close>

definition serve :: "config \<Rightarrow> nat \<Rightarrow> string option \<Rightarrow> site \<Rightarrow> site" where
  "serve cfg i lost s =
     (if i < length (browsers s) then
        (case request (browsers s ! i) of
           None \<Rightarrow> s
         | Some body \<Rightarrow>
             (case POST_world cfg (Inr body) (base (inner (server s))) of
                (r, w') \<Rightarrow>
                  \<lparr>server = (server s)\<lparr>inner := (inner (server s))\<lparr>base := w'\<rparr>\<rparr>,
                   browsers = (browsers s)
                     [i := submit_end (browsers s ! i)
                             (case lost of None \<Rightarrow> Answered r | Some msg \<Rightarrow> Rejected msg)]\<rparr>))
      else s)"

definition at_browser :: "nat \<Rightarrow> (browser \<Rightarrow> browser) \<Rightarrow> site \<Rightarrow> site" where
  "at_browser i f s =
     (if i < length (browsers s) then s\<lparr>browsers := (browsers s)[i := f (browsers s ! i)]\<rparr>
      else s)"

fun site_step :: "config \<Rightarrow> (string \<Rightarrow> string) \<Rightarrow> site \<Rightarrow> site_event \<Rightarrow> site" where
  "site_step cfg qr s Open = s\<lparr>browsers := browsers s @ [initial_browser]\<rparr>"
| "site_step cfg qr s (User i e) =
     (if is_Respond e then s else at_browser i (\<lambda>b. ui_step qr b e) s)"
| "site_step cfg qr s (Serve i) = serve cfg i None s"
| "site_step cfg qr s (ServeLost i msg) = serve cfg i (Some msg) s"
| "site_step cfg qr s (Drop i msg) = at_browser i (\<lambda>b. ui_step qr b (Respond (Rejected msg))) s"
| "site_step cfg qr s (Server e) = s\<lparr>server := vstep cfg (server s) e\<rparr>"

fun site_run :: "config \<Rightarrow> (string \<Rightarrow> string) \<Rightarrow> site \<Rightarrow> site_event list \<Rightarrow> site" where
  "site_run cfg qr s [] = s"
| "site_run cfg qr s (e # es) = site_run cfg qr (site_step cfg qr s e) es"

definition site_init :: site where
  "site_init = \<lparr>server = vinit, browsers = []\<rparr>"

inductive site_reachable :: "config \<Rightarrow> (string \<Rightarrow> string) \<Rightarrow> site \<Rightarrow> bool"
  for cfg :: config and qr :: "string \<Rightarrow> string" where
  site_start: "site_reachable cfg qr site_init"
| site_next: "site_reachable cfg qr s \<Longrightarrow> site_reachable cfg qr (site_step cfg qr s e)"

lemma site_reachable_run:
  "site_reachable cfg qr s \<Longrightarrow> site_reachable cfg qr (site_run cfg qr s es)"
  by (induction es arbitrary: s) (auto intro: site_reachable.site_next)

lemma site_run_append:
  "site_run cfg qr s (es @ fs) = site_run cfg qr (site_run cfg qr s es) fs"
  by (induction es arbitrary: s) simp_all

section \<open>The invariant of the site\<close>

text \<open>A link on show is a link of the store, under the short URL the configuration gives it.\<close>

definition shown_ok :: "config \<Rightarrow> store \<Rightarrow> browser \<Rightarrow> bool" where
  "shown_ok cfg st b \<longleftrightarrow>
     (case result (view b) of
        None \<Rightarrow> True
      | Some r \<Rightarrow>
          r_slug r \<noteq> [] \<and> resolve st (r_slug r) = Some (r_originalUrl r)
          \<and> r_shortUrl r = short_url cfg (r_slug r))"

definition site_inv :: "config \<Rightarrow> site \<Rightarrow> bool" where
  "site_inv cfg s \<longleftrightarrow>
     vworld_inv cfg (server s)
     \<and> list_all (\<lambda>b. page_inv b \<and> shown_ok cfg (db (base (inner (server s)))) b) (browsers s)"

section \<open>Each step keeps the invariant\<close>

lemma shown_ok_mono:
  "resolve st \<subseteq>\<^sub>m resolve st' \<Longrightarrow> shown_ok cfg st b \<Longrightarrow> shown_ok cfg st' b"
  by (auto simp: shown_ok_def map_le_def dom_def split: option.splits)

lemma ui_step_result:
  "\<not> is_Respond e \<Longrightarrow>
     result (view (ui_step qr b e)) = None \<or> result (view (ui_step qr b e)) = result (view b)"
  by (cases e) (auto simp: page_defs split: option.splits)

lemma ui_step_shown_ok:
  "\<not> is_Respond e \<Longrightarrow> shown_ok cfg st b \<Longrightarrow> shown_ok cfg st (ui_step qr b e)"
  using ui_step_result [of e qr b] by (auto simp: shown_ok_def)

lemma shown_ok_initial: "shown_ok cfg st initial_browser"
  by (simp add: shown_ok_def initial_browser_def initial_page_def)

lemma submit_failed_shown_ok:
  "shown_ok cfg st b \<Longrightarrow> shown_ok cfg st (submit_failed b msg)"
  by (simp add: shown_ok_def submit_failed_def)

lemma rejected_shown_ok:
  "shown_ok cfg st b \<Longrightarrow> shown_ok cfg st (ui_step qr b (Respond (Rejected msg)))"
  by (simp add: submit_end_def submit_failed_shown_ok)

text \<open>The answer of \<open>POST\<close>, delivered to the page that asked.\<close>

lemma POST_world_answer:
  "(\<exists>code msg. fst (POST_world cfg req w) = Json code (ErrorBody msg) \<and> code \<in> {400, 409, 500})
   \<or> (\<exists>s u. fst (POST_world cfg req w) = Json 201 (SuccessBody (short_url cfg s) s u)
         \<and> s \<noteq> [] \<and> resolve (db (snd (POST_world cfg req w))) s = Some u)"
proof -
  from POST_cases [of cfg "clock w" req "db w" "rng w"] show ?thesis
  proof (elim disjE exE conjE)
    fix d l st'
    assume "POST cfg (clock w) req (db w) (rng w) =
      (Json 201 (SuccessBody (short_url cfg (slug l)) (slug l) (originalUrl l)), st',
       snd (shorten_check cfg (db w) (rng w) req))"
    then have "fst (POST_world cfg req w) =
        Json 201 (SuccessBody (short_url cfg (slug l)) (slug l) (originalUrl l))"
      by (simp add: POST_world_def)
    with POST_world_created [OF this] show ?thesis by blast
  qed (auto simp: POST_world_def)
qed

lemma answered_shown_ok:
  assumes "shown_ok cfg (db (snd (POST_world cfg req w))) b"
  shows "shown_ok cfg (db (snd (POST_world cfg req w)))
           (submit_end b (Answered (fst (POST_world cfg req w))))"
  using POST_world_answer [of cfg req w] assms
  by (auto simp: shown_ok_def submit_end_def submit_failed_def res_ok_def)

lemma POST_world_resolve_le:
  "resolve (db w) \<subseteq>\<^sub>m resolve (db (snd (POST_world cfg req w)))"
  using step_resolve_le [of w cfg "Shorten req"] by simp

lemma list_all_update:
  "list_all P xs \<Longrightarrow> P x \<Longrightarrow> list_all P (xs[i := x])"
  by (auto simp: list_all_iff dest: set_update_subset_insert [THEN subsetD])

lemma serve_inv:
  assumes "site_inv cfg s"
  shows "site_inv cfg (serve cfg i lost s)"
proof (cases "i < length (browsers s) \<and> request (browsers s ! i) \<noteq> None")
  case False
  with assms show ?thesis by (auto simp: serve_def)
next
  case True
  then obtain body where body: "request (browsers s ! i) = Some body" and i: "i < length (browsers s)"
    by auto
  let ?w = "POST_world cfg (Inr body) (base (inner (server s)))"
  let ?out = "case lost of None \<Rightarrow> Answered (fst ?w) | Some msg \<Rightarrow> Rejected msg"
  let ?bi = "browsers s ! i"
  from assms i have bi: "page_inv ?bi" "shown_ok cfg (db (base (inner (server s)))) ?bi"
    by (simp_all add: site_inv_def list_all_length)
  have all: "list_all (\<lambda>b. page_inv b \<and> shown_ok cfg (db (snd ?w)) b) (browsers s)"
    using assms shown_ok_mono [OF POST_world_resolve_le]
    by (auto simp: site_inv_def list_all_iff)
  have "shown_ok cfg (db (snd ?w)) ?bi"
    using bi(2) by (rule shown_ok_mono [OF POST_world_resolve_le])
  then have "shown_ok cfg (db (snd ?w)) (submit_end ?bi ?out)"
  proof (cases lost)
    case None
    with \<open>shown_ok cfg (db (snd ?w)) ?bi\<close> show ?thesis by (simp add: answered_shown_ok)
  next
    case (Some msg)
    with \<open>shown_ok cfg (db (snd ?w)) ?bi\<close> show ?thesis
      by (simp add: submit_end_def submit_failed_shown_ok)
  qed
  moreover have "page_inv (submit_end ?bi ?out)"
    using bi(1) body by (simp add: submit_end_inv)
  ultimately have "list_all (\<lambda>b. page_inv b \<and> shown_ok cfg (db (snd ?w)) b)
      ((browsers s)[i := submit_end ?bi ?out])"
    using all by (simp add: list_all_update)
  with assms POST_world_vworld_inv [of cfg "server s" "Inr body"] i body show ?thesis
    by (simp add: serve_def site_inv_def case_prod_beta)
qed

lemma at_browser_inv:
  assumes "site_inv cfg s"
    and "\<And>b. page_inv b \<Longrightarrow> shown_ok cfg (db (base (inner (server s)))) b \<Longrightarrow>
           page_inv (f b) \<and> shown_ok cfg (db (base (inner (server s)))) (f b)"
  shows "site_inv cfg (at_browser i f s)"
  using assms by (auto simp: at_browser_def site_inv_def list_all_length nth_list_update)

lemma site_step_inv:
  assumes "site_inv cfg s"
  shows "site_inv cfg (site_step cfg qr s e)"
proof (cases e)
  case Open
  with assms show ?thesis by (simp add: site_inv_def page_inv_initial shown_ok_initial)
next
  case (User i a)
  with assms show ?thesis
    by (auto intro!: at_browser_inv simp: ui_step_inv ui_step_shown_ok)
next
  case (Drop i msg)
  with assms show ?thesis
    by (auto intro!: at_browser_inv simp: ui_step_inv rejected_shown_ok simp del: ui_step.simps)
next
  case (Server a)
  with assms shown_ok_mono [OF vstep_resolve_le [of "server s" cfg a]] show ?thesis
    by (auto simp: site_inv_def vstep_inv list_all_iff)
qed (use assms in \<open>simp_all add: serve_inv\<close>)

lemma site_inv_init: "site_inv cfg site_init"
  by (simp add: site_inv_def site_init_def vworld_inv_init)

lemma site_reachable_inv: "site_reachable cfg qr s \<Longrightarrow> site_inv cfg s"
  by (induction rule: site_reachable.induct) (auto intro: site_inv_init site_step_inv)

section \<open>An answer that is lost\<close>

lemma custom_of_alias:
  "showCustom p \<Longrightarrow> trim (customSlug p) = a \<Longrightarrow> a \<noteq> [] \<Longrightarrow> custom_of p = JStr a"
  by (simp add: custom_of_def)

text \<open>The form filled in for the alias \<open>abc\<close>.\<close>

definition abc_form :: browser where
  "abc_form =
     initial_browser\<lparr>view := initial_page\<lparr>url := ''https://example.com'', customSlug := ''abc'',
                                               showCustom := True\<rparr>\<rparr>"

text \<open>
  C30. A retry after a lost answer is refused.
  The handler creates a link on every request, so a request that is repeated
  is not the request it repeats. When the answer to a submit with a free
  alias is lost, the page shows the failure of the request and keeps the
  form; the link exists all the same. The second submit of the same form is
  refused with 409: the alias is taken, by the link of the first.
\<close>

theorem lost_answer_retry:
  assumes idle: "\<not> loading (view b)" "request b = None"
    and typed: "url (view b) = u" "u \<noteq> []" "isValidUrl (parse_url cfg) (JStr u)"
    and custom: "showCustom (view b)" "trim (customSlug (view b)) = a" "3 \<le> length a"
      "length a \<le> 30"
    and free: "a \<notin> slugs (db (base (inner vw)))" "db_up (db (base (inner vw)))"
  shows "case site_run cfg qr \<lparr>server = vw, browsers = [b]\<rparr>
              [User 0 Submit, ServeLost 0 msg, User 0 Submit, Serve 0] of s' \<Rightarrow>
      error (view (browsers s' ! 0)) = ''Custom slug is already taken''
      \<and> result (view (browsers s' ! 0)) = None
      \<and> resolve (db (base (inner (server s')))) a = Some u"
proof -
  let ?st = "db (base (inner vw))"
  let ?p = "(view b)\<lparr>loading := True, error := [], result := None, qrCode := None, copied := False\<rparr>"
  from custom have a: "a \<noteq> []" "\<not> (length a < 3 \<or> 30 < length a)" by auto
  have c: "custom_of (view b) = JStr a" using custom(1,2) a(1) by (rule custom_of_alias)
  let ?l = "\<lparr>link_id = next_id ?st, slug = a, originalUrl = u, totalClicks = 0,
             createdAt = clock (base (inner vw))\<rparr>"
  let ?st' = "?st\<lparr>links := links ?st @ [?l], next_id := Suc (next_id ?st)\<rparr>"
  have 1: "POST cfg (clock (base (inner vw))) (Inr (payload_of (view b))) ?st (rng (base (inner vw))) =
      (Json 201 (SuccessBody (short_url cfg a) a u), ?st', rng (base (inner vw)))"
    using POST_custom [OF typed(2,3) a(1), of "clock (base (inner vw))" ?st "rng (base (inner vw))"] a(2) free
    by (simp add: POST_payload typed(1) c)
  have in': "a \<in> slugs ?st'" "db_up ?st'" using free by (simp_all add: slugs_def)
  have 2: "POST cfg (clock (base (inner vw))) (Inr (payload_of (view b))) ?st' (rng (base (inner vw))) =
      (Json 409 (ErrorBody ''Custom slug is already taken''), ?st', rng (base (inner vw)))"
    using POST_custom [OF typed(2,3) a(1), of "clock (base (inner vw))" ?st' "rng (base (inner vw))"] a(2) in'
    by (simp add: POST_payload typed(1) c)
  have r: "resolve ?st' a = Some u"
    using free(1) [folded link_by_slug_None] by (simp add: resolve_def link_by_slug_append)
  let ?b1 = "submit_begin b"
  let ?b2 = "submit_failed ?b1 msg"
  let ?w1 = "(base (inner vw))\<lparr>db := ?st', rng := rng (base (inner vw))\<rparr>"
  have p2: "payload_of (view ?b2) = payload_of (view b)" "\<not> loading (view ?b2)"
    "url (view ?b2) \<noteq> []"
    using typed(1,2) by (simp_all add: payload_of_def submit_begin_def submit_failed_def)
  have s2: "site_run cfg qr \<lparr>server = vw, browsers = [b]\<rparr> [User 0 Submit, ServeLost 0 msg] =
      \<lparr>server = vw\<lparr>inner := (inner vw)\<lparr>base := ?w1\<rparr>\<rparr>, browsers = [?b2]\<rparr>"
    using idle typed(1,2) 1
    by (simp add: at_browser_def serve_def POST_world_def submit_begin_def [of b] submit_end_def)
  have s4: "site_run cfg qr \<lparr>server = vw\<lparr>inner := (inner vw)\<lparr>base := ?w1\<rparr>\<rparr>, browsers = [?b2]\<rparr> [User 0 Submit, Serve 0] =
      \<lparr>server = vw\<lparr>inner := (inner vw)\<lparr>base := ?w1\<rparr>\<rparr>,
       browsers = [submit_end (submit_begin ?b2)
                     (Answered (Json 409 (ErrorBody ''Custom slug is already taken'')))]\<rparr>"
    using p2 2
    by (simp add: at_browser_def serve_def POST_world_def submit_begin_def [of ?b2])
  have "site_run cfg qr \<lparr>server = vw, browsers = [b]\<rparr>
      [User 0 Submit, ServeLost 0 msg, User 0 Submit, Serve 0] =
      \<lparr>server = vw\<lparr>inner := (inner vw)\<lparr>base := ?w1\<rparr>\<rparr>,
       browsers = [submit_end (submit_begin ?b2)
                     (Answered (Json 409 (ErrorBody ''Custom slug is already taken'')))]\<rparr>"
    using site_run_append [of cfg qr _ "[User 0 Submit, ServeLost 0 msg]" "[User 0 Submit, Serve 0]"]
    by (simp only: append.simps s2 s4)
  with r show ?thesis by (simp add: page_defs res_ok_def)
qed

theorem lost_answer_retry_witness:
  "(case site_run demo_config id \<lparr>server = vinit, browsers = [abc_form]\<rparr>
           [User 0 Submit, ServeLost 0 ''Failed to fetch'', User 0 Submit, Serve 0] of s' \<Rightarrow>
      error (view (browsers s' ! 0)) = ''Custom slug is already taken''
      \<and> result (view (browsers s' ! 0)) = None
      \<and> resolve (db (base (inner (server s')))) ''abc'' = Some ''https://example.com'')"
proof -
  have idle: "\<not> loading (view abc_form)" "request abc_form = None"
    by (simp_all add: abc_form_def initial_browser_def initial_page_def)
  have typed: "url (view abc_form) = ''https://example.com''" "''https://example.com'' \<noteq> []"
    "isValidUrl (parse_url demo_config) (JStr ''https://example.com'')"
    by (simp_all add: abc_form_def scheme_parser_examples)
  have custom: "showCustom (view abc_form)" "trim (customSlug (view abc_form)) = ''abc''"
    "3 \<le> length ''abc''" "length ''abc'' \<le> 30"
    by (simp_all add: abc_form_def trim_def is_space_def)
  have free: "''abc'' \<notin> slugs (db (base (inner vinit)))" "db_up (db (base (inner vinit)))"
    by (simp_all add: vinit_def cinit_def init_world_def)
  from lost_answer_retry [OF idle typed custom free] show ?thesis .
qed

section \<open>A visitor of the examples\<close>

text \<open>
  Seven seconds after the start a browser opens the page; the user asks for
  the alias \<open>abc\<close>, types a URL and submits; the server answers.
\<close>

definition abc_session :: "site_event list" where
  "abc_session =
     [Server (Other (Atomic (Tick 7))), Open, User 0 ShowCustom, User 0 (SetCustomSlug ''abc''),
      User 0 (SetUrl ''https://example.com''), User 0 Submit, Serve 0]"

definition abc_site :: site where
  "abc_site =
     \<lparr>server = \<lparr>inner = \<lparr>base = init_world\<lparr>db := abc_store, clock := 7\<rparr>, inflight = []\<rparr>,
                 visiting = []\<rparr>,
      browsers =
        [initial_browser
           \<lparr>view := initial_page
              \<lparr>result := Some \<lparr>r_shortUrl = ''https://okg.me/abc'',
                                r_originalUrl = ''https://example.com'', r_slug = ''abc''\<rparr>\<rparr>,
            qr_jobs := [''https://okg.me/abc'']\<rparr>]\<rparr>"

lemma abc_session_run: "site_run demo_config qr site_init abc_session = abc_site"
proof -
  have "trim ''abc'' = ''abc''" by (simp add: trim_def is_space_def)
  then show ?thesis
    by (simp add: abc_session_def abc_site_def site_init_def vinit_def cinit_def init_world_def
        at_browser_def serve_def initial_browser_def initial_page_def page_defs res_ok_def
        POST_world_def POST_payload custom_of_def POST_abc)
qed

lemma abc_site_reachable: "site_reachable demo_config qr abc_site"
  using site_reachable_run [OF site_start, of demo_config qr abc_session]
  by (simp only: abc_session_run)

section \<open>Properties of the site\<close>

text \<open>
  C11. The pages and the server stay consistent. In every state the site
  reaches, with any number of browsers, requests answered, lost or dropped,
  and anything else happening at the server in between: the server satisfies
  its invariant, every page satisfies the invariant of the page, and every
  link a page shows is a link of the store, with the destination the page
  shows for it and the short URL the configuration gives its slug.
\<close>

theorem site_reachable_site_inv:
  assumes "site_reachable cfg qr s"
  shows "site_inv cfg s"
  using assms by (rule site_reachable_inv)

theorem site_reachable_site_inv_witness:
  "site_reachable demo_config id abc_site \<and> site_inv demo_config abc_site"
  using site_reachable_site_inv [of demo_config id abc_site] abc_site_reachable by blast

text \<open>
  C12. A link on show works. In every state the site reaches, while the
  store answers, a visit of the slug some page shows is redirected with
  status 301 to the destination that page shows, whether the cache or the
  store resolves it.
\<close>

theorem shown_link_redirects:
  assumes "site_reachable cfg qr s" and "b \<in> set (browsers s)"
    and "result (view b) = Some r" and "db_up (db (base (inner (server s))))"
    and "slug_param rq = r_slug r"
  shows "fst (GET cfg rq (base (inner (server s)))) = Redirect (r_originalUrl r) (Some 301)"
proof -
  from site_reachable_inv [OF assms(1)] assms(2,3) have
    inv: "world_inv cfg (base (inner (server s)))"
    and r: "r_slug r \<noteq> []" "resolve (db (base (inner (server s)))) (r_slug r) = Some (r_originalUrl r)"
    by (auto simp: site_inv_def vworld_inv_def cworld_inv_def list_all_iff shown_ok_def)
  from inv have "cache_coherent (base (inner (server s)))" "urls_valid cfg (db (base (inner (server s))))"
    by (simp_all add: world_inv_def)
  with GET_resolver [of rq "base (inner (server s))" cfg] assms(4,5) r show ?thesis by simp
qed

theorem shown_link_redirects_witness:
  "site_reachable demo_config id abc_site \<and> hd (browsers abc_site) \<in> set (browsers abc_site)
   \<and> db_up (db (base (inner (server abc_site))))
   \<and> fst (GET demo_config (browser_request ''abc'') (base (inner (server abc_site)))) =
       Redirect ''https://example.com'' (Some 301)"
  using shown_link_redirects [of demo_config id abc_site "hd (browsers abc_site)"
      "\<lparr>r_shortUrl = ''https://okg.me/abc'', r_originalUrl = ''https://example.com'',
        r_slug = ''abc''\<rparr>" "browser_request ''abc''"] abc_site_reachable [of id]
  by (simp add: abc_site_def initial_browser_def initial_page_def init_world_def abc_store_def)

text \<open>
  C22. A request settles. In every state the site reaches, once the server
  has handled the request a page awaits, whether the answer arrives or is
  lost, the page is out of its loading state and awaits nothing; if it was
  loading it now shows a link or an error message.
\<close>

theorem request_settles:
  assumes "site_reachable cfg qr s" and "i < length (browsers s)"
  shows "\<not> loading (view (browsers (serve cfg i lost s) ! i))
    \<and> request (browsers (serve cfg i lost s) ! i) = None
    \<and> (loading (view (browsers s ! i)) \<longrightarrow>
         result (view (browsers (serve cfg i lost s) ! i)) \<noteq> None
         \<or> error (view (browsers (serve cfg i lost s) ! i)) \<noteq> [])"
proof (cases "request (browsers s ! i)")
  case None
  with site_reachable_inv [OF assms(1)] assms(2) show ?thesis
    by (auto simp: serve_def site_inv_def list_all_length page_inv_def)
next
  case (Some body)
  let ?w = "POST_world cfg (Inr body) (base (inner (server s)))"
  from POST_world_answer [of cfg "Inr body" "base (inner (server s))"] Some assms(2) show ?thesis
    by (cases lost)
      (auto simp: serve_def case_prod_beta page_defs res_ok_def split: if_splits)
qed

theorem request_settles_witness:
  "site_reachable demo_config id (site_run demo_config id site_init (butlast abc_session))
   \<and> 0 < length (browsers (site_run demo_config id site_init (butlast abc_session)))
   \<and> loading (view (browsers (site_run demo_config id site_init (butlast abc_session)) ! 0))
   \<and> \<not> loading (view (browsers abc_site ! 0))
   \<and> result (view (browsers abc_site ! 0)) \<noteq> None"
proof -
  let ?s = "site_run demo_config id site_init (butlast abc_session)"
  have s: "abc_site = serve demo_config 0 None ?s"
    using abc_session_run [of id, unfolded abc_session_def]
    by (simp add: abc_session_def site_run_append [of _ _ _ _ "[Serve 0]", simplified])
  have l: "0 < length (browsers ?s) \<and> loading (view (browsers ?s ! 0))"
    by (simp add: abc_session_def site_init_def at_browser_def submit_begin_def)
  from request_settles [OF site_reachable_run [OF site_start] conjunct1 [OF l], of None] l
  show ?thesis
    by (simp add: s [symmetric] site_reachable_run [OF site_start] del: site_run.simps)
      (simp add: abc_site_def)
qed

end
