(* ===== verification/Service.thy ===== *)
theory Service
  imports Visits
begin

text \<open>
  What the service promises, and that the deployment keeps the promise. To a
  user the service is a directory: each slug that was handed out has a
  destination, which never changes, and a number of clicks, which only
  grows. Three things can happen to a directory: a slug that is free is
  created, a click is counted, or nothing; a slug that is taken cannot be
  created again. \<open>directory_of\<close> reads the directory off the store. What a
  step of the deployment announces is read off its answer (a 201 names the
  slug it created) or off the tracker that ran; the store then changes as the
  directory does under that action, whichever handler the step belongs to and
  whatever else is under way.
\<close>

section \<open>The directory\<close>

type_synonym directory = "string \<Rightarrow> (string \<times> nat) option"

datatype action = Create string string | Click string | Nothing

fun perform :: "action \<Rightarrow> directory \<Rightarrow> directory option" where
  "perform (Create s u) D = (if D s = None then Some (D(s \<mapsto> (u, 0))) else None)"
| "perform (Click s) D =
     Some (case D s of None \<Rightarrow> D | Some (u, n) \<Rightarrow> D(s \<mapsto> (u, Suc n)))"
| "perform Nothing D = Some D"

fun performs :: "action list \<Rightarrow> directory \<Rightarrow> directory option" where
  "performs [] D = Some D"
| "performs (a # as) D = (case perform a D of None \<Rightarrow> None | Some D' \<Rightarrow> performs as D')"

definition directory_of :: "store \<Rightarrow> directory" where
  "directory_of st s = map_option (\<lambda>l. (originalUrl l, totalClicks l)) (link_by_slug st s)"

section \<open>The action of a step\<close>

text \<open>What an answer tells about the directory: a 201 answer names the slug it created.\<close>

fun created :: "response \<Rightarrow> action" where
  "created (Json code (SuccessBody su s u)) = Create s u"
| "created r = Nothing"

text \<open>What a tracker does: it counts a click on its slug unless it drops the click.\<close>

definition clicked :: "store \<Rightarrow> track_task \<Rightarrow> action" where
  "clicked st t =
     (if is_bot (user_agent_of (task_req t)) \<or> \<not> db_up st then Nothing else Click (task_slug t))"

fun vaction :: "config \<Rightarrow> vworld \<Rightarrow> vevent \<Rightarrow> action" where
  "vaction cfg vw (Other (Atomic (RunTracker i))) =
     (if i < length (pending (base (inner vw)))
      then clicked (db (base (inner vw))) (pending (base (inner vw)) ! i) else Nothing)"
| "vaction cfg vw e = (case fst (vapply cfg vw e) of None \<Rightarrow> Nothing | Some r \<Rightarrow> created r)"

fun vactions :: "config \<Rightarrow> vworld \<Rightarrow> vevent list \<Rightarrow> action list" where
  "vactions cfg vw [] = []"
| "vactions cfg vw (e # es) = vaction cfg vw e # vactions cfg (vstep cfg vw e) es"

section \<open>Each write of the store is an action\<close>

lemma directory_of_append:
  "slug l \<notin> slugs st \<Longrightarrow>
     directory_of (st\<lparr>links := links st @ [l], next_id := n\<rparr>) =
       (directory_of st)(slug l \<mapsto> (originalUrl l, totalClicks l))"
  by (auto simp: directory_of_def fun_eq_iff link_by_slug_append link_by_slug_None [symmetric]
      split: option.splits)

lemma directory_of_None: "directory_of st s = None \<longleftrightarrow> s \<notin> slugs st"
  by (simp add: directory_of_def link_by_slug_None)

lemma directory_of_db_up [simp]: "directory_of (st\<lparr>db_up := b\<rparr>) = directory_of st"
  by (simp add: directory_of_def fun_eq_iff link_by_slug_def)

lemma same_id_same_slug:
  assumes "ids_unique st" and "link_by_slug st s = Some l" and "link_by_slug st s' = Some k"
    and "link_id k = link_id l"
  shows "s' = s"
proof -
  from assms(2,3) have "l \<in> set (links st)" "k \<in> set (links st)" "slug l = s" "slug k = s'"
    by (auto dest: link_by_slug_Some)
  moreover from assms(1) have "inj_on link_id (set (links st))"
    by (simp add: ids_unique_def distinct_map)
  ultimately show ?thesis using assms(4) by (auto dest: inj_onD)
qed

lemma directory_of_bump:
  assumes "ids_unique st" and "link_by_slug st s = Some l"
  shows "(case directory_of st s of None \<Rightarrow> directory_of st
            | Some (u, n) \<Rightarrow> (directory_of st)(s \<mapsto> (u, Suc n))) =
    directory_of (st\<lparr>clicks := cs, links := map (bump_clicks (link_id l)) (links st)\<rparr>)"
proof
  fix s'
  show "(case directory_of st s of None \<Rightarrow> directory_of st
            | Some (u, n) \<Rightarrow> (directory_of st)(s \<mapsto> (u, Suc n))) s' =
    directory_of (st\<lparr>clicks := cs, links := map (bump_clicks (link_id l)) (links st)\<rparr>) s'"
  proof (cases "link_by_slug st s'")
    case None
    with assms(2) show ?thesis
      by (auto simp: directory_of_def link_by_slug_bump)
  next
    case (Some k)
    with same_id_same_slug [OF assms Some] assms(2) show ?thesis
      by (auto simp: directory_of_def link_by_slug_bump bump_clicks_def)
  qed
qed

lemma trackClickAsync_directory:
  assumes "store_inv st" and "task_ok st t"
  shows "perform (clicked st t) (directory_of st) = Some (directory_of (trackClickAsync cfg now t st))"
proof (cases "is_bot (user_agent_of (task_req t)) \<or> \<not> db_up st")
  case True
  then show ?thesis
    by (auto simp: clicked_def trackClickAsync_def target_link_def findUnique_string
        click_transaction_def split: option.splits)
next
  case False
  show ?thesis
  proof (cases "link_by_slug st (task_slug t)")
    case None
    with assms(2) False show ?thesis
      by (auto simp: clicked_def trackClickAsync_def target_link_def findUnique_string
          task_ok_def directory_of_def split: option.splits)
  next
    case (Some l)
    with assms(2) have "task_linkId t = None \<or> task_linkId t = Some (link_id l)"
      by (auto simp: task_ok_def split: option.splits)
    from trackClickAsync_by_slug [OF _ _ Some this, of cfg now] False assms(1) Some
    show ?thesis by (simp add: clicked_def directory_of_bump store_inv_def)
  qed
qed

lemma POST_directory:
  "perform (created (fst (POST cfg now req st pos))) (directory_of st) =
     Some (directory_of (fst (snd (POST cfg now req st pos))))"
  using POST_cases [of cfg now req st pos]
  by (auto dest!: link_create_Inr simp: directory_of_append directory_of_None)

lemma shorten_commit_directory:
  "perform (case fst (shorten_commit cfg st now d) of Return a \<Rightarrow> created a | _ \<Rightarrow> Nothing)
       (directory_of st) = Some (directory_of (snd (shorten_commit cfg st now d)))"
  using shorten_commit_cases [of cfg st now d]
  by (auto dest!: link_create_Inr simp: directory_of_append directory_of_None)

section \<open>Each step of the deployment is an action\<close>

lemma created_error [simp]:
  "created internal_error = Nothing" "created server_error = Nothing"
  "created (Redirect u c) = Nothing"
  by (simp_all add: internal_error_def server_error_def)

lemma created_GET [simp]: "created (fst (GET cfg rq w)) = Nothing"
  by (cases "fst (GET cfg rq w)") (use GET_not_json [of cfg rq w] in auto)

lemma step_directory:
  assumes "world_inv cfg (base (inner vw))"
  shows "perform (vaction cfg vw (Other (Atomic e))) (directory_of (db (base (inner vw)))) =
    Some (directory_of (db (step cfg (base (inner vw)) e)))"
proof (cases e)
  case (Shorten req)
  with POST_directory [of cfg "clock (base (inner vw))" req "db (base (inner vw))"
      "rng (base (inner vw))"]
  show ?thesis by (simp add: POST_world_def case_prod_beta)
next
  case (Visit rq)
  then show ?thesis by (simp add: GET_frame)
next
  case (RunTracker i)
  show ?thesis
  proof (cases "i < length (pending (base (inner vw)))")
    case True
    with assms have "task_ok (db (base (inner vw))) (pending (base (inner vw)) ! i)"
      "store_inv (db (base (inner vw)))"
      by (simp_all add: world_inv_def tasks_ok_def list_all_length)
    with True RunTracker show ?thesis
      by (simp add: run_tracker_def trackClickAsync_directory)
  qed (use RunTracker in \<open>simp add: run_tracker_def\<close>)
qed simp_all

lemma shorten_begin_answer:
  "fst (shorten_begin cfg req cw) = Some r \<Longrightarrow> created r = Nothing"
  using shorten_check_Return [of cfg "db (base cw)" "rng (base cw)" req]
  by (auto simp: shorten_begin_def split: prod.splits step.splits)

lemma shorten_begin_db [simp]: "db (base (snd (shorten_begin cfg req cw))) = db (base cw)"
  by (auto simp: shorten_begin_def split: prod.splits step.splits)

lemma cstep_directory:
  assumes "cworld_inv cfg (inner vw)"
  shows "perform (vaction cfg vw (Other e)) (directory_of (db (base (inner vw)))) =
    Some (directory_of (db (base (cstep cfg (inner vw) e))))"
proof (cases e)
  case (Atomic a)
  with assms step_directory [of cfg vw a] show ?thesis by (simp add: cworld_inv_def)
next
  case (ShortenBegin req)
  then show ?thesis
    by (cases "fst (shorten_begin cfg req (inner vw))") (simp_all add: shorten_begin_answer)
next
  case (ShortenEnd i)
  with shorten_commit_directory [of cfg "db (base (inner vw))" "clock (base (inner vw))"
      "inflight (inner vw) ! i"]
  show ?thesis
    by (auto simp: shorten_end_def case_prod_beta split: step.splits)
qed

lemma visit_answers:
  "fst (visit_begin cfg req vw) = Some r \<Longrightarrow> created r = Nothing"
  "fst (visit_lookup cfg i vw) = Some r \<Longrightarrow> created r = Nothing"
  "fst (visit_end cfg i vw) = Some r \<Longrightarrow> created r = Nothing"
  by (auto simp: visit_begin_def visit_lookup_def visit_end_def cache_phase_def
      cache_populate_def Let_def next_redirect_def case_prod_beta
      split: if_splits sum.splits option.splits visit.splits)

lemma vstep_directory:
  assumes "vworld_inv cfg vw"
  shows "perform (vaction cfg vw e) (directory_of (db (base (inner vw)))) =
    Some (directory_of (db (base (inner (vstep cfg vw e)))))"
proof (cases e)
  case (Other a)
  with assms cstep_directory [of cfg vw a] show ?thesis
    by (simp add: vworld_inv_def)
next
  case (VisitBegin req)
  then show ?thesis
    by (cases "fst (visit_begin cfg req vw)") (simp_all add: vstep_db visit_answers)
next
  case (VisitLookup i)
  then show ?thesis
    by (cases "fst (visit_lookup cfg i vw)") (simp_all add: vstep_db visit_answers)
next
  case (VisitEnd i)
  then show ?thesis
    by (cases "fst (visit_end cfg i vw)") (simp_all add: vstep_db visit_answers)
qed

lemma vrun_directory:
  assumes "vworld_inv cfg vw"
  shows "performs (vactions cfg vw es) (directory_of (db (base (inner vw)))) =
    Some (directory_of (db (base (inner (vrun cfg vw es)))))"
  using assms
proof (induction es arbitrary: vw)
  case (Cons e es)
  from Cons.IH [OF vstep_inv [OF Cons.prems]] vstep_directory [OF Cons.prems] show ?case
    by simp
qed simp

section \<open>What every directory keeps\<close>

lemma perform_keeps:
  assumes "perform a D = Some D'" and "D s = Some (u, m)"
  shows "\<exists>n. m \<le> n \<and> D' s = Some (u, n)"
  using assms by (cases a) (auto split: option.splits if_splits)

lemma performs_keeps:
  assumes "performs as D = Some D'" and "D s = Some (u, m)"
  shows "\<exists>n. m \<le> n \<and> D' s = Some (u, n)"
  using assms
proof (induction as arbitrary: D m)
  case (Cons a as)
  from Cons.prems(1) obtain D1 where 1: "perform a D = Some D1" "performs as D1 = Some D'"
    by (auto split: option.splits)
  from perform_keeps [OF 1(1) Cons.prems(2)] obtain k where
    k: "m \<le> k" "D1 s = Some (u, k)" by blast
  from Cons.IH [OF 1(2) k(2)] k(1) show ?case by (auto intro: le_trans)
qed simp

section \<open>Properties of the service\<close>

text \<open>
  C17. The deployment implements the directory. From every reachable world
  and along every run of events (visits in their three steps, shorten
  requests whole or in their two halves, trackers in any order, outages,
  evictions, ticks of the clock) the actions that the answers and the
  trackers announce can all be performed, one after the other, on the
  directory of the store at the start, and they lead to the directory of the
  store at the end. So a 201 is only sent for a slug that was free, and the
  slug is then bound to the destination of the answer with no clicks; a tracker that
  is neither dropped as a bot nor run while the store is down adds one click
  to its slug and to no other; and no other step changes what the store binds
  to any slug.
\<close>

theorem deployment_implements_directory:
  assumes "vreachable cfg vw"
  shows "performs (vactions cfg vw es) (directory_of (db (base (inner vw)))) =
    Some (directory_of (db (base (inner (vrun cfg vw es)))))"
  using vreachable_inv [OF assms] by (rule vrun_directory)

text \<open>
  The waiting visit of the examples ends and its tracker runs: a click on
  \<open>abc\<close>, which the directory at the end has counted.
\<close>

theorem deployment_implements_directory_witness:
  "vreachable demo_config abc_waiting
   \<and> vactions demo_config abc_waiting [VisitEnd 0, Other (Atomic (RunTracker 0))] =
       [Nothing, Click ''abc'']
   \<and> directory_of (db (base (inner abc_waiting))) ''abc'' = Some (''https://example.com'', 0)
   \<and> directory_of (db (base (inner
        (vrun demo_config abc_waiting [VisitEnd 0, Other (Atomic (RunTracker 0))])))) ''abc'' =
       Some (''https://example.com'', 1)"
proof -
  let ?es = "[VisitEnd 0, Other (Atomic (RunTracker 0))]"
  have a: "vactions demo_config abc_waiting ?es = [Nothing, Click ''abc'']"
    by (simp add: abc_waiting_def visit_end_def cache_populate_def Let_def next_redirect_def
        scheme_parser_def case_prod_beta dispatch_def abc_world_facts clicked_def
        is_bot_examples redis_set_def empty_cache_def)
  have b: "directory_of (db (base (inner abc_waiting))) ''abc'' = Some (''https://example.com'', 0)"
    by (simp add: abc_waiting_def abc_world_facts directory_of_def link_by_slug_def abc_store_def)
  define D where "D = directory_of (db (base (inner (vrun demo_config abc_waiting ?es))))"
  from deployment_implements_directory [OF abc_waiting_reachable, of ?es]
  have "performs [Nothing, Click ''abc''] (directory_of (db (base (inner abc_waiting)))) = Some D"
    by (simp only: a D_def)
  with b have "D ''abc'' = Some (''https://example.com'', 1)"
    by auto
  with a b abc_waiting_reachable show ?thesis by (simp only: D_def)
qed

text \<open>
  What every user can rely on: along every run from a reachable world a slug
  keeps its destination, and its clicks never go down.
\<close>

theorem directory_keeps:
  assumes "vreachable cfg vw" and "directory_of (db (base (inner vw))) s = Some (u, m)"
  shows "\<exists>n. m \<le> n \<and> directory_of (db (base (inner (vrun cfg vw es)))) s = Some (u, n)"
  using vrun_directory [OF vreachable_inv [OF assms(1)], of es] assms(2) by (rule performs_keeps)

theorem directory_keeps_witness:
  "vreachable demo_config abc_waiting
   \<and> directory_of (db (base (inner abc_waiting))) ''abc'' = Some (''https://example.com'', 0)
   \<and> (\<exists>n. directory_of (db (base (inner (vrun demo_config abc_waiting [VisitEnd 0]))))
            ''abc'' = Some (''https://example.com'', n))"
proof -
  have b: "directory_of (db (base (inner abc_waiting))) ''abc'' = Some (''https://example.com'', 0)"
    by (simp add: abc_waiting_def abc_world_facts directory_of_def link_by_slug_def abc_store_def)
  from directory_keeps [OF abc_waiting_reachable b, of "[VisitEnd 0]"] b abc_waiting_reachable
  show ?thesis by auto
qed

end
