(* ===== verification/Spec2Isabelle.thy ===== *)
theory Spec2Isabelle
  imports Trackers Site Service
begin

text \<open>
  \<^bold>\<open>okg.me: a URL shortener.\<close> A verification development for the TypeScript
  sources under \<open>src/src\<close>.

  \<^bold>\<open>The program.\<close> Two HTTP handlers share a database and an optional cache.
  \<^item> \<open>POST /api/shorten\<close> (\<open>app/api/shorten/route.ts\<close>) validates a JSON body,
    takes the caller's custom slug or asks \<open>generateUniqueSlug\<close>
    (\<open>lib/utils/url.ts\<close>) for a random one, inserts a Link row and answers with
    the short URL.
  \<^item> \<open>GET /[slug]\<close> (\<open>app/[slug]/route.ts\<close>) resolves a slug, first in Redis
    (\<open>lib/redis.ts\<close>), then in the database, repopulates the cache, starts
    \<open>trackClickAsync\<close> without awaiting it and redirects.
  \<^item> \<open>trackClickAsync\<close> (same file) filters bots, hashes the client address and
    writes a ClickLog row together with the increment of the link's counter.
  \<^item> The home page (\<open>app/page.tsx\<close>) holds the form that calls
    \<open>POST /api/shorten\<close> and shows the answer; it is built from \<open>Card\<close> and
    \<open>Input\<close> (\<open>components/ui\<close>) and rendered inside \<open>RootLayout\<close>
    (\<open>app/layout.tsx\<close>).

  \<^bold>\<open>The theories\<close>, in the order of their imports.
  \<^item> \<open>Prelude\<close>: exceptions as values (\<open>exn\<close>, \<open>'a result\<close> with \<open>Inl\<close> the
    exception), the JavaScript string operations the sources use
    (\<open>toLowerCase\<close>, \<open>includes\<close>, \<open>||\<close> on strings), shared list lemmas and the
    fact collections \<open>okg_defs\<close> and \<open>okg_frame\<close>.
  \<^item> \<open>JsValue\<close>: JSON values with truthiness, property reads, \<open>String(v)\<close>,
    \<open>.length\<close> and the comparison with a number literal, as the shorten handler
    applies them to an untyped body.
  \<^item> \<open>Store\<close>: the Link and ClickLog tables and the three queries the handlers
    issue (\<open>findUnique\<close>, \<open>link_create\<close>, \<open>click_transaction\<close>), written from the
    specification since the Prisma client is not among the sources; a store
    that is down fails every query. The invariant \<open>store_inv\<close> (unique slugs
    and ids, ids below the next id, every click attached to a link, every
    counter equal to the number of its click rows) with its preservation by
    each write, and the abstraction \<open>resolve\<close> of a store to a map from slugs to
    destinations.
  \<^item> \<open>Url\<close>: \<open>isValidUrl\<close>, \<open>generateSlugAlphabet\<close> and the retry loop
    \<open>generateUniqueSlug\<close> of \<open>url.ts\<close>; the loop is compared with the list
    \<open>candidates_from\<close> of the candidates of a run, and \<open>lookups\<close> counts the
    rounds it makes.
  \<^item> \<open>Cache\<close>: the module body of \<open>redis.ts\<close> (\<open>env_usable\<close>, \<open>hasRedisEnvs\<close>,
    \<open>redis_module\<close>: the exported client and the global it leaves), with the
    export spelled out for every environment in terms of the values of the
    two connection variables; and, from the specification, the cache behind
    the client: entries with an expiry time, \<open>redis_get\<close>, \<open>redis_set\<close>, each
    failing while the cache is down.
  \<^item> \<open>Http\<close>: what both handlers share: the configuration of a deployment
    (\<open>config\<close>), the responses (\<open>Json\<close>, \<open>Redirect\<close>, \<open>PlainText\<close>), the
    outcome of a block of a handler (\<open>Return\<close>, \<open>Throw\<close>, \<open>Continue\<close>).
  \<^item> \<open>Shorten\<close>: \<open>POST\<close> of \<open>api/shorten/route.ts\<close> as the composition of
    \<open>shorten_check\<close> (lines 7 to 43: validation, custom slug checks, generation)
    and \<open>shorten_commit\<close> (lines 45 to 65: insert and answer) under the outer
    \<open>catch\<close>; its answers on every branch, its effect on the store, the
    invariant.
  \<^item> \<open>Redirect\<close>: \<open>GET\<close> of \<open>[slug]/route.ts\<close> as \<open>cache_phase\<close> (lines 17 to
    29), \<open>store_phase\<close> (lines 31 to 54) and the outer \<open>catch\<close>, over a \<open>world\<close>
    of store, cache, pending trackers, clock and tape position; and
    \<open>trackClickAsync\<close> (lines 63 to 108) as a function on the store that cannot
    fail. A call of \<open>trackClickAsync\<close> that is not awaited appends a task to
    \<open>pending\<close>; running the task is a separate step.
  \<^item> \<open>System\<close>: the deployment as a state machine: the events (\<open>Shorten\<close>,
    \<open>Visit\<close>, \<open>RunTracker\<close> of any pending task, \<open>Tick\<close>, \<open>StoreFault\<close>,
    \<open>CacheFault\<close>, \<open>CacheEvict\<close>), \<open>apply_event\<close>, \<open>run\<close>, the inductive
    predicate \<open>reachable\<close>, and the invariant \<open>world_inv\<close> with the proof, by
    rule induction, that every reachable world has it.
  \<^item> \<open>Interleave\<close>: the shorten handler as two steps, \<open>ShortenBegin\<close> (the
    check) and \<open>ShortenEnd\<close> (the commit of a waiting request), with any event
    of \<open>System\<close> between them; the invariant for all reachable worlds,
    uniqueness of the slugs handed out, and the race of two requests that
    chose the same slug, which the atomic handler cannot show.
  \<^item> \<open>Trackers\<close>: the contract of the tracker, \<open>track\<close>, over tables whose
    click rows are a multiset (\<open>tables_of\<close>); \<open>trackClickAsync\<close> implements it,
    two trackers commute on the tables, and the schedules of the pending
    trackers (\<open>run_trackers\<close>, \<open>fired\<close>, \<open>waiting\<close>) all end in the same
    tables once the queue is empty.
  \<^item> \<open>Visits\<close>: the redirect handler as three steps, \<open>VisitBegin\<close> (lines 9
    to 29), \<open>VisitLookup\<close> (lines 32 to 39) and \<open>VisitEnd\<close> (lines 42 to 54),
    with any event of \<open>Interleave\<close> between them; the invariant for all
    reachable worlds, that a 301 redirect always goes where the store says,
    and that every answer a step sends is the answer \<open>GET\<close> gives in the world
    of that moment; \<open>track_late\<close>, the tracker with its lookup and its
    transaction at two times.
  \<^item> \<open>Page\<close>: the home page \<open>app/page.tsx\<close>: its eight state cells,
    \<open>handleSubmit\<close> as \<open>submit_begin\<close> (lines 19 to 37) and \<open>submit_end\<close> (lines 39
    to 76) around the awaited request, \<open>handleCopy\<close>, the inline handlers of
    the form with the \<open>disabled\<close> conditions that guard them, the QR code and
    the copy timer as jobs that finish later; the page as a state machine
    with its invariant, and one submit against \<open>POST\<close>.
  \<^item> \<open>View\<close>: what is rendered, as element trees (\<open>node\<close>): \<open>Card\<close> of
    \<open>Card.tsx\<close>, \<open>Input\<close> of \<open>Input.tsx\<close>, \<open>RootLayout\<close> and \<open>metadata\<close> of
    \<open>layout.tsx\<close>, and the markup \<open>Home\<close> returns (lines 87 to 212 of
    \<open>page.tsx\<close>) in its parts \<open>hero\<close>, \<open>input_group\<close>, \<open>custom_options\<close>,
    \<open>shortener_form\<close>, \<open>result_area\<close>, \<open>features\<close>. \<open>offered\<close> reads off a tree
    the handlers a user can trigger; the lemmas show that these are the
    events \<open>ui_step\<close> accepts, which links, images and texts a tree shows, and
    the tokens of the class attributes the two components build.
  \<^item> \<open>Site\<close>: the browsers that have the page open together with the
    server of \<open>Visits\<close>, overlapping visits and shorten requests included: a
    page's request is answered by \<open>POST\<close> in the world the server is in when
    it arrives (\<open>serve\<close>), or fails on the way;
    the invariant \<open>site_inv\<close> of pages and server, that a link on show
    redirects to the destination on show, and that a request settles.
  \<^item> \<open>Service\<close>: what the service promises, as a directory from slugs to a
    destination and a number of clicks with three guarded actions (\<open>Create\<close>
    of a free slug, \<open>Click\<close>, \<open>Nothing\<close>; \<open>perform\<close>, \<open>performs\<close>); the abstraction
    \<open>directory_of\<close> of a store; the action a step announces, read off its
    answer or off the tracker that ran (\<open>vaction\<close>); and the refinement: along
    every run of \<open>Visits\<close> the store changes as the directory does under the
    announced actions, so destinations are kept and clicks never go down.
  \<^item> \<open>Spec2Isabelle\<close> (this theory): the properties that need several
    components: immutability of what a slug resolves to, create-then-resolve,
    bot filtering and click accounting from the request to the tables.

  \<^bold>\<open>Library calls as parameters.\<close> \<open>new URL\<close> is the field \<open>parse_url\<close> of the
  configuration, the random characters of nanoid are a tape (\<open>tape\<close>, a function
  from positions to numbers, read at the position the world carries), SHA-256
  is \<open>sha256_hex\<close>, \<open>process.env.NEXT_PUBLIC_BASE_URL\<close> is \<open>base_url_env\<close> and the
  export of \<open>redis.ts\<close> is \<open>redis\<close>. \<open>QRCode.toDataURL\<close> is the parameter \<open>qr\<close>
  of the page's step function, and the class names the CSS modules generate
  are the three functions of \<open>stylesheets\<close>. The theorems hold for every
  parser, tape, hash function, QR encoder and style sheet; the witnesses use
  \<open>demo_config\<close>, whose parser splits a string at its first colon, and
  \<open>demo_css\<close>. \<open>NextResponse.redirect\<close> throws on a target the
  parser rejects; \<open>world_inv\<close> shows that this cannot happen for a stored
  destination.

  \<^bold>\<open>Numbers and bounds.\<close> Lengths, ids, times and counters are natural
  numbers; nothing in the modelled code is a fixed-width integer. The retry
  loop is a \<open>function\<close> with the measure \<open>retries - i\<close>, and \<open>lookups\<close> bounds
  its rounds by \<open>retries\<close>; no fuel is used anywhere. Every operation of the
  model is an executable function, and the witnesses evaluate them; only the
  five reachability predicates (\<open>reachable\<close>, \<open>creachable\<close>, \<open>vreachable\<close>,
  \<open>ui_reachable\<close>, \<open>site_reachable\<close>) are inductive. Strings are lists of
  bytes: the three headings of the page that begin with a character outside
  ASCII hold its UTF-8 bytes. Link ids, strings in the sources, are numbers in the model; an
  absent id is \<open>None\<close>.

  \<^bold>\<open>Atomicity.\<close> A handler is cut where it awaits. In \<open>System\<close> each handler
  runs as one step and a tracker as another step at any later point. In
  \<open>Interleave\<close> the shorten handler is cut between the check and the insert,
  where it can lose a race. In \<open>Visits\<close> the redirect handler is cut at its
  lookup and at its write to the cache; the cache entry it writes late is
  still right because slugs and destinations never change. The third step
  holds the write to the cache together with the synchronous code after it
  (the start of the tracker and the redirect). The store's
  queries and the transaction are atomic, as the database makes them. The
  tracker runs as one step: \<open>track_late_cases\<close> shows that a tracker whose
  transaction runs later than its lookup does what the one-step tracker
  does at the time of the transaction, or nothing. In \<open>Site\<close> a request of a
  page is handled in one step at the server; the steps of other clients
  come between the steps of a page.

  \<^bold>\<open>Order and progress.\<close> The pending trackers, the waiting shorten requests
  and the waiting visits are queues from which any element may be taken
  next. What holds for every order is stated over all runs (\<open>reachable\<close> and
  its kin) or, for the tables, over the multiset of click rows. Progress is
  stated as: the run that takes each waiting element once empties the queue
  (in \<open>Trackers\<close> and \<open>Interleave\<close>), and the step that serves a page ends its
  loading state (in \<open>Site\<close>).

  \<^bold>\<open>Plan.\<close> Done: store, generator, validation, shorten handler, redirect
  handler, click tracker, Redis module, the state machine and its invariant,
  overlapping shorten requests, overlapping visits, the order of the
  trackers, the home page with its markup, the two components and the
  layout, pages and server in one state machine, the directory as the
  abstract service with the refinement, the properties across the
  components. Open: a page whose request is handled in two halves at the
  server, so that the race of two requests for one slug reaches a browser;
  the browser's own validation of the URL field in front of \<open>handleSubmit\<close>.

  \<^bold>\<open>Library objects.\<close> \<open>NextResponse\<close>, \<open>Headers\<close> and the Upstash client are
  libraries: the responses, \<open>status_of\<close>, \<open>next_redirect\<close>, \<open>header_get\<close> (names
  compared without regard to case, repeated values joined) and the cache are
  written from their documented behaviour. \<open>await params\<close> in \<open>GET\<close> is a
  read of the route's slug: the promise the framework passes does not
  reject. \<open>toLowerCase\<close> and \<open>trim\<close> change ASCII letters and ASCII white
  space only.

  \<^bold>\<open>Not modelled.\<close> \<open>Button\<close> is imported by the page and is not among the
  sources: its element stays in the tree with its props, and \<open>offered\<close> reads
  \<open>type\<close>, \<open>disabled\<close> and \<open>onClick\<close> from it as from a \<open>button\<close>. The forwarded
  \<open>ref\<close> of \<open>Input\<close> is no prop of the rendered element. The CSS itself, the
  browser's own validation of the URL field (its type \<open>url\<close> and \<open>required\<close>), the
  drawing of the QR code (a parameter) and the clipboard's permission prompt
  are browser behaviour; \<open>trim\<close> and the tokens of a class attribute are
  modelled on ASCII white space; logging (\<open>console.warn\<close>, \<open>console.error\<close>)
  has no effect on state or answers; timeouts of the cache calls do not exist
  in the sources.
\<close>

section \<open>Properties across the components\<close>

text \<open>
  C32. Slugs and destinations are immutable: whatever events follow, every slug
  the store resolved before them resolves to the same destination after them.
  Holds from every world, reachable or not.
\<close>

theorem resolve_immutable: "resolve (db w) \<subseteq>\<^sub>m resolve (db (run cfg w es))"
  by (rule run_resolve_le)

text \<open>
  C8. Create, then resolve. When \<open>POST\<close> answers 201 with slug \<open>s\<close> and
  destination \<open>u\<close> in a reachable world, then after any further events, if the
  store answers, a visit of \<open>s\<close> is redirected to \<open>u\<close> with status 301,
  from the cache or from the store.
\<close>

theorem create_then_visit:
  assumes "reachable cfg w"
    and "fst (apply_event cfg w (Shorten req)) = Some (Json 201 (SuccessBody su s u))"
    and "db_up (db (run cfg w (Shorten req # es)))"
    and "slug_param rq = s"
  shows "fst (apply_event cfg (run cfg w (Shorten req # es)) (Visit rq)) =
    Some (Redirect u (Some 301))"
proof -
  let ?w = "run cfg w (Shorten req # es)"
  from assms(2) have c: "s \<noteq> []" "resolve (db (step cfg w (Shorten req))) s = Some u"
    using POST_world_created [of cfg req w su s u] by simp_all
  with run_resolve_le [of "step cfg w (Shorten req)" cfg es]
  have "resolve (db ?w) s = Some u" by (auto simp: map_le_def dom_def)
  moreover have "world_inv cfg ?w" using assms(1) by (intro reachable_inv reachable_run)
  ultimately show ?thesis
    using GET_resolver [of rq ?w cfg] c(1) assms(3,4) by (simp add: world_inv_def)
qed

theorem create_then_visit_witness:
  "reachable demo_config init_world
   \<and> fst (apply_event demo_config init_world
        (Shorten (shorten_body ''https://example.com'' (JStr ''abc'')))) =
       Some (Json 201 (SuccessBody ''https://okg.me/abc'' ''abc'' ''https://example.com''))
   \<and> db_up (db (run demo_config init_world
        [Shorten (shorten_body ''https://example.com'' (JStr ''abc'')), Tick 5, CacheEvict]))
   \<and> fst (apply_event demo_config
        (run demo_config init_world
           [Shorten (shorten_body ''https://example.com'' (JStr ''abc'')), Tick 5, CacheEvict])
        (Visit (browser_request ''abc''))) = Some (Redirect ''https://example.com'' (Some 301))"
proof -
  have P: "POST demo_config 0 (shorten_body ''https://example.com'' (JStr ''abc'')) empty_store 0 =
     (Json 201 (SuccessBody ''https://okg.me/abc'' ''abc'' ''https://example.com''),
      abc_store\<lparr>links := map (\<lambda>l. l\<lparr>createdAt := 0\<rparr>) (links abc_store)\<rparr>, 0)"
    by (simp add: POST_custom demo_simps)
  then show ?thesis
    using create_then_visit [of demo_config init_world
        "shorten_body ''https://example.com'' (JStr ''abc'')"
        "''https://okg.me/abc''" "''abc''" "''https://example.com''"
        "[Tick 5, CacheEvict]" "browser_request ''abc''"]
    by (simp add: reachable.reach_init [unfolded init_world_def] POST_world_def init_world_def
        abc_store_def)
qed

text \<open>
  Bot filtering, end to end: a visit whose user agent names a bot, followed
  by the run of the tracker it started (if it started one), leaves the store
  as it was: no ClickLog row and no counter change. Holds from every world.
\<close>

theorem bot_visit_leaves_no_trace:
  assumes "is_bot (user_agent_of rq)"
  shows "db (run cfg w [Visit rq, RunTracker (length (pending w))]) = db w"
proof -
  obtain ts where ts: "pending (snd (GET cfg rq w)) = pending w @ ts"
    "\<forall>t \<in> set ts. task_req t = rq \<and> task_slug t = slug_param rq"
    using GET_pending [of cfg rq w] by blast
  show ?thesis
  proof (cases ts)
    case Nil
    with ts show ?thesis by (simp add: run_tracker_def GET_frame)
  next
    case (Cons t ts')
    with ts assms have "is_bot (user_agent_of (task_req (pending (snd (GET cfg rq w)) ! length (pending w))))"
      by (simp add: nth_append)
    then show ?thesis by (simp add: run_tracker_def trackClickAsync_bot GET_frame)
  qed
qed

theorem bot_visit_leaves_no_trace_witness:
  "is_bot (user_agent_of (googlebot_request ''abc''))
   \<and> db (run demo_config abc_world [Visit (googlebot_request ''abc''), RunTracker 0]) = abc_store"
  using bot_visit_leaves_no_trace [of "googlebot_request ''abc''" demo_config abc_world]
  by (simp add: is_bot_examples user_agent_of_def header_get_def googlebot_request_def)

text \<open>
  C6. Click accounting for \<open>K\<close> visits: from a reachable world with no
  tracker pending and the store up, \<open>k\<close> visits of an existing slug by a
  client that is no bot, followed by the runs of the \<open>k\<close> trackers they
  started, add exactly \<open>k\<close> ClickLog rows for the link and exactly \<open>k\<close> to its
  \<open>totalClicks\<close>, whether the visits were answered from the cache or the store.
\<close>

theorem visits_counted:
  assumes "reachable cfg w" and "db_up (db w)" and "pending w = []"
    and "link_by_slug (db w) s = Some l" and "slug_param rq = s" and "s \<noteq> []"
    and "\<not> is_bot (user_agent_of rq)"
  shows "click_count (db (run cfg w (replicate k (Visit rq) @ replicate k (RunTracker 0))))
        (link_id l) = click_count (db w) (link_id l) + k
    \<and> link_by_slug (db (run cfg w (replicate k (Visit rq) @ replicate k (RunTracker 0)))) s =
        Some (l\<lparr>totalClicks := totalClicks l + k\<rparr>)"
proof -
  let ?w = "run cfg w (replicate k (Visit rq))"
  from visits_pending [OF reachable_inv [OF assms(1)] assms(2,4,5,6), of k] assms(3)
  have v: "db ?w = db w" "length (pending ?w) = k"
    "list_all (task_for s rq (link_id l)) (pending ?w)" by auto
  with trackers_counted [of ?w s l rq cfg] assms(2,4,7) show ?thesis
    by (simp add: run_append)
qed

theorem visits_counted_witness:
  "reachable demo_config abc_world \<and> db_up (db abc_world) \<and> pending abc_world = []
   \<and> \<not> is_bot (user_agent_of (browser_request ''abc''))
   \<and> click_count (db (run demo_config abc_world
        (replicate 3 (Visit (browser_request ''abc'')) @ replicate 3 (RunTracker 0)))) 0 = 3
   \<and> link_by_slug (db (run demo_config abc_world
        (replicate 3 (Visit (browser_request ''abc'')) @ replicate 3 (RunTracker 0)))) ''abc'' =
       Some \<lparr>link_id = 0, slug = ''abc'', originalUrl = ''https://example.com'',
             totalClicks = 3, createdAt = 7\<rparr>"
  using visits_counted [of demo_config abc_world "''abc''" _ "browser_request ''abc''" 3]
    abc_world_reachable abc_world_facts(3,4) is_bot_examples(2)
  by (simp add: user_agent_of_def header_get_def browser_request_def click_count_def abc_store_def)

end
